(* ===== verification/Prelude.thy ===== *)
theory Prelude
  imports Main "HOL-Library.Word"
begin

text \<open>
  Shared vocabulary of the development: the machine types of the C++ sources as
  words, the conversions between \<^verbatim>\<open>std::string\<close> and bytes, the result type of
  code that throws, the named theorem collections, and the generic word and list
  lemmas the component theories use.
\<close>

unbundle bit_operations_syntax

section \<open>Types\<close>

text \<open>
  \<^verbatim>\<open>std::uint8_t\<close>, \<^verbatim>\<open>std::uint32_t\<close>, \<^verbatim>\<open>std::uint64_t\<close> are words of their width.
  \<^verbatim>\<open>std::int32_t\<close> is a 32-bit word too, read with \<^const>\<open>sint\<close> where its sign matters
  (C++20 fixes two's complement). \<^verbatim>\<open>std::size_t\<close> values index lists and are \<^typ>\<open>nat\<close>;
  where a size is converted to \<^verbatim>\<open>std::uint64_t\<close> the conversion is written out.
\<close>

type_synonym byte = "8 word"
type_synonym u32 = "32 word"
type_synonym i32 = "32 word"
type_synonym u64 = "64 word"
type_synonym bytes = "byte list"

text \<open>A computation that may throw: \<^term>\<open>Inl e\<close> is the exception.\<close>

type_synonym ('e, 'a) result = "'e + 'a"

text \<open>
  The exceptions of the sources. \<open>System_error\<close> stands for those Boost.Asio throws,
  \<open>Filesystem_error\<close> for those of \<^verbatim>\<open>std::filesystem\<close>. \<open>Undefined_behaviour\<close> is no exception but
  marks an access through a dangling pointer; the code is proved never to reach it.
\<close>

datatype exn =
    Runtime_error string
  | Invalid_argument string
  | System_error string
  | Filesystem_error
  | Undefined_behaviour

text \<open>
  Code that changes a state and may throw: the state is what the exception leaves behind.
  \<open>io_bind\<close> is sequencing; an exception skips the rest.
\<close>

type_synonym ('s, 'a) io = "'s \<Rightarrow> (exn, 'a) result \<times> 's"

definition io_return :: "'a \<Rightarrow> ('s, 'a) io" where
  "io_return x s = (Inr x, s)"

definition io_throw :: "exn \<Rightarrow> ('s, 'a) io" where
  "io_throw e s = (Inl e, s)"

definition io_bind :: "('s, 'a) io \<Rightarrow> ('a \<Rightarrow> ('s, 'b) io) \<Rightarrow> ('s, 'b) io" where
  "io_bind m k s = (case m s of (Inl e, s') \<Rightarrow> (Inl e, s') | (Inr x, s') \<Rightarrow> k x s')"

text \<open>\<^verbatim>\<open>if (!condition) throw e;\<close>\<close>

definition io_require :: "bool \<Rightarrow> exn \<Rightarrow> ('s, unit) io" where
  "io_require c e = (if c then io_return () else io_throw e)"

text \<open>A pointer that must not be null; a pure computation that may throw.\<close>

definition io_some :: "'a option \<Rightarrow> exn \<Rightarrow> ('s, 'a) io" where
  "io_some x e = (case x of Some y \<Rightarrow> io_return y | None \<Rightarrow> io_throw e)"

definition io_lift :: "(exn, 'a) result \<Rightarrow> ('s, 'a) io" where
  "io_lift r = (case r of Inl e \<Rightarrow> io_throw e | Inr x \<Rightarrow> io_return x)"

section \<open>Collections\<close>

named_theorems wire_simps \<open>effect of the wire writer and reader on their data\<close>
named_theorems msg_simps \<open>what the readers find in the messages the builders write\<close>
named_theorems io_rules \<open>rules for triples over code that may throw\<close>
named_theorems impl_defs \<open>definitions of the remote's handlers\<close>

section \<open>Sequencing\<close>

lemma io_bind_return [simp]: "io_bind (io_return x) k = k x"
  by (simp add: io_bind_def io_return_def fun_eq_iff)

lemma io_bind_throw [simp]: "io_bind (io_throw e) k = io_throw e"
  by (simp add: io_bind_def io_throw_def fun_eq_iff)

lemma io_bind_Inr_iff:
  "io_bind m k s = (Inr y, s'') \<longleftrightarrow> (\<exists>x s'. m s = (Inr x, s') \<and> k x s' = (Inr y, s''))"
  by (auto simp: io_bind_def split: prod.splits sum.splits)

lemma io_bind_Inl_iff:
  "io_bind m k s = (Inl e, s'') \<longleftrightarrow>
     m s = (Inl e, s'') \<or> (\<exists>x s'. m s = (Inr x, s') \<and> k x s' = (Inl e, s''))"
  by (auto simp: io_bind_def split: prod.splits sum.splits)

lemma io_require_True [simp]: "io_require True e = io_return ()"
  by (simp add: io_require_def)

lemma io_require_False [simp]: "io_require False e = io_throw e"
  by (simp add: io_require_def)

lemma io_some_simps [simp]: "io_some (Some x) e = io_return x" "io_some None e = io_throw e"
  by (simp_all add: io_some_def)

lemma io_lift_simps [simp]: "io_lift (Inr x) = io_return x" "io_lift (Inl e) = io_throw e"
  by (simp_all add: io_lift_def)

lemma io_return_eq [simp]: "io_return x s = (Inr y, s') \<longleftrightarrow> y = x \<and> s' = s" "io_return x s \<noteq> (Inl e, s')"
  by (auto simp: io_return_def)

lemma io_throw_eq [simp]: "io_throw e s = (Inl e', s') \<longleftrightarrow> e' = e \<and> s' = s" "io_throw e s \<noteq> (Inr y, s')"
  by (auto simp: io_throw_def)

lemma io_require_Inr [simp]: "io_require c e s = (Inr y, s') \<longleftrightarrow> c \<and> s' = s"
  by (auto simp: io_require_def)

lemma io_some_Inr [simp]: "io_some x e s = (Inr y, s') \<longleftrightarrow> x = Some y \<and> s' = s"
  by (cases x) auto

lemma io_lift_Inr [simp]: "io_lift r s = (Inr y, s') \<longleftrightarrow> r = Inr y \<and> s' = s"
  by (cases r) auto

text \<open>
  Triples: from a state with \<open>P\<close>, the code returns with \<open>Q\<close> or throws with \<open>E\<close>.
\<close>

definition io_triple ::
    "('s \<Rightarrow> bool) \<Rightarrow> ('s, 'a) io \<Rightarrow> ('a \<Rightarrow> 's \<Rightarrow> bool) \<Rightarrow> (exn \<Rightarrow> 's \<Rightarrow> bool) \<Rightarrow> bool" where
  "io_triple P m Q E \<longleftrightarrow>
     (\<forall>s. P s \<longrightarrow> (case m s of (Inr x, s') \<Rightarrow> Q x s' | (Inl e, s') \<Rightarrow> E e s'))"

lemma io_tripleI:
  assumes "\<And>s x s'. P s \<Longrightarrow> m s = (Inr x, s') \<Longrightarrow> Q x s'"
    and "\<And>s e s'. P s \<Longrightarrow> m s = (Inl e, s') \<Longrightarrow> E e s'"
  shows "io_triple P m Q E"
  using assms by (auto simp: io_triple_def split: prod.splits sum.splits)

lemma io_tripleD:
  "io_triple P m Q E \<Longrightarrow> P s \<Longrightarrow> m s = (Inr x, s') \<Longrightarrow> Q x s'"
  "io_triple P m Q E \<Longrightarrow> P s \<Longrightarrow> m s = (Inl e, s') \<Longrightarrow> E e s'"
  by (auto simp: io_triple_def split: prod.splits sum.splits)

lemma io_triple_bind [io_rules]:
  "io_triple P m R E \<Longrightarrow> (\<And>x. io_triple (R x) (k x) Q E) \<Longrightarrow> io_triple P (io_bind m k) Q E"
  by (fastforce simp: io_triple_def io_bind_def split: prod.splits sum.splits)

lemma io_triple_pre: "io_triple P' m Q E \<Longrightarrow> (\<And>s. P s \<Longrightarrow> P' s) \<Longrightarrow> io_triple P m Q E"
  by (auto simp: io_triple_def)

lemma io_triple_return [io_rules]: "(\<And>s. P s \<Longrightarrow> Q x s) \<Longrightarrow> io_triple P (io_return x) Q E"
  by (simp add: io_triple_def io_return_def)

lemma io_triple_require:
  "(\<And>s. P s \<Longrightarrow> \<not> c \<Longrightarrow> E e s) \<Longrightarrow> io_triple P (io_require c e) (\<lambda>_ s. P s \<and> c) E"
  by (simp add: io_triple_def io_require_def io_return_def io_throw_def)

lemma io_triple_some:
  "(\<And>s. P s \<Longrightarrow> x = None \<Longrightarrow> E e s) \<Longrightarrow> io_triple P (io_some x e) (\<lambda>y s. P s \<and> x = Some y) E"
  by (cases x) (simp_all add: io_triple_def io_return_def io_throw_def)

lemma io_triple_lift:
  "(\<And>s e. P s \<Longrightarrow> r = Inl e \<Longrightarrow> E e s) \<Longrightarrow> io_triple P (io_lift r) (\<lambda>y s. P s \<and> r = Inr y) E"
  by (cases r) (simp_all add: io_triple_def io_return_def io_throw_def)

section \<open>Strings and bytes\<close>

definition byte_of_char :: "char \<Rightarrow> byte" where
  "byte_of_char c = word_of_nat (of_char c)"

definition char_of_byte :: "byte \<Rightarrow> char" where
  "char_of_byte b = char_of (unat b)"

definition string_bytes :: "string \<Rightarrow> bytes" where
  "string_bytes s = map byte_of_char s"

definition bytes_string :: "bytes \<Rightarrow> string" where
  "bytes_string bs = map char_of_byte bs"

lemma char_of_byte_of_char [simp]: "char_of_byte (byte_of_char c) = c"
proof -
  have "(of_char c :: nat) < 256"
    by simp
  then show ?thesis
    by (simp add: char_of_byte_def byte_of_char_def unat_of_nat)
qed

lemma byte_of_char_of_byte [simp]: "byte_of_char (char_of_byte b) = b"
proof -
  have "unat b < 256"
    using unsigned_less [of b, where ?'a = nat] by simp
  then show ?thesis
    by (simp add: char_of_byte_def byte_of_char_def)
qed

lemma bytes_string_of_string_bytes [simp]: "bytes_string (string_bytes s) = s"
  by (simp add: bytes_string_def string_bytes_def comp_def)

lemma string_bytes_of_bytes_string [simp]: "string_bytes (bytes_string b) = b"
  by (simp add: bytes_string_def string_bytes_def comp_def)

lemma length_string_bytes [simp]: "length (string_bytes s) = length s"
  by (simp add: string_bytes_def)

section \<open>Seven-bit groups of a word\<close>

text \<open>
  A varint is cut into groups of seven bits. \<^verbatim>\<open>0x7f\<close> selects a group, \<^verbatim>\<open>0x80\<close> is the
  continuation bit. These are the bit identities behind every encoder and decoder.
\<close>

lemma and_7f_mask: "(v::u64) AND 0x7f = take_bit 7 v"
  by (simp add: take_bit_eq_mask mask_numeral)

lemma and_7f_mask_byte: "(b::byte) AND 0x7f = take_bit 7 b"
  by (simp add: take_bit_eq_mask mask_numeral)

lemma and_80_bit_byte: "(b::byte) AND 0x80 = 0 \<longleftrightarrow> \<not> bit b 7"
proof -
  have "(0x80::byte) = push_bit 7 1"
    by simp
  then show ?thesis
    by (simp only: and_exp_eq_0_iff_not_bit push_bit_of_1)
qed

lemma or_80_bit: "(v::u64) OR 0x80 = set_bit 7 v"
  by (simp add: set_bit_def)

lemma unat_drop_7: "unat (drop_bit 7 (v::u64)) = unat v div 128"
  by (simp only: unat_drop_bit_eq) (simp add: drop_bit_eq_div)

lemma drop_7_less: "(0x80::u64) \<le> v \<Longrightarrow> unat (drop_bit 7 v) < unat v"
  by (simp add: unat_drop_7 word_le_nat_alt)

lemma continuation_group [simp]:
  "(ucast (ucast ((v AND 0x7f) OR 0x80 :: u64) AND 0x7f :: byte) :: u64) = v AND 0x7f"
  by (rule bit_word_eqI)
     (auto simp: and_7f_mask and_7f_mask_byte or_80_bit bit_simps)

lemma continuation_bit [simp]: "(ucast ((v AND 0x7f) OR 0x80 :: u64) :: byte) AND 0x80 \<noteq> 0"
  by (simp add: and_80_bit_byte and_7f_mask or_80_bit bit_simps)

lemma final_bits:
  assumes "(v::u64) < 0x80" and "bit v n"
  shows "n < 7"
proof (rule ccontr)
  assume "\<not> n < 7"
  then have "bit (drop_bit 7 v) (n - 7)"
    using assms(2) by (simp add: bit_drop_bit_eq)
  moreover have "unat (drop_bit 7 v) = 0"
    using assms(1) unfolding unat_drop_7 by (simp add: word_less_nat_alt)
  then have "drop_bit 7 v = 0"
    by (simp only: unat_eq_0)
  ultimately show False
    by simp
qed

lemma final_group [simp]: "(v::u64) < 0x80 \<Longrightarrow> (ucast (ucast v AND 0x7f :: byte) :: u64) = v"
  by (rule bit_word_eqI)
     (auto simp: and_7f_mask_byte bit_simps dest: final_bits)

lemma final_bit [simp]: "(v::u64) < 0x80 \<Longrightarrow> (ucast v :: byte) AND 0x80 = 0"
  by (auto simp: and_80_bit_byte bit_simps dest: final_bits)

lemma regroup:
  "push_bit s ((v::u64) AND 0x7f) OR push_bit (s + 7) (drop_bit 7 v) = push_bit s v"
proof (rule bit_word_eqI)
  fix n
  have "s + 7 \<le> n \<Longrightarrow> 7 + (n - (s + 7)) = n - s"
    by simp
  then show "bit (push_bit s (v AND 0x7f) OR push_bit (s + 7) (drop_bit 7 v)) n \<longleftrightarrow>
      bit (push_bit s v) n"
    by (cases "s + 7 \<le> n") (auto simp: and_7f_mask bit_simps)
qed

section \<open>Signed reading of small numbers\<close>

lemma sint_i32_of_nat: "n < 2 ^ 31 \<Longrightarrow> sint (word_of_nat n :: i32) = int n"
  by (simp add: signed_of_nat signed_take_bit_int_eq_self)

section \<open>Invariants of transition systems\<close>

text \<open>
  What a transition system promises about one step, with the number of steps as an index and a bound on
  it; and what follows for every run that stays within the bound.
\<close>

locale counted_invariant =
  fixes stp :: "'s \<Rightarrow> 's \<Rightarrow> bool"
    and I :: "nat \<Rightarrow> 's \<Rightarrow> bool"
    and bound :: nat
  assumes keeps: "stp s s' \<Longrightarrow> I n s \<Longrightarrow> n < bound \<Longrightarrow> I (Suc n) s'"
begin

lemma run_keeps: "(stp ^^ k) s s' \<Longrightarrow> I n s \<Longrightarrow> n + k \<le> bound \<Longrightarrow> I (n + k) s'"
proof (induction k arbitrary: s')
  case (Suc k)
  from Suc.prems(1) obtain t where "(stp ^^ k) s t" and "stp t s'"
    by auto
  with Suc.IH Suc.prems keeps [of t s' "n + k"] show ?case
    by simp
qed simp

end

text \<open>A relation whose steps take up a finite amount of work: its runs are bounded, and each can be continued to an end.\<close>

locale falling =
  fixes stp :: "'s \<Rightarrow> 's \<Rightarrow> bool" and work :: "'s \<Rightarrow> nat"
  assumes falls: "stp s t \<Longrightarrow> work t < work s"
begin

lemma run_bounded: "(stp ^^ k) s t \<Longrightarrow> k + work t \<le> work s"
proof (induction k arbitrary: t)
  case (Suc k)
  then obtain u where "(stp ^^ k) s u" and "stp u t" by auto
  with Suc.IH [of u] falls [of u t] show ?case by simp
qed simp

lemma run_ends: "\<exists>t. stp\<^sup>*\<^sup>* s t \<and> (\<nexists>u. stp t u)"
proof (induction "work s" arbitrary: s rule: less_induct)
  case less
  show ?case
  proof (cases "\<exists>u. stp s u")
    case True
    then obtain u where u: "stp s u" by blast
    from less.hyps [OF falls [OF u]] u show ?thesis
      by (meson converse_rtranclp_into_rtranclp)
  qed blast
qed

end

end
