(* ===== verification/Remote_Types.thy ===== *)
theory Remote_Types
  imports Prelude
begin

text \<open>
  The public data types of \<^verbatim>\<open>include/androidtvremote/types.hpp\<close>. Enumerators keep their
  C++ names; a prefix is added where an Isabelle name would clash.
\<close>

datatype ConnectionState = Disconnected | Connecting | Connected | Reconnecting

datatype Direction = DirectionUnknown | StartLong | EndLong | Short

fun directionCode :: "Direction \<Rightarrow> i32" where
  "directionCode DirectionUnknown = 0"
| "directionCode StartLong = 1"
| "directionCode EndLong = 2"
| "directionCode Short = 3"

datatype KeyCode =
    KeyUnknown | Home | Back
  | Digit0 | Digit1 | Digit2 | Digit3 | Digit4 | Digit5 | Digit6 | Digit7 | Digit8 | Digit9
  | DpadUp | DpadDown | DpadLeft | DpadRight | DpadCenter
  | VolumeUp | VolumeDown | Power | Enter | Delete | Search | MediaPlayPause
  | PageUp | PageDown | VolumeMute | ChannelUp | ChannelDown

fun keyCode :: "KeyCode \<Rightarrow> i32" where
  "keyCode KeyUnknown = 0"
| "keyCode Home = 3"
| "keyCode Back = 4"
| "keyCode Digit0 = 7"
| "keyCode Digit1 = 8"
| "keyCode Digit2 = 9"
| "keyCode Digit3 = 10"
| "keyCode Digit4 = 11"
| "keyCode Digit5 = 12"
| "keyCode Digit6 = 13"
| "keyCode Digit7 = 14"
| "keyCode Digit8 = 15"
| "keyCode Digit9 = 16"
| "keyCode DpadUp = 19"
| "keyCode DpadDown = 20"
| "keyCode DpadLeft = 21"
| "keyCode DpadRight = 22"
| "keyCode DpadCenter = 23"
| "keyCode VolumeUp = 24"
| "keyCode VolumeDown = 25"
| "keyCode Power = 26"
| "keyCode Enter = 66"
| "keyCode Delete = 67"
| "keyCode Search = 84"
| "keyCode MediaPlayPause = 85"
| "keyCode PageUp = 92"
| "keyCode PageDown = 93"
| "keyCode VolumeMute = 164"
| "keyCode ChannelUp = 166"
| "keyCode ChannelDown = 167"

text \<open>
  Both enumerations as finite types in the order of the header, so that statements about all their members are evaluated.
\<close>

instantiation Direction :: enum
begin

definition enum_Direction :: "Direction list" where
  "enum_Direction =
     [DirectionUnknown, StartLong, EndLong, Short]"

definition enum_all_Direction :: "(Direction \<Rightarrow> bool) \<Rightarrow> bool" where
  "enum_all_Direction P \<longleftrightarrow> list_all P enum_class.enum"

definition enum_ex_Direction :: "(Direction \<Rightarrow> bool) \<Rightarrow> bool" where
  "enum_ex_Direction P \<longleftrightarrow> list_ex P enum_class.enum"

instance
proof
  show univ: "(UNIV :: Direction set) = set enum_class.enum"
    by (auto simp: enum_Direction_def intro: Direction.exhaust)
  show "distinct (enum_class.enum :: Direction list)"
    by (simp add: enum_Direction_def)
  show "enum_class.enum_all P \<longleftrightarrow> Ball UNIV P" "enum_class.enum_ex P \<longleftrightarrow> Bex UNIV P" for P :: "Direction \<Rightarrow> bool"
    unfolding univ by (simp_all add: enum_all_Direction_def enum_ex_Direction_def list_all_iff list_ex_iff)
qed

end

instantiation KeyCode :: enum
begin

definition enum_KeyCode :: "KeyCode list" where
  "enum_KeyCode =
     [KeyUnknown, Home, Back, Digit0, Digit1, Digit2, Digit3, Digit4, Digit5, Digit6, Digit7, Digit8,
      Digit9, DpadUp, DpadDown, DpadLeft, DpadRight, DpadCenter, VolumeUp, VolumeDown, Power, Enter,
      Delete, Search, MediaPlayPause, PageUp, PageDown, VolumeMute, ChannelUp, ChannelDown]"

definition enum_all_KeyCode :: "(KeyCode \<Rightarrow> bool) \<Rightarrow> bool" where
  "enum_all_KeyCode P \<longleftrightarrow> list_all P enum_class.enum"

definition enum_ex_KeyCode :: "(KeyCode \<Rightarrow> bool) \<Rightarrow> bool" where
  "enum_ex_KeyCode P \<longleftrightarrow> list_ex P enum_class.enum"

instance
proof
  show univ: "(UNIV :: KeyCode set) = set enum_class.enum"
    by (auto simp: enum_KeyCode_def intro: KeyCode.exhaust)
  show "distinct (enum_class.enum :: KeyCode list)"
    by (simp add: enum_KeyCode_def)
  show "enum_class.enum_all P \<longleftrightarrow> Ball UNIV P" "enum_class.enum_ex P \<longleftrightarrow> Bex UNIV P" for P :: "KeyCode \<Rightarrow> bool"
    unfolding univ by (simp_all add: enum_all_KeyCode_def enum_ex_KeyCode_def list_all_iff list_ex_iff)
qed

end

lemma directionCode_inj: "inj directionCode"
proof -
  have "distinct (map directionCode enum_class.enum)"
    by (simp add: enum_Direction_def)
  then show ?thesis
    by (simp add: distinct_map enum_UNIV)
qed

lemma keyCode_inj: "inj keyCode"
proof -
  have "distinct (map keyCode enum_class.enum)"
    by (simp add: enum_KeyCode_def)
  then show ?thesis
    by (simp add: distinct_map enum_UNIV)
qed

record DeviceInfo =
  manufacturer :: string
  model :: string
  softwareVersion :: string

definition emptyDeviceInfo :: DeviceInfo where
  "emptyDeviceInfo = \<lparr>manufacturer = [], model = [], softwareVersion = []\<rparr>"

record VolumeInfo =
  level :: u32
  maximum :: u32
  muted :: bool

definition emptyVolumeInfo :: VolumeInfo where
  "emptyVolumeInfo = \<lparr>level = 0, maximum = 0, muted = False\<rparr>"

record DeviceIdentity =
  dname :: string
  macAddress :: string

definition emptyDeviceIdentity :: DeviceIdentity where
  "emptyDeviceIdentity = \<lparr>dname = [], macAddress = []\<rparr>"

end
