(* ===== verification/Certificate.thy ===== *)
theory Certificate
  imports Remote_Types
begin

text \<open>
  \<^verbatim>\<open>src/certificate.hpp\<close> and \<^verbatim>\<open>src/certificate.cpp\<close>: the pairing secret, the identity read
  from a TV's certificate, the generation of the client certificate and the loading of the
  client identity into a TLS context.

  OpenSSL is a parameter: the record \<^verbatim>\<open>ossl\<close> has one member per library function the
  sources call, as a function of the values the call depends on, with an option or a
  status for what the call reports. Handles (\<^verbatim>\<open>X509*\<close>, \<^verbatim>\<open>EVP_PKEY*\<close>) are numbers, a null
  pointer is \<^const>\<open>None\<close>, the state of a digest context is a type parameter.
\<close>

section \<open>The library functions the sources call\<close>

type_synonym X509 = nat
type_synonym EVP_PKEY = nat
type_synonym BIGNUM = nat

text \<open>The certificate as the code fills it in before it is signed and written.\<close>

record cert_template =
  version :: int
  serialNumber :: int
  notBefore :: int
  notAfter :: int
  publicKey :: EVP_PKEY
  subjectCN :: string
  issuerCN :: string
  extensions :: "(int \<times> string) list"
  signedBy :: "EVP_PKEY option"

record 'md ossl =
  OPENSSL_VERSION_NUMBER :: nat
  ERR_get_error :: nat
  ERR_error_string_n :: "nat \<Rightarrow> string"
  X509_get_pubkey :: "X509 \<Rightarrow> EVP_PKEY option"
  EVP_PKEY_get_bn_param_n :: "EVP_PKEY \<Rightarrow> BIGNUM option"
  EVP_PKEY_get_bn_param_e :: "EVP_PKEY \<Rightarrow> BIGNUM option"
  EVP_PKEY_get1_RSA :: "EVP_PKEY \<Rightarrow> (BIGNUM \<times> BIGNUM) option"
  BN_num_bytes :: "BIGNUM \<Rightarrow> int"
  BN_bn2bin :: "BIGNUM \<Rightarrow> int \<times> bytes"
  EVP_MD_CTX_new :: "'md option"
  EVP_DigestInit_ex :: "'md \<Rightarrow> 'md option"
  EVP_DigestUpdate :: "'md \<Rightarrow> bytes \<Rightarrow> 'md option"
  EVP_DigestFinal_ex :: "'md \<Rightarrow> bytes option"
  NID_commonName :: int
  NID_dnQualifier :: int
  NID_basic_constraints :: int
  NID_subject_alt_name :: int
  X509_NAME_get_index_by_NID :: "X509 \<Rightarrow> int \<Rightarrow> int"
  X509_NAME_get_entry :: "X509 \<Rightarrow> int \<Rightarrow> nat option"
  ASN1_STRING_to_UTF8 :: "nat \<Rightarrow> int \<times> string option"
  EVP_PKEY_CTX_new_id :: bool
  EVP_PKEY_keygen_init :: int
  EVP_PKEY_CTX_set_rsa_keygen_bits :: "int \<Rightarrow> int"
  EVP_PKEY_keygen :: "EVP_PKEY option"
  X509_new :: bool
  X509_set_pubkey :: "EVP_PKEY \<Rightarrow> int"
  X509_NAME_add_entry_by_txt :: "string \<Rightarrow> int"
  X509_set_issuer_name :: "string \<Rightarrow> int"
  X509V3_EXT_conf_nid :: "int \<Rightarrow> string \<Rightarrow> bool"
  X509_add_ext :: "int \<Rightarrow> string \<Rightarrow> int"
  X509_sign :: "EVP_PKEY \<Rightarrow> int"
  BIO_new :: "bool \<times> bool"
  PEM_write_bio_X509 :: "cert_template \<Rightarrow> string option"
  PEM_write_bio_PrivateKey :: "EVP_PKEY \<Rightarrow> string option"
  BIO_new_mem_buf :: "string \<Rightarrow> bool"
  PEM_read_bio_X509 :: "string \<Rightarrow> X509 option"
  PEM_read_bio_PrivateKey :: "string \<Rightarrow> EVP_PKEY option"
  SSL_CTX_use_certificate :: "X509 \<Rightarrow> int"
  SSL_CTX_use_PrivateKey :: "EVP_PKEY \<Rightarrow> int"
  SSL_CTX_check_private_key :: "X509 \<Rightarrow> EVP_PKEY \<Rightarrow> int"

section \<open>Definitions\<close>

definition lastOpenSslError :: "'md ossl \<Rightarrow> string \<Rightarrow> string" where
  "lastOpenSslError os pre =
     (let code = ERR_get_error os
      in if code = 0 then pre else pre @ '': '' @ ERR_error_string_n os code)"

subsection \<open>The pairing code\<close>

definition nibble :: "char \<Rightarrow> (exn, byte) result" where
  "nibble c =
     (let n = (of_char c :: nat) in
      if 48 \<le> n \<and> n \<le> 57 then Inr (word_of_nat (n - 48))
      else if 97 \<le> n \<and> n \<le> 102 then Inr (word_of_nat (10 + n - 97))
      else if 65 \<le> n \<and> n \<le> 70 then Inr (word_of_nat (10 + n - 65))
      else Inl (Invalid_argument ''pairing code is not hexadecimal''))"

text \<open>The loop of \<^verbatim>\<open>hexToBytes\<close>, two characters at a time; the length is even when it is entered.\<close>

fun hexToBytes_loop :: "string \<Rightarrow> (exn, bytes) result" where
  "hexToBytes_loop (a # b # rest) =
     (case nibble a of Inl e \<Rightarrow> Inl e
      | Inr hi \<Rightarrow> (case nibble b of Inl e \<Rightarrow> Inl e
        | Inr lo \<Rightarrow> (case hexToBytes_loop rest of Inl e \<Rightarrow> Inl e
          | Inr out \<Rightarrow> Inr ((push_bit 4 hi OR lo) # out))))"
| "hexToBytes_loop _ = Inr []"

definition hexToBytes :: "string \<Rightarrow> (exn, bytes) result" where
  "hexToBytes hex =
     (if length hex mod 2 \<noteq> 0
      then Inl (Invalid_argument ''hex string must have an even number of characters'')
      else hexToBytes_loop hex)"

subsection \<open>RSA numbers behind thread-local holders\<close>

text \<open>
  \<^verbatim>\<open>rsaNumbers\<close> returns pointers to numbers that its thread-local \<^verbatim>\<open>unique_ptr\<close> holders own: the next call
  frees them. The store maps the addresses of live \<^verbatim>\<open>BIGNUM\<close> objects to their values.
  Since OpenSSL 3 the holders own the two numbers; before, one holder owns an \<^verbatim>\<open>RSA\<close> object, given here by the
  addresses of the two numbers inside it that \<^verbatim>\<open>RSA_get0_key\<close> hands out. The object counts its references: that giving one up
  ends the life of the numbers is the worst case.
\<close>

record bn_store =
  cells :: "nat \<Rightarrow> BIGNUM option"
  fresh :: nat
  nHolder :: "nat option"
  eHolder :: "nat option"
  rsaHolder :: "(nat \<times> nat) option"

definition emptyStore :: bn_store where
  "emptyStore = \<lparr>cells = (\<lambda>_. None), fresh = 0, nHolder = None, eHolder = None, rsaHolder = None\<rparr>"

definition bn_alloc :: "BIGNUM \<Rightarrow> bn_store \<Rightarrow> nat \<times> bn_store" where
  "bn_alloc x s = (fresh s, s\<lparr>cells := (cells s)(fresh s := Some x), fresh := fresh s + 1\<rparr>)"

definition bn_free :: "nat option \<Rightarrow> bn_store \<Rightarrow> bn_store" where
  "bn_free p s = (case p of None \<Rightarrow> s | Some a \<Rightarrow> s\<lparr>cells := (cells s)(a := None)\<rparr>)"

definition rsa_free :: "(nat \<times> nat) option \<Rightarrow> bn_store \<Rightarrow> bn_store" where
  "rsa_free p s = (case p of None \<Rightarrow> s | Some (np, ep) \<Rightarrow> bn_free (Some ep) (bn_free (Some np) s))"

text \<open>The two branches of the conditional compilation.\<close>

definition rsaNumbers_3 :: "'md ossl \<Rightarrow> EVP_PKEY \<Rightarrow> (bn_store, nat \<times> nat) io" where
  "rsaNumbers_3 os key s =
     (let failed = Inl (Runtime_error (lastOpenSslError os ''unable to extract RSA public numbers''))
      in case EVP_PKEY_get_bn_param_n os key of
        None \<Rightarrow> (failed, s)
      | Some n \<Rightarrow>
          (case bn_alloc n s of (np, s) \<Rightarrow>
            (case EVP_PKEY_get_bn_param_e os key of
               None \<Rightarrow> (failed, bn_free (Some np) s)
             | Some e \<Rightarrow>
                 (case bn_alloc e s of (ep, s) \<Rightarrow>
                   let s = (bn_free (nHolder s) s)\<lparr>nHolder := Some np\<rparr>;
                       s = (bn_free (eHolder s) s)\<lparr>eHolder := Some ep\<rparr>
                   in (Inr (np, ep), s)))))"

definition rsaNumbers_1 :: "'md ossl \<Rightarrow> EVP_PKEY \<Rightarrow> (bn_store, nat \<times> nat) io" where
  "rsaNumbers_1 os key s =
     (case EVP_PKEY_get1_RSA os key of
        None \<Rightarrow> (Inl (Runtime_error (lastOpenSslError os ''public key is not RSA'')), s)
      | Some (n, e) \<Rightarrow>
          (case bn_alloc n s of (np, s) \<Rightarrow>
            (case bn_alloc e s of (ep, s) \<Rightarrow>
              (Inr (np, ep), (rsa_free (rsaHolder s) s)\<lparr>rsaHolder := Some (np, ep)\<rparr>))))"

definition rsaNumbers :: "'md ossl \<Rightarrow> X509 \<Rightarrow> (bn_store, nat \<times> nat) io" where
  "rsaNumbers os certificate =
     io_bind (io_some (X509_get_pubkey os certificate)
       (Runtime_error (lastOpenSslError os ''certificate has no public key''))) (\<lambda>key.
     if 0x30000000 \<le> OPENSSL_VERSION_NUMBER os then rsaNumbers_3 os key else rsaNumbers_1 os key)"

definition bnBytes :: "'md ossl \<Rightarrow> nat \<Rightarrow> (bn_store, bytes) io" where
  "bnBytes os p s =
     (case cells s p of
        None \<Rightarrow> (Inl Undefined_behaviour, s)
      | Some val \<Rightarrow>
          (if BN_num_bytes os val \<le> 0 then (Inl (Runtime_error ''RSA public number is empty''), s)
           else case BN_bn2bin os val of
             (written, bs) \<Rightarrow>
               if written \<noteq> BN_num_bytes os val
               then (Inl (Runtime_error (lastOpenSslError os ''BN_bn2bin failed'')), s)
               else (Inr bs, s)))"

subsection \<open>The pairing secret\<close>

text \<open>The local lambda \<^verbatim>\<open>update\<close>.\<close>

definition digest_update :: "'md ossl \<Rightarrow> bytes \<Rightarrow> 'md \<Rightarrow> (bn_store, 'md) io" where
  "digest_update os bs md =
     (if bs = [] then io_return md
      else io_some (EVP_DigestUpdate os md bs)
             (Runtime_error (lastOpenSslError os ''SHA-256 update failed'')))"

definition pairingSecret :: "'md ossl \<Rightarrow> X509 \<Rightarrow> X509 \<Rightarrow> string \<Rightarrow> (bn_store, bytes) io" where
  "pairingSecret os clientCertificate serverCertificate sixHexDigitCode =
     io_bind (io_require (length sixHexDigitCode = 6)
       (Invalid_argument ''pairing code must contain exactly 6 hexadecimal digits'')) (\<lambda>_.
     io_bind (io_lift (hexToBytes sixHexDigitCode)) (\<lambda>codeBytes.
     io_bind (rsaNumbers os clientCertificate) (\<lambda>(clientN, clientE).
     io_bind (bnBytes os clientN) (\<lambda>clientNBytes.
     io_bind (bnBytes os clientE) (\<lambda>clientEBytes.
     io_bind (rsaNumbers os serverCertificate) (\<lambda>(serverN, serverE).
     io_bind (bnBytes os serverN) (\<lambda>serverNBytes.
     io_bind (bnBytes os serverE) (\<lambda>serverEBytes.
     io_bind (io_some (EVP_MD_CTX_new os)
       (Runtime_error (lastOpenSslError os ''failed to allocate SHA-256 context''))) (\<lambda>context.
     io_bind (io_some (EVP_DigestInit_ex os context)
       (Runtime_error (lastOpenSslError os ''SHA-256 initialization failed''))) (\<lambda>md0.
     io_bind (digest_update os clientNBytes md0) (\<lambda>md1.
     io_bind (digest_update os clientEBytes md1) (\<lambda>md2.
     io_bind (digest_update os serverNBytes md2) (\<lambda>md3.
     io_bind (digest_update os serverEBytes md3) (\<lambda>md4.
     io_bind (digest_update os (drop 1 codeBytes) md4) (\<lambda>md5.
     io_bind (io_some (EVP_DigestFinal_ex os md5)
       (Runtime_error (lastOpenSslError os ''SHA-256 finalization failed''))) (\<lambda>digest.
     io_bind (io_require (length digest = 32)
       (Runtime_error (lastOpenSslError os ''SHA-256 finalization failed''))) (\<lambda>_.
     io_bind (io_require (digest ! 0 = codeBytes ! 0)
       (Invalid_argument ''pairing code does not match the TLS certificates'')) (\<lambda>_.
     io_return digest))))))))))))))))))"

subsection \<open>The identity of a TV\<close>


definition nameEntry :: "'md ossl \<Rightarrow> X509 \<Rightarrow> int \<Rightarrow> string" where
  "nameEntry os subject nid =
     (let idx = X509_NAME_get_index_by_NID os subject nid
      in if idx < 0 then []
         else case X509_NAME_get_entry os subject idx of
           None \<Rightarrow> []
         | Some entry \<Rightarrow>
             (case ASN1_STRING_to_UTF8 os entry of
                (len, Some utf8) \<Rightarrow> if len < 0 then [] else take (nat len) utf8
              | (len, None) \<Rightarrow> []))"

text \<open>\<^verbatim>\<open>std::string::find(c, begin)\<close>; \<^const>\<open>None\<close> is \<^verbatim>\<open>npos\<close>.\<close>

definition find_from :: "char \<Rightarrow> string \<Rightarrow> nat \<Rightarrow> nat option" where
  "find_from c s start =
     (let pos = start + length (takeWhile (\<lambda>x. x \<noteq> c) (drop start s))
      in if pos < length s then Some pos else None)"

lemma find_from_Some: "find_from c s start = Some pos \<Longrightarrow> start \<le> pos \<and> pos < length s"
  by (auto simp: find_from_def Let_def split: if_splits)

function splitSlash_loop :: "string \<Rightarrow> nat \<Rightarrow> string list" where
  "splitSlash_loop val start =
     (case find_from CHR ''/'' val start of
        None \<Rightarrow> [drop start val]
      | Some pos \<Rightarrow> take (pos - start) (drop start val) # splitSlash_loop val (pos + 1))"
  by pat_completeness auto
termination
  by (relation "measure (\<lambda>(val, start). length val - start)") (auto dest: find_from_Some)

declare splitSlash_loop.simps [simp del]

definition splitSlash :: "string \<Rightarrow> string list" where
  "splitSlash val = splitSlash_loop val 0"

definition parseDeviceIdentity :: "'md ossl \<Rightarrow> X509 option \<Rightarrow> DeviceIdentity" where
  "parseDeviceIdentity os certificate =
     (case certificate of
        None \<Rightarrow> emptyDeviceIdentity
      | Some subject \<Rightarrow>
          (let commonName = nameEntry os subject (NID_commonName os);
               qualifier = nameEntry os subject (NID_dnQualifier os);
               commonParts = splitSlash commonName;
               qualifierParts = splitSlash qualifier
           in \<lparr>dname =
                 (if qualifier \<noteq> [] \<and> qualifierParts \<noteq> [] then last qualifierParts
                  else if 1 < length commonParts then commonParts ! (length commonParts - 2)
                  else commonName),
               macAddress = (if commonParts \<noteq> [] then last commonParts else [])\<rparr>))"

subsection \<open>Files\<close>

text \<open>
  A path is the list of its components, so that \<^verbatim>\<open>parent_path()\<close> drops the last one. The
  members of the file system that are functions say which operations the operating system
  will refuse: they are parameters of every theorem. An error of writing shows either in the call of
  \<^verbatim>\<open>write\<close> or when the stream's destructor flushes what it has buffered; the number is how many characters have
  reached the file by then.
\<close>

type_synonym path = "string list"

datatype file_node = Regular string | Directory

record filesystem =
  files :: "path \<Rightarrow> file_node option"
  statFails :: "path \<Rightarrow> bool"
  mkdirFails :: "path \<Rightarrow> bool"
  openFails :: "path \<Rightarrow> bool"
  writeFails :: "path \<Rightarrow> nat option"
  flushFails :: "path \<Rightarrow> nat option"

definition parent_path :: "path \<Rightarrow> path" where
  "parent_path p = butlast p"

definition regular :: "filesystem \<Rightarrow> path \<Rightarrow> bool" where
  "regular fs p = (case files fs p of Some (Regular _) \<Rightarrow> True | _ \<Rightarrow> False)"

text \<open>\<^verbatim>\<open>std::filesystem::is_regular_file\<close>, which throws if the status of the file cannot be found out.\<close>

definition is_regular_file :: "path \<Rightarrow> (filesystem, bool) io" where
  "is_regular_file p fs = (if statFails fs p then (Inl Filesystem_error, fs) else (Inr (regular fs p), fs))"

definition prefixes_of :: "path \<Rightarrow> path list" where
  "prefixes_of p = map (\<lambda>n. take (Suc n) p) [0..<length p]"

text \<open>\<^verbatim>\<open>std::filesystem::create_directories\<close> makes the missing ones from the outside in.\<close>

fun create_directories_loop :: "path list \<Rightarrow> (filesystem, unit) io" where
  "create_directories_loop [] fs = (Inr (), fs)"
| "create_directories_loop (q # qs) fs =
     (if statFails fs q then (Inl Filesystem_error, fs)
      else case files fs q of
        Some Directory \<Rightarrow> create_directories_loop qs fs
      | Some (Regular _) \<Rightarrow> (Inl Filesystem_error, fs)
      | None \<Rightarrow>
          if mkdirFails fs q then (Inl Filesystem_error, fs)
          else create_directories_loop qs (fs\<lparr>files := (files fs)(q \<mapsto> Directory)\<rparr>))"

definition create_directories :: "path \<Rightarrow> (filesystem, unit) io" where
  "create_directories p = create_directories_loop (prefixes_of p)"

fun join_slash :: "string list \<Rightarrow> string" where
  "join_slash [] = []"
| "join_slash [p] = p"
| "join_slash (p # ps) = p @ CHR ''/'' # join_slash ps"

definition path_string :: "path \<Rightarrow> string" where
  "path_string p = join_slash p"

text \<open>
  \<^verbatim>\<open>readFile\<close>: what the input stream reads. A directory that the platform lets a stream open
  reads as empty.
\<close>

definition readFile :: "path \<Rightarrow> filesystem \<Rightarrow> (exn, string) result" where
  "readFile p fs =
     (if openFails fs p then Inl (Runtime_error (''unable to open TLS identity file: '' @ path_string p))
      else case files fs p of
        None \<Rightarrow> Inl (Runtime_error (''unable to open TLS identity file: '' @ path_string p))
      | Some Directory \<Rightarrow> Inr []
      | Some (Regular txt) \<Rightarrow> Inr txt)"

text \<open>
  \<^verbatim>\<open>writeBioToFile\<close>: \<open>pem\<close> is the content of the memory BIO. Opening truncates the file, so a
  failing write leaves a part of the data behind. An error when the destructor flushes the stream's buffer is
  reported to nobody.
\<close>

definition flushed :: "filesystem \<Rightarrow> path \<Rightarrow> string \<Rightarrow> string" where
  "flushed fs p pem = (case flushFails fs p of None \<Rightarrow> pem | Some n \<Rightarrow> take n pem)"

definition writeBioToFile :: "'md ossl \<Rightarrow> string \<Rightarrow> path \<Rightarrow> (filesystem, unit) io" where
  "writeBioToFile os pem p fs =
     (if pem = [] then (Inl (Runtime_error (lastOpenSslError os ''failed to retrieve generated PEM data'')), fs)
      else if openFails fs p \<or> files fs p = Some Directory
      then (Inl (Runtime_error (''failed to write TLS identity file: '' @ path_string p)), fs)
      else case writeFails fs p of
        Some n \<Rightarrow> (Inl (Runtime_error (''failed to write TLS identity file: '' @ path_string p)),
            fs\<lparr>files := (files fs)(p := Some (Regular (take n pem)))\<rparr>)
      | None \<Rightarrow> (Inr (), fs\<lparr>files := (files fs)(p := Some (Regular (flushed fs p pem)))\<rparr>))"

subsection \<open>Generating the client certificate\<close>

definition addExtension :: "'md ossl \<Rightarrow> int \<Rightarrow> string \<Rightarrow> cert_template \<Rightarrow> ('s, cert_template) io" where
  "addExtension os nid val certificate =
     io_bind (io_require (X509V3_EXT_conf_nid os nid val)
       (Runtime_error (lastOpenSslError os ''failed to create X.509 extension''))) (\<lambda>_.
     io_bind (io_require (X509_add_ext os nid val = 1)
       (Runtime_error (lastOpenSslError os ''failed to add X.509 extension''))) (\<lambda>_.
     io_return (certificate\<lparr>extensions := extensions certificate @ [(nid, val)]\<rparr>)))"

text \<open>\<^verbatim>\<open>c_str()\<close> handed to a C function that measures it: the characters before the first NUL.\<close>

definition c_str :: "string \<Rightarrow> string" where
  "c_str s = takeWhile (\<lambda>c. c \<noteq> CHR 0x00) s"

text \<open>
  \<^verbatim>\<open>generateCertificateIfMissing\<close> in two parts: what it does with OpenSSL, which ends with the two PEM texts, and
  what it does with the files before and after that.
\<close>

definition issueIdentity :: "'md ossl \<Rightarrow> string \<Rightarrow> ('s, string \<times> string) io" where
  "issueIdentity os commonName =
     io_bind (io_require (EVP_PKEY_CTX_new_id os \<and> 0 < EVP_PKEY_keygen_init os \<and>
                0 < EVP_PKEY_CTX_set_rsa_keygen_bits os 2048)
       (Runtime_error (lastOpenSslError os ''failed to initialize RSA key generation''))) (\<lambda>_.
     io_bind (io_some (EVP_PKEY_keygen os)
       (Runtime_error (lastOpenSslError os ''failed to generate RSA key''))) (\<lambda>key.
     io_bind (io_require (X509_new os)
       (Runtime_error (lastOpenSslError os ''failed to allocate X.509 certificate''))) (\<lambda>_.
     io_bind (io_require (X509_set_pubkey os key = 1)
       (Runtime_error (lastOpenSslError os ''failed to set certificate public key''))) (\<lambda>_.
     (let cn = c_str commonName in
     io_bind (io_require (X509_NAME_add_entry_by_txt os cn = 1 \<and> X509_set_issuer_name os cn = 1)
       (Runtime_error (lastOpenSslError os ''failed to set certificate subject''))) (\<lambda>_.
     (let certificate = \<lparr>version = 2, serialNumber = 1000, notBefore = 0,
            notAfter = 60 * 60 * 24 * 365 * 10, publicKey = key, subjectCN = cn, issuerCN = cn,
            extensions = [], signedBy = None\<rparr> in
     io_bind (addExtension os (NID_basic_constraints os) ''critical,CA:TRUE,pathlen:0'' certificate) (\<lambda>certificate.
     io_bind (addExtension os (NID_subject_alt_name os) (c_str (''DNS:'' @ commonName)) certificate) (\<lambda>certificate.
     io_bind (io_require (0 < X509_sign os key)
       (Runtime_error (lastOpenSslError os ''failed to sign certificate''))) (\<lambda>_.
     (let certificate = certificate\<lparr>signedBy := Some key\<rparr> in
     io_bind (io_require (fst (BIO_new os) \<and> snd (BIO_new os))
       (Runtime_error (lastOpenSslError os ''failed to allocate PEM output BIO''))) (\<lambda>_.
     io_bind (io_some (PEM_write_bio_X509 os certificate)
       (Runtime_error (lastOpenSslError os ''failed to write certificate/key PEM files''))) (\<lambda>certPem.
     io_bind (io_some (PEM_write_bio_PrivateKey os key)
       (Runtime_error (lastOpenSslError os ''failed to write certificate/key PEM files''))) (\<lambda>keyPem.
     io_return (certPem, keyPem)))))))))))))))"

definition generateCertificateIfMissing ::
    "'md ossl \<Rightarrow> path \<Rightarrow> path \<Rightarrow> string \<Rightarrow> (filesystem, bool) io" where
  "generateCertificateIfMissing os certificateFile privateKeyFile commonName =
     io_bind (is_regular_file certificateFile) (\<lambda>c.
     io_bind (if c then is_regular_file privateKeyFile else io_return False) (\<lambda>both.
     if both then io_return False
     else
       io_bind (if parent_path certificateFile \<noteq> []
                then create_directories (parent_path certificateFile) else io_return ()) (\<lambda>_.
       io_bind (if parent_path privateKeyFile \<noteq> []
                then create_directories (parent_path privateKeyFile) else io_return ()) (\<lambda>_.
       io_bind (issueIdentity os commonName) (\<lambda>(certPem, keyPem).
       io_bind (writeBioToFile os certPem certificateFile) (\<lambda>_.
       io_bind (writeBioToFile os keyPem privateKeyFile) (\<lambda>_.
       io_return True)))))))"

subsection \<open>Loading the client identity\<close>

record ssl_context =
  verifyNone :: bool
  ctxCertificate :: "X509 option"
  ctxPrivateKey :: "EVP_PKEY option"

definition newSslContext :: ssl_context where
  "newSslContext = \<lparr>verifyNone = False, ctxCertificate = None, ctxPrivateKey = None\<rparr>"

text \<open>
  \<^verbatim>\<open>loadClientIdentity\<close> works on the context, given by a pointer that must not be null, and only reads the files. The calls that
  install certificate and key take effect one after the other.
\<close>

definition installIdentity :: "'md ossl \<Rightarrow> X509 \<Rightarrow> EVP_PKEY \<Rightarrow> (ssl_context, unit) io" where
  "installIdentity os certificate privateKey ctx =
     (let failed = Runtime_error (lastOpenSslError os ''unable to install TLS certificate/private key'')
      in if SSL_CTX_use_certificate os certificate \<noteq> 1 then (Inl failed, ctx)
         else let ctx1 = ctx\<lparr>ctxCertificate := Some certificate\<rparr>
         in if SSL_CTX_use_PrivateKey os privateKey \<noteq> 1 then (Inl failed, ctx1)
         else let ctx2 = ctx1\<lparr>ctxPrivateKey := Some privateKey\<rparr>
         in if SSL_CTX_check_private_key os certificate privateKey \<noteq> 1 then (Inl failed, ctx2)
         else (Inr (), ctx2))"

definition loadIdentity ::
    "'md ossl \<Rightarrow> filesystem \<Rightarrow> path \<Rightarrow> path \<Rightarrow> (ssl_context, unit) io" where
  "loadIdentity os fs certificateFile privateKeyFile =
     io_bind (io_lift (readFile certificateFile fs)) (\<lambda>certPem.
     io_bind (io_lift (readFile privateKeyFile fs)) (\<lambda>keyPem.
     io_bind (io_require (BIO_new_mem_buf os certPem \<and> BIO_new_mem_buf os keyPem)
       (Runtime_error (lastOpenSslError os ''unable to allocate PEM BIO''))) (\<lambda>_.
     (let failed = Runtime_error (lastOpenSslError os ''unable to parse TLS certificate/private key'') in
     io_bind (io_some (PEM_read_bio_X509 os certPem) failed) (\<lambda>certificate.
     io_bind (io_some (PEM_read_bio_PrivateKey os keyPem) failed) (\<lambda>privateKey.
     installIdentity os certificate privateKey))))))"

definition loadClientIdentity ::
    "'md ossl \<Rightarrow> filesystem \<Rightarrow> path \<Rightarrow> path \<Rightarrow> (ssl_context option, unit) io" where
  "loadClientIdentity os fs certificateFile privateKeyFile context =
     (case context of
        None \<Rightarrow> (Inl (Invalid_argument ''SSL_CTX is null''), None)
      | Some ctx \<Rightarrow> (case loadIdentity os fs certificateFile privateKeyFile ctx of (r, ctx) \<Rightarrow> (r, Some ctx)))"

section \<open>Lemmas on the pairing code\<close>

definition hexUpper :: string where "hexUpper = ''0123456789ABCDEF''"
definition hexLower :: string where "hexLower = ''0123456789abcdef''"

text \<open>A character that writes the digit \<open>n\<close>, in either case.\<close>

definition hexDigit :: "char \<Rightarrow> nat \<Rightarrow> bool" where
  "hexDigit c n \<longleftrightarrow> n < 16 \<and> (c = hexUpper ! n \<or> c = hexLower ! n)"

lemma less_16_cases: "(n::nat) < 16 \<Longrightarrow> n \<in> {0, 1, 2, 3, 4, 5, 6, 7, 8, 9, 10, 11, 12, 13, 14, 15}"
  by (simp; presburger)

lemma nibble_hexDigit: "hexDigit c n \<Longrightarrow> nibble c = Inr (word_of_nat n)"
  unfolding hexDigit_def
  by (elim conjE disjE; drule less_16_cases;
      auto simp: hexUpper_def hexLower_def nibble_def Let_def)

lemma nibbles_to_byte:
  assumes "h < 16" and "l < 16"
  shows "push_bit 4 (word_of_nat h :: byte) OR word_of_nat l = word_of_nat (16 * h + l)"
proof -
  have l: "take_bit 4 l = l"
    using assms(2) by (intro take_bit_nat_eq_self) simp
  have "push_bit 4 (word_of_nat h :: byte) OR word_of_nat l = push_bit 4 (word_of_nat h) + word_of_nat l"
  proof (rule disjunctive_add [symmetric])
    fix n
    show "\<not> bit (push_bit 4 (word_of_nat h :: byte)) n \<or> \<not> bit (word_of_nat l :: byte) n"
    proof (rule disjCI)
      assume "\<not> \<not> bit (word_of_nat l :: byte) n"
      then have "bit l n"
        by (simp add: bit_simps)
      then have "n < 4"
        using l by (metis bit_take_bit_iff)
      then show "\<not> bit (push_bit 4 (word_of_nat h :: byte)) n"
        by (simp add: bit_simps)
    qed
  qed
  then show ?thesis
    by (simp add: push_bit_eq_mult)
qed

lemma hexToBytes_loop_digits:
  assumes "list_all (\<lambda>(a, b, x). hexDigit a (unat x div 16) \<and> hexDigit b (unat (x::byte) mod 16)) ps"
  shows "hexToBytes_loop (concat (map (\<lambda>(a, b, x). [a, b]) ps)) = Inr (map (\<lambda>(a, b, x). x) ps)"
  using assms
proof (induction ps)
  case (Cons p ps)
  obtain a b x where p: "p = (a, b, x)"
    by (cases p) auto
  have "unat x div 16 < 16" and "unat x mod 16 < 16"
    using unsigned_less [of x, where ?'a = nat] by auto
  then have "push_bit 4 (word_of_nat (unat x div 16)) OR word_of_nat (unat x mod 16) = x"
    by (simp add: nibbles_to_byte)
  with Cons p nibble_hexDigit show ?case
    by auto
qed simp

lemma hexToBytes_loop_length: "hexToBytes_loop s = Inr bs \<Longrightarrow> length bs = length s div 2"
  by (induction s arbitrary: bs rule: hexToBytes_loop.induct) (auto split: sum.splits)

lemma hexToBytes_length: "hexToBytes s = Inr bs \<Longrightarrow> length s = 2 * length bs"
  by (auto simp: hexToBytes_def dest!: hexToBytes_loop_length split: if_splits)

lemma hexToBytes_exn: "hexToBytes s = Inl e \<Longrightarrow> \<exists>m. e = Invalid_argument m"
proof -
  have loop: "hexToBytes_loop s = Inl e \<Longrightarrow> \<exists>m. e = Invalid_argument m"
    by (induction s rule: hexToBytes_loop.induct)
       (auto simp: nibble_def Let_def split: sum.splits if_splits)
  assume "hexToBytes s = Inl e"
  with loop show ?thesis
    by (auto simp: hexToBytes_def split: if_splits)
qed

section \<open>Lemmas on the store of RSA numbers\<close>

text \<open>
  The store is well formed when the only live objects are those the holders own and
  addresses are handed out once.
\<close>

definition owned :: "bn_store \<Rightarrow> nat set" where
  "owned s = set_option (nHolder s) \<union> set_option (eHolder s) \<union> (\<Union>(a, b)\<in>set_option (rsaHolder s). {a, b})"

definition store_wf :: "bn_store \<Rightarrow> bool" where
  "store_wf s \<longleftrightarrow> {a. cells s a \<noteq> None} \<subseteq> owned s \<and> owned s \<subseteq> {..<fresh s}"

lemma store_wf_empty: "store_wf emptyStore"
  by (simp add: store_wf_def owned_def emptyStore_def)

text \<open>The public numbers of a key, by whichever of the library's interfaces the program was built for.\<close>

definition rsa_public :: "'md ossl \<Rightarrow> EVP_PKEY \<Rightarrow> (BIGNUM \<times> BIGNUM) option" where
  "rsa_public os key =
     (if 0x30000000 \<le> OPENSSL_VERSION_NUMBER os
      then Option.bind (EVP_PKEY_get_bn_param_n os key) (\<lambda>n.
           Option.bind (EVP_PKEY_get_bn_param_e os key) (\<lambda>e. Some (n, e)))
      else EVP_PKEY_get1_RSA os key)"

lemma bn_free_sel [simp]:
  "cells (bn_free p s) = cells s |` (- set_option p)" "fresh (bn_free p s) = fresh s"
  "nHolder (bn_free p s) = nHolder s" "eHolder (bn_free p s) = eHolder s" "rsaHolder (bn_free p s) = rsaHolder s"
  by (auto simp: bn_free_def restrict_map_def split: option.splits)

lemma rsa_free_sel [simp]:
  "cells (rsa_free p s) = cells s |` (- (\<Union>(a, b)\<in>set_option p. {a, b}))" "fresh (rsa_free p s) = fresh s"
  "nHolder (rsa_free p s) = nHolder s" "eHolder (rsa_free p s) = eHolder s" "rsaHolder (rsa_free p s) = rsaHolder s"
  by (auto simp: rsa_free_def restrict_map_def split: option.splits)

text \<open>Two new numbers take the place of those that are given up.\<close>

lemma store_wf_adopt:
  assumes wf: "store_wf s" and split: "owned s = gone \<union> kept"
    and cells: "cells s' = (cells s |` (- gone))(fresh s \<mapsto> n, Suc (fresh s) \<mapsto> e)"
    and owned: "owned s' = {fresh s, Suc (fresh s)} \<union> kept" and new: "fresh s' = Suc (Suc (fresh s))"
  shows "store_wf s'"
proof -
  have "a \<in> owned s'" if "cells s' a \<noteq> None" for a
    using that wf unfolding cells owned store_wf_def split by (auto simp: restrict_map_def split: if_splits)
  moreover have "a < fresh s'" if "a \<in> owned s'" for a
    using that wf unfolding owned new store_wf_def split by auto
  ultimately show ?thesis
    by (auto simp: store_wf_def)
qed

text \<open>Both branches hand out two live numbers and leave a well-formed store.\<close>

lemma rsaNumbers_3_run:
  assumes "store_wf s" and "EVP_PKEY_get_bn_param_n os key = Some n" and "EVP_PKEY_get_bn_param_e os key = Some e"
  obtains np ep s' where "rsaNumbers_3 os key s = (Inr (np, ep), s')" and "store_wf s'"
    and "cells s' np = Some n" and "cells s' ep = Some e"
proof (rule that)
  let ?s = "snd (rsaNumbers_3 os key s)"
  show run: "rsaNumbers_3 os key s = (Inr (fresh s, Suc (fresh s)), ?s)"
    using assms(2,3) by (simp add: rsaNumbers_3_def bn_alloc_def Let_def)
  let ?gone = "set_option (nHolder s) \<union> set_option (eHolder s)"
  let ?kept = "(\<Union>(a, b)\<in>set_option (rsaHolder s). {a, b})"
  have new: "fresh s \<notin> owned s" "Suc (fresh s) \<notin> owned s"
    using assms(1) by (auto simp: store_wf_def)
  then have cells: "cells ?s = (cells s |` (- ?gone))(fresh s \<mapsto> n, Suc (fresh s) \<mapsto> e)"
    using assms(2,3) by (auto simp: rsaNumbers_3_def bn_alloc_def owned_def restrict_map_def Let_def fun_eq_iff)
  have "owned ?s = {fresh s, Suc (fresh s)} \<union> ?kept" "fresh ?s = Suc (Suc (fresh s))"
    using assms(2,3) by (auto simp: rsaNumbers_3_def bn_alloc_def owned_def Let_def)
  with cells show "store_wf ?s"
    by (intro store_wf_adopt [OF assms(1), of ?gone ?kept]) (auto simp: owned_def)
  from cells show "cells ?s (fresh s) = Some n" and "cells ?s (Suc (fresh s)) = Some e"
    by auto
qed

lemma rsaNumbers_1_run:
  assumes "store_wf s" and "EVP_PKEY_get1_RSA os key = Some (n, e)"
  obtains np ep s' where "rsaNumbers_1 os key s = (Inr (np, ep), s')" and "store_wf s'"
    and "cells s' np = Some n" and "cells s' ep = Some e"
proof (rule that)
  let ?s = "snd (rsaNumbers_1 os key s)"
  show run: "rsaNumbers_1 os key s = (Inr (fresh s, Suc (fresh s)), ?s)"
    using assms(2) by (simp add: rsaNumbers_1_def bn_alloc_def Let_def)
  let ?gone = "(\<Union>(a, b)\<in>set_option (rsaHolder s). {a, b})"
  let ?kept = "set_option (nHolder s) \<union> set_option (eHolder s)"
  have new: "fresh s \<notin> owned s" "Suc (fresh s) \<notin> owned s"
    using assms(1) by (auto simp: store_wf_def)
  then have cells: "cells ?s = (cells s |` (- ?gone))(fresh s \<mapsto> n, Suc (fresh s) \<mapsto> e)"
    using assms(2) by (auto simp: rsaNumbers_1_def bn_alloc_def owned_def restrict_map_def Let_def fun_eq_iff)
  have "owned ?s = {fresh s, Suc (fresh s)} \<union> ?kept" "fresh ?s = Suc (Suc (fresh s))"
    using assms(2) by (auto simp: rsaNumbers_1_def bn_alloc_def owned_def Let_def)
  with cells show "store_wf ?s"
    by (intro store_wf_adopt [OF assms(1), of ?gone ?kept]) (auto simp: owned_def)
  from cells show "cells ?s (fresh s) = Some n" and "cells ?s (Suc (fresh s)) = Some e"
    by auto
qed

lemma rsaNumbers_run:
  assumes "store_wf s" and "X509_get_pubkey os c = Some key" and "rsa_public os key = Some (n, e)"
  obtains np ep s' where "rsaNumbers os c s = (Inr (np, ep), s')" and "store_wf s'"
    and "cells s' np = Some n" and "cells s' ep = Some e"
proof (cases "0x30000000 \<le> OPENSSL_VERSION_NUMBER os")
  case True
  with assms have "EVP_PKEY_get_bn_param_n os key = Some n" and "EVP_PKEY_get_bn_param_e os key = Some e"
    by (auto simp: rsa_public_def bind_eq_Some_conv)
  from rsaNumbers_3_run [OF assms(1) this] show ?thesis
    using that assms(2) True by (auto simp: rsaNumbers_def)
next
  case False
  with assms(3) have "EVP_PKEY_get1_RSA os key = Some (n, e)"
    by (simp add: rsa_public_def)
  from rsaNumbers_1_run [OF assms(1) this] show ?thesis
    using that assms(2) False by (auto simp: rsaNumbers_def)
qed

lemma rsaNumbers_fails:
  assumes "store_wf s" and "\<not> (\<exists>key p. X509_get_pubkey os c = Some key \<and> rsa_public os key = Some p)"
  obtains m s' where "rsaNumbers os c s = (Inl (Runtime_error m), s')" and "store_wf s'"
proof (cases "X509_get_pubkey os c")
  case None
  then show ?thesis
    using that assms(1) by (simp add: rsaNumbers_def io_throw_def)
next
  case (Some key)
  with assms(2) have none: "rsa_public os key = None"
    by (cases "rsa_public os key") auto
  show ?thesis
  proof (cases "0x30000000 \<le> OPENSSL_VERSION_NUMBER os")
    case True
    show ?thesis
    proof (cases "EVP_PKEY_get_bn_param_n os key")
      case (Some n)
      with none True have "EVP_PKEY_get_bn_param_e os key = None"
        by (cases "EVP_PKEY_get_bn_param_e os key") (simp_all add: rsa_public_def)
      moreover have "store_wf (bn_free (Some (fresh s)) (snd (bn_alloc n s)))"
        using assms(1) by (auto simp: store_wf_def owned_def bn_alloc_def restrict_map_def split: if_splits)
      ultimately show ?thesis
        using that \<open>X509_get_pubkey os c = Some key\<close> Some True
        by (simp add: rsaNumbers_def rsaNumbers_3_def bn_alloc_def Let_def)
    qed (use that \<open>X509_get_pubkey os c = Some key\<close> True assms(1) in \<open>simp add: rsaNumbers_def rsaNumbers_3_def\<close>)
  next
    case False
    with none Some show ?thesis
      using that assms(1) by (simp add: rsaNumbers_def rsaNumbers_1_def rsa_public_def)
  qed
qed

lemma rsaNumbers_triple:
  "io_triple store_wf (rsaNumbers os c)
     (\<lambda>p s. store_wf s \<and> cells s (fst p) \<noteq> None \<and> cells s (snd p) \<noteq> None)
     (\<lambda>x s. store_wf s \<and> x \<noteq> Undefined_behaviour)"
proof (cases "\<exists>key p. X509_get_pubkey os c = Some key \<and> rsa_public os key = Some p")
  case True
  then obtain key n e where key: "X509_get_pubkey os c = Some key" "rsa_public os key = Some (n, e)"
    by auto
  show ?thesis
    by (rule io_tripleI; erule rsaNumbers_run [OF _ key]) auto
next
  case False
  show ?thesis
    by (rule io_tripleI; erule rsaNumbers_fails [OF _ False]) auto
qed

lemma bnBytes_triple:
  assumes "\<And>s. P s \<Longrightarrow> cells s p \<noteq> None \<and> E s"
  shows "io_triple P (bnBytes os p)
       (\<lambda>bs s. P s \<and> (\<exists>val. cells s p = Some val \<and> BN_bn2bin os val = (BN_num_bytes os val, bs)))
       (\<lambda>x s. E s \<and> x \<noteq> Undefined_behaviour)"
  using assms
  by (intro io_tripleI)
     (fastforce simp: bnBytes_def split: option.splits prod.splits if_splits)+

text \<open>The hashing half neither touches the store nor follows a pointer.\<close>

lemma digest_update_triple:
  "(\<And>s. P s \<Longrightarrow> E s) \<Longrightarrow> io_triple P (digest_update os bs md)
     (\<lambda>md' s. P s \<and> (if bs = [] then md' = md else EVP_DigestUpdate os md bs = Some md'))
     (\<lambda>x s. E s \<and> x \<noteq> Undefined_behaviour)"
  by (intro io_tripleI)
     (auto simp: digest_update_def io_some_def split: if_splits option.splits)

lemma io_triple_pair:
  "(\<And>a b. io_triple (P (a, b)) (k a b) Q E) \<Longrightarrow> io_triple (P x) (case x of (a, b) \<Rightarrow> k a b) Q E"
  by (cases x) simp

lemma pairingSecret_triple:
  "io_triple store_wf (pairingSecret os c srv code)
     (\<lambda>_. store_wf) (\<lambda>x s. store_wf s \<and> x \<noteq> Undefined_behaviour)"
  unfolding pairingSecret_def
  by (rule io_rules io_triple_pair rsaNumbers_triple bnBytes_triple digest_update_triple
        io_triple_require io_triple_some io_triple_lift rsaNumbers_triple [THEN io_triple_pre]
      | force dest: hexToBytes_exn)+

section \<open>What the pairing secret is\<close>

text \<open>The big-endian bytes of a certificate's RSA modulus and exponent, where there are any.\<close>

definition bn_bytes :: "'md ossl \<Rightarrow> BIGNUM \<Rightarrow> bytes option" where
  "bn_bytes os x = (if 0 < BN_num_bytes os x \<and> fst (BN_bn2bin os x) = BN_num_bytes os x
     then Some (snd (BN_bn2bin os x)) else None)"

definition rsa_bytes :: "'md ossl \<Rightarrow> X509 \<Rightarrow> (bytes \<times> bytes) option" where
  "rsa_bytes os c =
     Option.bind (X509_get_pubkey os c) (\<lambda>key.
     Option.bind (rsa_public os key) (\<lambda>(n, e).
     Option.bind (bn_bytes os n) (\<lambda>nb.
     Option.bind (bn_bytes os e) (\<lambda>eb. Some (nb, eb)))))"

text \<open>
  The documented behaviour of a streaming digest that does not fail: \<open>seen md\<close> are the bytes
  fed to the context so far, \<open>H\<close> is the hash of the whole input.
\<close>

definition digest_streams :: "'md ossl \<Rightarrow> ('md \<Rightarrow> bytes) \<Rightarrow> (bytes \<Rightarrow> bytes) \<Rightarrow> bool" where
  "digest_streams os seen H \<longleftrightarrow>
     (\<exists>ctx md. EVP_MD_CTX_new os = Some ctx \<and> EVP_DigestInit_ex os ctx = Some md \<and> seen md = []) \<and>
     (\<forall>md bs. \<exists>md'. EVP_DigestUpdate os md bs = Some md' \<and> seen md' = seen md @ bs) \<and>
     (\<forall>md. EVP_DigestFinal_ex os md = Some (H (seen md)))"

text \<open>The secret as the protocol describes it, for the numbers of both certificates.\<close>

definition secret_spec ::
    "(bytes \<Rightarrow> bytes) \<Rightarrow> bytes \<times> bytes \<Rightarrow> bytes \<times> bytes \<Rightarrow> string \<Rightarrow> string \<Rightarrow> (exn, bytes) result" where
  "secret_spec H client server final_error code =
     (if length code \<noteq> 6
      then Inl (Invalid_argument ''pairing code must contain exactly 6 hexadecimal digits'')
      else case hexToBytes code of
        Inl e \<Rightarrow> Inl e
      | Inr cb \<Rightarrow>
          (let d = H (fst client @ snd client @ fst server @ snd server @ tl cb) in
           if length d \<noteq> 32 then Inl (Runtime_error final_error)
           else if d ! 0 \<noteq> cb ! 0
           then Inl (Invalid_argument ''pairing code does not match the TLS certificates'')
           else Inr d))"

lemma io_bind_run: "m s = (Inr x, s') \<Longrightarrow> io_bind m k s = k x s'"
  by (simp add: io_bind_def)

lemma bnBytes_run: "cells s p = Some x \<Longrightarrow> bn_bytes os x = Some bs \<Longrightarrow> bnBytes os p s = (Inr bs, s)"
  by (auto simp: bnBytes_def bn_bytes_def split: if_splits prod.splits)

lemma rsa_bytes_Some:
  "rsa_bytes os c = Some (nb, eb) \<longleftrightarrow>
     (\<exists>key n e. X509_get_pubkey os c = Some key \<and> rsa_public os key = Some (n, e) \<and>
        bn_bytes os n = Some nb \<and> bn_bytes os e = Some eb)"
  by (auto simp: rsa_bytes_def bind_eq_Some_conv)

text \<open>Reading one certificate's numbers: both pointers are alive until the next extraction.\<close>

lemma rsa_read:
  assumes "store_wf s" and "rsa_bytes os c = Some (nb, eb)"
  obtains s' where "store_wf s'"
    and "\<And>k. io_bind (rsaNumbers os c) (\<lambda>(np, ep). io_bind (bnBytes os np) (\<lambda>x.
           io_bind (bnBytes os ep) (k x))) s = k nb eb s'"
proof -
  from assms(2) obtain key n e where *: "X509_get_pubkey os c = Some key" "rsa_public os key = Some (n, e)"
    and bs: "bn_bytes os n = Some nb" "bn_bytes os e = Some eb"
    by (auto simp: rsa_bytes_Some)
  obtain np ep s' where "rsaNumbers os c s = (Inr (np, ep), s')" "store_wf s'" "cells s' np = Some n" "cells s' ep = Some e"
    by (rule rsaNumbers_run [OF assms(1) *])
  with bs show thesis
    by (intro that [of s']) (auto simp: io_bind_def bnBytes_run)
qed

lemma digest_update_run:
  assumes "digest_streams os seen H"
  obtains md' where "digest_update os bs md = io_return md'" and "seen md' = seen md @ bs"
proof (cases "bs = []")
  case True
  then show ?thesis
    using that [of md] by (simp add: digest_update_def)
next
  case False
  from assms obtain md' where "EVP_DigestUpdate os md bs = Some md'" and "seen md' = seen md @ bs"
    unfolding digest_streams_def by blast
  with False show ?thesis
    using that [of md'] by (simp add: digest_update_def)
qed

text \<open>Feeding a list of buffers one after the other hashes their concatenation.\<close>

lemma digest_five_run:
  assumes "digest_streams os seen H"
  shows "\<exists>md'. seen md' = seen md @ a @ b @ c @ d @ e \<and>
     (\<forall>k. io_bind (digest_update os a md) (\<lambda>md1. io_bind (digest_update os b md1) (\<lambda>md2.
        io_bind (digest_update os c md2) (\<lambda>md3. io_bind (digest_update os d md3) (\<lambda>md4.
        io_bind (digest_update os e md4) k)))) = k md')"
proof -
  note step = digest_update_run [OF assms]
  obtain m1 where 1: "digest_update os a md = io_return m1" "seen m1 = seen md @ a" by (rule step)
  obtain m2 where 2: "digest_update os b m1 = io_return m2" "seen m2 = seen m1 @ b" by (rule step)
  obtain m3 where 3: "digest_update os c m2 = io_return m3" "seen m3 = seen m2 @ c" by (rule step)
  obtain m4 where 4: "digest_update os d m3 = io_return m4" "seen m4 = seen m3 @ d" by (rule step)
  obtain m5 where 5: "digest_update os e m4 = io_return m5" "seen m5 = seen m4 @ e" by (rule step)
  from 1 2 3 4 5 show ?thesis
    by (intro exI [of _ m5]) simp
qed

text \<open>
  (C7) For a digest that works and certificates that have RSA numbers, \<open>pairingSecret\<close> is
  exactly the secret of the protocol: the code must be six hexadecimal digits, the digest is
  taken over client modulus, client exponent, server modulus, server exponent and the last
  two bytes of the code, and its first byte must be the first byte of the code. Every
  error is the one the specification names.
\<close>

theorem pairingSecret_refines_spec:
  assumes "store_wf s" and "digest_streams os seen H"
    and "rsa_bytes os c = Some client" and "rsa_bytes os srv = Some server"
  shows "fst (pairingSecret os c srv code s) =
     secret_spec H client server (lastOpenSslError os ''SHA-256 finalization failed'') code"
proof (cases "length code = 6")
  case True
  show ?thesis
  proof (cases "hexToBytes code")
    case (Inr cb)
    have d: "drop 1 cb = tl cb"
      by (simp add: drop_Suc)
    obtain cn ce sn se where split: "client = (cn, ce)" "server = (sn, se)"
      by (cases client; cases server)
    obtain s1 where s1: "store_wf s1" and r1: "\<And>k :: bytes \<Rightarrow> bytes \<Rightarrow> (bn_store, bytes) io. io_bind (rsaNumbers os c) (\<lambda>(np, ep).
        io_bind (bnBytes os np) (\<lambda>x. io_bind (bnBytes os ep) (k x))) s = k cn ce s1"
      using rsa_read assms(1,3) unfolding split by metis
    obtain s2 where r2: "\<And>k :: bytes \<Rightarrow> bytes \<Rightarrow> (bn_store, bytes) io. io_bind (rsaNumbers os srv) (\<lambda>(np, ep).
        io_bind (bnBytes os np) (\<lambda>x. io_bind (bnBytes os ep) (k x))) s1 = k sn se s2"
      using rsa_read s1 assms(4) unfolding split by metis
    obtain ctx md0 where md0: "EVP_MD_CTX_new os = Some ctx" "EVP_DigestInit_ex os ctx = Some md0" "seen md0 = []"
      and fin: "\<And>md. EVP_DigestFinal_ex os md = Some (H (seen md))"
      using assms(2) unfolding digest_streams_def by blast
    obtain md5 where "seen md5 = seen md0 @ cn @ ce @ sn @ se @ tl cb"
      and upd: "\<And>k :: _ \<Rightarrow> (bn_store, bytes) io. io_bind (digest_update os cn md0) (\<lambda>md1. io_bind (digest_update os ce md1) (\<lambda>md2.
        io_bind (digest_update os sn md2) (\<lambda>md3. io_bind (digest_update os se md3) (\<lambda>md4.
        io_bind (digest_update os (tl cb) md4) k)))) = k md5"
      using digest_five_run [OF assms(2)] by metis
    with md0 have "H (seen md5) = H (cn @ ce @ sn @ se @ tl cb)"
      by simp
    with True Inr d show ?thesis
      by (simp add: pairingSecret_def r1 r2 md0 upd fin secret_spec_def split Let_def
          io_require_def io_return_def io_throw_def)
  qed (use True in \<open>simp add: pairingSecret_def secret_spec_def io_throw_def\<close>)
qed (simp add: pairingSecret_def secret_spec_def io_throw_def)

section \<open>A concrete instance of the library functions\<close>

text \<open>
  An instance for the witnesses: certificates and keys are numbered, the digest adds the bytes
  up, PEM is a tag and a number. Every call succeeds.
\<close>

definition be_bytes :: "nat \<Rightarrow> bytes" where
  "be_bytes n = dropWhile (\<lambda>b. b = 0) [word_of_nat (n div 65536), word_of_nat (n div 256), word_of_nat n]"

definition sample_digest :: "bytes \<Rightarrow> bytes" where
  "sample_digest bs = sum_list bs # replicate 31 0"

definition sample_pem :: "char \<Rightarrow> nat \<Rightarrow> string" where
  "sample_pem tag n = [tag, char_of n]"

definition sample_unpem :: "char \<Rightarrow> string \<Rightarrow> nat option" where
  "sample_unpem tag s = (case s of [t, c] \<Rightarrow> if t = tag then Some (of_char c) else None | _ \<Rightarrow> None)"

definition sample_ossl :: "bytes ossl" where
  "sample_ossl = \<lparr>OPENSSL_VERSION_NUMBER = 0x30000000, ERR_get_error = 0, ERR_error_string_n = (\<lambda>_. []),
     X509_get_pubkey = Some, EVP_PKEY_get_bn_param_n = (\<lambda>k. Some (256 + k)),
     EVP_PKEY_get_bn_param_e = (\<lambda>_. Some 65537),
     EVP_PKEY_get1_RSA = (\<lambda>k. Some (256 + k, 65537)),
     BN_num_bytes = (\<lambda>x. int (length (be_bytes x))),
     BN_bn2bin = (\<lambda>x. (int (length (be_bytes x)), be_bytes x)),
     EVP_MD_CTX_new = Some [], EVP_DigestInit_ex = (\<lambda>_. Some []),
     EVP_DigestUpdate = (\<lambda>md bs. Some (md @ bs)),
     EVP_DigestFinal_ex = (\<lambda>md. Some (sample_digest md)),
     NID_commonName = 13, NID_dnQualifier = 174, NID_basic_constraints = 87,
     NID_subject_alt_name = 85,
     X509_NAME_get_index_by_NID = (\<lambda>_ nid. if nid = 13 then 0 else -1),
     X509_NAME_get_entry = (\<lambda>_ i. if i = 0 then Some 0 else None),
     ASN1_STRING_to_UTF8 = (\<lambda>_. (18, Some ''atvremote/TV/AA:BB'')),
     EVP_PKEY_CTX_new_id = True, EVP_PKEY_keygen_init = 1,
     EVP_PKEY_CTX_set_rsa_keygen_bits = (\<lambda>_. 1), EVP_PKEY_keygen = Some 7,
     X509_new = True, X509_set_pubkey = (\<lambda>_. 1), X509_NAME_add_entry_by_txt = (\<lambda>_. 1),
     X509_set_issuer_name = (\<lambda>_. 1), X509V3_EXT_conf_nid = (\<lambda>_ _. True),
     X509_add_ext = (\<lambda>_ _. 1), X509_sign = (\<lambda>_. 256), BIO_new = (True, True),
     PEM_write_bio_X509 = (\<lambda>c. Some (sample_pem CHR ''C'' (publicKey c))),
     PEM_write_bio_PrivateKey = (\<lambda>k. Some (sample_pem CHR ''K'' k)),
     BIO_new_mem_buf = (\<lambda>_. True),
     PEM_read_bio_X509 = sample_unpem CHR ''C'', PEM_read_bio_PrivateKey = sample_unpem CHR ''K'',
     SSL_CTX_use_certificate = (\<lambda>_. 1), SSL_CTX_use_PrivateKey = (\<lambda>_. 1),
     SSL_CTX_check_private_key = (\<lambda>c k. if c = k then 1 else 0)\<rparr>"

lemma sample_streams: "digest_streams sample_ossl id sample_digest"
  by (simp add: digest_streams_def sample_ossl_def)

theorem pairingSecret_refines_spec_witness:
  "fst (pairingSecret sample_ossl 1 2 ''A7c0De'' emptyStore) = Inr (0xA7 # replicate 31 0)"
proof -
  have "rsa_bytes sample_ossl 1 = Some ([1, 1], [1, 0, 1])" and "rsa_bytes sample_ossl 2 = Some ([1, 2], [1, 0, 1])"
    by (simp_all add: rsa_bytes_def rsa_public_def bn_bytes_def sample_ossl_def be_bytes_def)
  from pairingSecret_refines_spec [OF store_wf_empty sample_streams this]
  have "fst (pairingSecret sample_ossl 1 2 ''A7c0De'' emptyStore) =
      secret_spec sample_digest ([1, 1], [1, 0, 1]) ([1, 2], [1, 0, 1]) ''SHA-256 finalization failed'' ''A7c0De''"
    by (simp add: lastOpenSslError_def sample_ossl_def)
  also have "\<dots> = Inr (0xA7 # replicate 31 0)"
    by code_simp
  finally show ?thesis .
qed

text \<open>
  (C22) \<open>pairingSecret\<close> never follows a dangling pointer, whatever OpenSSL reports: although
  \<open>rsaNumbers\<close> frees the numbers of the previous call, every number is copied before the next
  extraction. No object leaks: the two holders own all that is alive afterwards.
\<close>

theorem pairingSecret_memory_safe:
  assumes "store_wf s" and "pairingSecret os c srv code s = (r, s')"
  shows "r \<noteq> Inl Undefined_behaviour \<and> store_wf s'"
  using io_tripleD [OF pairingSecret_triple [of os c srv code] assms(1)] assms(2) by (cases r) auto

theorem pairingSecret_memory_safe_witness:
  "fst (pairingSecret sample_ossl 1 2 ''A7C0DE'' emptyStore) \<noteq> Inl Undefined_behaviour \<and>
   store_wf (snd (pairingSecret sample_ossl 1 2 ''A7C0DE'' emptyStore))"
  by (rule pairingSecret_memory_safe [OF store_wf_empty]) (simp only: prod.collapse)

text \<open>
  The pairing code is read in either case of its digits: writing each byte with two
  hexadecimal digits and reading the text back gives the bytes.
\<close>

lemma hexToBytes_reads_digits:
  assumes "list_all (\<lambda>(a, b, x). hexDigit a (unat x div 16) \<and> hexDigit b (unat (x::byte) mod 16)) ps"
  shows "hexToBytes (concat (map (\<lambda>(a, b, x). [a, b]) ps)) = Inr (map (\<lambda>(a, b, x). x) ps)"
proof -
  have "length (concat (map (\<lambda>(a, b, x). [a, b]) ps)) = 2 * length ps"
    by (induction ps) auto
  with hexToBytes_loop_digits [OF assms] show ?thesis
    by (simp add: hexToBytes_def)
qed

text \<open>The converse: a character that \<open>nibble\<close> accepts is a hexadecimal digit.\<close>

lemma interval_cases: "a \<le> b \<Longrightarrow> n \<in> {a..b} \<longleftrightarrow> n = a \<or> n \<in> {Suc a..b}"
  by auto

lemma char_eq_char_of: "of_char ch = (n::nat) \<Longrightarrow> ch = char_of n"
  by auto

lemma decimal_digit: "of_char ch \<in> {48 :: nat..57} \<Longrightarrow> hexDigit ch (of_char ch - 48)"
  by (simp add: interval_cases del: atLeastAtMost_iff)
     (elim disjE; drule char_eq_char_of; simp add: hexDigit_def hexUpper_def char_of_def bit_0)

lemma lower_digit: "of_char ch \<in> {97 :: nat..102} \<Longrightarrow> hexDigit ch (of_char ch - 87)"
  by (simp add: interval_cases del: atLeastAtMost_iff)
     (elim disjE; drule char_eq_char_of; simp add: hexDigit_def hexLower_def char_of_def bit_0)

lemma upper_digit: "of_char ch \<in> {65 :: nat..70} \<Longrightarrow> hexDigit ch (of_char ch - 55)"
  by (simp add: interval_cases del: atLeastAtMost_iff)
     (elim disjE; drule char_eq_char_of; simp add: hexDigit_def hexUpper_def char_of_def bit_0)

lemma nibble_digit:
  assumes "nibble ch = Inr x"
  shows "\<exists>n. hexDigit ch n"
proof -
  from assms consider "of_char ch \<in> {48 :: nat..57}" | "of_char ch \<in> {97 :: nat..102}" | "of_char ch \<in> {65 :: nat..70}"
    by (auto simp: nibble_def Let_def split: if_splits)
  then show ?thesis
    by cases (blast dest: decimal_digit lower_digit upper_digit)+
qed

lemma hexToBytes_digits: "hexToBytes s = Inr bs \<Longrightarrow> ch \<in> set s \<Longrightarrow> \<exists>n. hexDigit ch n"
proof -
  have "hexToBytes_loop s = Inr bs \<Longrightarrow> even (length s) \<Longrightarrow> ch \<in> set s \<Longrightarrow> \<exists>n. hexDigit ch n"
    by (induction s arbitrary: bs rule: hexToBytes_loop.induct)
       (auto split: sum.splits dest: nibble_digit)
  then show "hexToBytes s = Inr bs \<Longrightarrow> ch \<in> set s \<Longrightarrow> \<exists>n. hexDigit ch n"
    by (auto simp: hexToBytes_def even_iff_mod_2_eq_zero split: if_splits)
qed

text \<open>
  (C34) A code that is not six hexadecimal digits is refused as an invalid argument before
  either certificate is read: the store of RSA numbers is untouched.
\<close>

theorem pairingSecret_rejects_malformed:
  assumes "length code \<noteq> 6 \<or> (\<exists>ch\<in>set code. \<forall>n. \<not> hexDigit ch n)"
  shows "\<exists>m. pairingSecret os c srv code s = (Inl (Invalid_argument m), s)"
proof (cases "length code = 6")
  case True
  then obtain e where "hexToBytes code = Inl e"
    using assms hexToBytes_digits by (cases "hexToBytes code") blast+
  with True hexToBytes_exn show ?thesis
    by (fastforce simp: pairingSecret_def io_throw_def)
qed (simp add: pairingSecret_def io_throw_def)

theorem pairingSecret_rejects_malformed_witness:
  "\<exists>m. pairingSecret sample_ossl 1 2 ''A7C0D'' emptyStore = (Inl (Invalid_argument m), emptyStore)"
  by (rule pairingSecret_rejects_malformed) simp

section \<open>Splitting names\<close>

lemma find_from_here: "c \<notin> set p \<Longrightarrow> find_from c (pre @ p @ c # r) (length pre) = Some (length pre + length p)"
proof -
  assume "c \<notin> set p"
  then have "takeWhile (\<lambda>x. x \<noteq> c) (p @ c # r) = p"
    by (induction p) auto
  then show ?thesis
    by (simp add: find_from_def)
qed

lemma find_from_none: "c \<notin> set p \<Longrightarrow> find_from c (pre @ p) (length pre) = None"
proof -
  assume "c \<notin> set p"
  then have "length (takeWhile (\<lambda>x. x \<noteq> c) p) = length p"
    by (induction p) auto
  then show ?thesis
    by (simp add: find_from_def)
qed

lemma splitSlash_loop_join:
  "ps \<noteq> [] \<Longrightarrow> \<forall>p\<in>set ps. CHR ''/'' \<notin> set p \<Longrightarrow> splitSlash_loop (pre @ join_slash ps) (length pre) = ps"
proof (induction ps arbitrary: pre rule: join_slash.induct)
  case (2 p)
  then show ?case
    by (subst splitSlash_loop.simps) (simp add: find_from_none)
next
  case (3 p q ps)
  have "splitSlash_loop (pre @ p @ CHR ''/'' # join_slash (q # ps)) (length pre) =
      p # splitSlash_loop ((pre @ p @ ''/'') @ join_slash (q # ps)) (length (pre @ p @ ''/''))"
    using 3(3) by (subst splitSlash_loop.simps) (simp add: find_from_here)
  also have "\<dots> = p # q # ps"
    using 3 by (subst "3.IH") auto
  finally show ?case
    by simp
qed simp

lemma join_slash_surj: "\<exists>ps. ps \<noteq> [] \<and> (\<forall>p\<in>set ps. CHR ''/'' \<notin> set p) \<and> join_slash ps = s"
proof (induction s)
  case Nil
  show ?case
    by (rule exI [of _ "[[]]"]) simp
next
  case (Cons c s)
  then obtain p ps where ps: "\<forall>p\<in>set (p # ps). CHR ''/'' \<notin> set p" "join_slash (p # ps) = s"
    by (metis neq_Nil_conv)
  show ?case
  proof (cases "c = CHR ''/''")
    case True
    with ps show ?thesis
      by (intro exI [of _ "[] # p # ps"]) auto
  next
    case False
    with ps show ?thesis
      by (intro exI [of _ "(c # p) # ps"]) (cases ps; auto)
  qed
qed

lemma splitSlash_join:
  "ps \<noteq> [] \<Longrightarrow> \<forall>p\<in>set ps. CHR ''/'' \<notin> set p \<Longrightarrow> splitSlash (join_slash ps) = ps"
  using splitSlash_loop_join [of ps "[]"] by (simp add: splitSlash_def)

text \<open>
  \<open>splitSlash\<close> inverts joining with slashes in both directions: the parts of a joined
  name are found again, and any name is the join of its parts, none of which has a slash.
\<close>

lemma splitSlash_inverts_join:
  "(\<forall>ps. ps \<noteq> [] \<longrightarrow> (\<forall>p\<in>set ps. CHR ''/'' \<notin> set p) \<longrightarrow> splitSlash (join_slash ps) = ps) \<and>
   join_slash (splitSlash s) = s \<and> splitSlash s \<noteq> [] \<and> (\<forall>p\<in>set (splitSlash s). CHR ''/'' \<notin> set p)"
proof -
  obtain ps where "ps \<noteq> []" "\<forall>p\<in>set ps. CHR ''/'' \<notin> set p" "join_slash ps = s"
    using join_slash_surj by blast
  with splitSlash_join show ?thesis
    by auto
qed

text \<open>
  (C35) The identity of a TV: the MAC address is the last part of the common name; the name
  is the last part of the distinguished name qualifier if there is one, else the part before the MAC
  address, else the common name itself.
\<close>

theorem parseDeviceIdentity_parts:
  assumes "nameEntry os c (NID_commonName os) = join_slash cn" and "cn \<noteq> []"
    and "\<forall>p\<in>set cn. CHR ''/'' \<notin> set p"
    and "nameEntry os c (NID_dnQualifier os) = join_slash q" and "q \<noteq> []"
    and "\<forall>p\<in>set q. CHR ''/'' \<notin> set p"
  shows "parseDeviceIdentity os (Some c) =
     \<lparr>dname = (if q \<noteq> [[]] then last q else if butlast cn \<noteq> [] then last (butlast cn) else hd cn),
      macAddress = last cn\<rparr>"
proof -
  have "join_slash q = [] \<longleftrightarrow> q = [[]]"
    using assms(5) by (cases q rule: join_slash.cases) auto
  moreover have "butlast cn \<noteq> [] \<Longrightarrow> cn ! (length cn - 2) = last (butlast cn)"
    by (cases cn rule: rev_cases) (auto simp: last_conv_nth nth_append numeral_2_eq_2)
  moreover have "butlast cn \<noteq> [] \<longleftrightarrow> Suc 0 < length cn"
    using assms(2) by (cases cn rule: join_slash.cases) auto
  moreover have "butlast cn = [] \<Longrightarrow> join_slash cn = hd cn"
    using assms(2) by (cases cn rule: join_slash.cases) (auto split: if_splits)
  ultimately show ?thesis
    using assms splitSlash_join [of cn] splitSlash_join [of q]
    by (auto simp: parseDeviceIdentity_def Let_def)
qed

theorem parseDeviceIdentity_parts_witness:
  "parseDeviceIdentity sample_ossl (Some 2) = \<lparr>dname = ''TV'', macAddress = ''AA:BB''\<rparr>"
  by (subst parseDeviceIdentity_parts [of _ _ "[''atvremote'', ''TV'', ''AA:BB'']" "[[]]"])
     (simp_all add: nameEntry_def sample_ossl_def)

section \<open>Generating and loading the identity\<close>

text \<open>Making directories adds directories and changes nothing else.\<close>

definition only_adds_directories :: "filesystem \<Rightarrow> filesystem \<Rightarrow> bool" where
  "only_adds_directories fs fs' \<longleftrightarrow>
     (\<forall>q. files fs' q = files fs q \<or> files fs q = None \<and> files fs' q = Some Directory) \<and>
     (\<exists>f. fs' = fs\<lparr>files := f\<rparr>)"

lemma only_adds_directories_refl [simp]: "only_adds_directories fs fs"
  by (auto simp: only_adds_directories_def intro!: exI [of _ "files fs"])

lemma only_adds_directories_trans:
  "only_adds_directories a b \<Longrightarrow> only_adds_directories b c \<Longrightarrow> only_adds_directories a c"
  unfolding only_adds_directories_def by (auto; metis)

lemma create_directories_adds:
  "create_directories p fs = (r, fs') \<Longrightarrow> only_adds_directories fs fs'"
proof -
  have "create_directories_loop qs fs = (r, fs') \<Longrightarrow> only_adds_directories fs fs'" for qs
  proof (induction qs fs rule: create_directories_loop.induct)
    case (2 q qs fs)
    have "files fs q = None \<Longrightarrow> only_adds_directories fs (fs\<lparr>files := (files fs)(q \<mapsto> Directory)\<rparr>)"
      by (auto simp: only_adds_directories_def)
    with 2 show ?case
      by (auto split: option.splits file_node.splits if_splits intro: only_adds_directories_trans)
  qed simp
  then show "create_directories p fs = (r, fs') \<Longrightarrow> only_adds_directories fs fs'"
    by (simp add: create_directories_def)
qed

text \<open>The certificate the code issues: version 3, self-issued and self-signed for ten years.\<close>

definition client_certificate :: "'md ossl \<Rightarrow> EVP_PKEY \<Rightarrow> string \<Rightarrow> cert_template" where
  "client_certificate os key commonName =
     \<lparr>version = 2, serialNumber = 1000, notBefore = 0, notAfter = 315360000, publicKey = key,
      subjectCN = c_str commonName, issuerCN = c_str commonName,
      extensions = [(NID_basic_constraints os, ''critical,CA:TRUE,pathlen:0''),
        (NID_subject_alt_name os, c_str (''DNS:'' @ commonName))],
      signedBy = Some key\<rparr>"

lemma writeBioToFile_Inr:
  "writeBioToFile os pem p fs = (Inr u, fs') \<longleftrightarrow>
     pem \<noteq> [] \<and> \<not> openFails fs p \<and> files fs p \<noteq> Some Directory \<and> writeFails fs p = None \<and>
     fs' = fs\<lparr>files := (files fs)(p \<mapsto> Regular (flushed fs p pem))\<rparr>"
  by (auto simp: writeBioToFile_def split: option.splits)

lemma addExtension_Inr:
  "addExtension os nid v c fs = (Inr c', fs') \<longleftrightarrow>
     X509V3_EXT_conf_nid os nid v \<and> X509_add_ext os nid v = 1 \<and> c' = c\<lparr>extensions := extensions c @ [(nid, v)]\<rparr> \<and> fs' = fs"
  by (auto simp: addExtension_def io_bind_Inr_iff)

text \<open>What OpenSSL was asked for does not depend on the files, and leaves them alone.\<close>

lemma issueIdentity_Inr:
  assumes "issueIdentity os cn s = (Inr (certPem, keyPem), s')"
  obtains key where "EVP_PKEY_keygen os = Some key" and "s' = s"
    and "PEM_write_bio_X509 os (client_certificate os key cn) = Some certPem"
    and "PEM_write_bio_PrivateKey os key = Some keyPem"
    and "issueIdentity os cn t = (Inr (certPem, keyPem), t)"
  using assms
  by (auto simp: issueIdentity_def io_bind_Inr_iff addExtension_Inr Let_def client_certificate_def)

lemma is_regular_file_Inr:
  "is_regular_file p fs = (Inr b, fs') \<longleftrightarrow> \<not> statFails fs p \<and> b = regular fs p \<and> fs' = fs"
  by (auto simp: is_regular_file_def)

text \<open>The two questions about the files, and the part that runs when one of them is missing.\<close>

definition make_parent :: "path \<Rightarrow> (filesystem, unit) io" where
  "make_parent p = (if parent_path p \<noteq> [] then create_directories (parent_path p) else io_return ())"

lemma make_parent_adds: "make_parent p fs = (r, fs') \<Longrightarrow> only_adds_directories fs fs'"
  by (auto simp: make_parent_def io_return_def dest: create_directories_adds split: if_splits)

definition new_identity :: "'md ossl \<Rightarrow> path \<Rightarrow> path \<Rightarrow> string \<Rightarrow> (filesystem, bool) io" where
  "new_identity os cf kf cn =
     io_bind (make_parent cf) (\<lambda>_. io_bind (make_parent kf) (\<lambda>_. io_bind (issueIdentity os cn) (\<lambda>(certPem, keyPem).
     io_bind (writeBioToFile os certPem cf) (\<lambda>_. io_bind (writeBioToFile os keyPem kf) (\<lambda>_. io_return True)))))"

lemma generate_eq:
  "generateCertificateIfMissing os cf kf cn fs =
     (if statFails fs cf \<or> regular fs cf \<and> statFails fs kf then (Inl Filesystem_error, fs)
      else if regular fs cf \<and> regular fs kf then (Inr False, fs)
      else new_identity os cf kf cn fs)"
proof -
  have reg: "io_bind (is_regular_file p) k fs = (if statFails fs p then (Inl Filesystem_error, fs) else k (regular fs p) fs)"
    for p and k :: "bool \<Rightarrow> (filesystem, bool) io"
    by (simp add: io_bind_def is_regular_file_def)
  show ?thesis
    unfolding generateCertificateIfMissing_def reg make_parent_def [symmetric] new_identity_def [symmetric]
    by (cases "regular fs cf") (simp_all add: reg io_return_def)
qed

lemma new_identity_Inr:
  "new_identity os cf kf cn fs = (Inr b, fs') \<longleftrightarrow> b \<and>
     (\<exists>fs1 fs2 fs3 fs4 certPem keyPem.
        make_parent cf fs = (Inr (), fs1) \<and> make_parent kf fs1 = (Inr (), fs2) \<and>
        issueIdentity os cn fs2 = (Inr (certPem, keyPem), fs3) \<and>
        writeBioToFile os certPem cf fs3 = (Inr (), fs4) \<and> writeBioToFile os keyPem kf fs4 = (Inr (), fs'))"
  unfolding new_identity_def io_bind_Inr_iff split_paired_Ex prod.case by auto

lemma new_identity_files:
  assumes "new_identity os cf kf cn fs = (Inr b, fs')"
  obtains key certPem keyPem fs2 where "b" and "EVP_PKEY_keygen os = Some key"
    and "PEM_write_bio_X509 os (client_certificate os key cn) = Some certPem"
    and "PEM_write_bio_PrivateKey os key = Some keyPem"
    and "only_adds_directories fs fs2"
    and "fs' = fs2\<lparr>files := (files fs2)(cf \<mapsto> Regular (flushed fs cf certPem), kf \<mapsto> Regular (flushed fs kf keyPem))\<rparr>"
proof -
  from assms obtain fs1 fs2 fs3 fs4 certPem keyPem where b: "b"
    and dirs: "make_parent cf fs = (Inr (), fs1)" "make_parent kf fs1 = (Inr (), fs2)"
    and issue: "issueIdentity os cn fs2 = (Inr (certPem, keyPem), fs3)"
    and wr: "writeBioToFile os certPem cf fs3 = (Inr (), fs4)" "writeBioToFile os keyPem kf fs4 = (Inr (), fs')"
    unfolding new_identity_Inr by blast
  obtain key where key: "EVP_PKEY_keygen os = Some key" "fs3 = fs2"
    "PEM_write_bio_X509 os (client_certificate os key cn) = Some certPem" "PEM_write_bio_PrivateKey os key = Some keyPem"
    by (rule issueIdentity_Inr [OF issue])
  have adds: "only_adds_directories fs fs2"
    using dirs [THEN make_parent_adds] by (rule only_adds_directories_trans)
  then have "flushFails fs2 = flushFails fs"
    by (auto simp: only_adds_directories_def)
  then have "flushed fs2 = flushed fs"
    by (simp add: flushed_def fun_eq_iff)
  moreover have "flushed (fs2\<lparr>files := f\<rparr>) = flushed fs2" for f
    by (simp add: flushed_def fun_eq_iff)
  ultimately show thesis
    using that b key adds wr by (simp add: writeBioToFile_Inr)
qed

lemma generate_again:
  assumes "generateCertificateIfMissing os cf kf cn fs = (Inr b, fs')"
  shows "generateCertificateIfMissing os cf kf cn fs' = (if statFails fs kf then Inl Filesystem_error else Inr False, fs')"
proof (cases "regular fs cf \<and> regular fs kf")
  case True
  with assms show ?thesis
    by (auto simp: generate_eq split: if_splits)
next
  case False
  with assms have "new_identity os cf kf cn fs = (Inr b, fs')" and stat: "\<not> statFails fs cf"
    by (auto simp: generate_eq split: if_splits)
  from this(1) have "regular fs' cf \<and> regular fs' kf \<and> statFails fs' = statFails fs"
    by (rule new_identity_files) (auto simp: regular_def only_adds_directories_def)
  with stat show ?thesis
    by (simp add: generate_eq)
qed

text \<open>Success does not depend on whether the buffers can be flushed.\<close>

lemma create_directories_flush:
  "create_directories p (fs\<lparr>flushFails := f\<rparr>) = (case create_directories p fs of (r, s) \<Rightarrow> (r, s\<lparr>flushFails := f\<rparr>))"
proof -
  have "create_directories_loop qs (fs\<lparr>flushFails := f\<rparr>) =
      (case create_directories_loop qs fs of (r, s) \<Rightarrow> (r, s\<lparr>flushFails := f\<rparr>))" for qs
  proof (induction qs fs rule: create_directories_loop.induct)
    case (2 q qs fs)
    have swap: "(fs\<lparr>flushFails := f\<rparr>)\<lparr>files := g\<rparr> = (fs\<lparr>files := g\<rparr>)\<lparr>flushFails := f\<rparr>" for g
      by simp
    show ?case
      using 2 by (auto simp: swap split: option.split file_node.split)
  qed simp
  then show ?thesis
    by (simp add: create_directories_def)
qed

lemma make_parent_flush:
  "make_parent p fs = (Inr (), fs') \<Longrightarrow> make_parent p (fs\<lparr>flushFails := f\<rparr>) = (Inr (), fs'\<lparr>flushFails := f\<rparr>)"
  by (auto simp: make_parent_def create_directories_flush split: if_splits)

lemma new_identity_flush:
  assumes "new_identity os cf kf cn fs = (Inr b, fs')"
  shows "\<exists>s. new_identity os cf kf cn (fs\<lparr>flushFails := f\<rparr>) = (Inr True, s)"
proof -
  from assms obtain fs1 fs2 fs3 fs4 certPem keyPem where
    dirs: "make_parent cf fs = (Inr (), fs1)" "make_parent kf fs1 = (Inr (), fs2)"
    and issue: "issueIdentity os cn fs2 = (Inr (certPem, keyPem), fs3)"
    and wr: "writeBioToFile os certPem cf fs3 = (Inr (), fs4)" "writeBioToFile os keyPem kf fs4 = (Inr (), fs')"
    unfolding new_identity_Inr by blast
  let ?s = "fs2\<lparr>flushFails := f\<rparr>"
  have "fs3 = fs2" and issue': "issueIdentity os cn ?s = (Inr (certPem, keyPem), ?s)"
    using issueIdentity_Inr [OF issue, where t = ?s] by auto
  have "\<exists>s4 s5. writeBioToFile os certPem cf ?s = (Inr (), s4) \<and> writeBioToFile os keyPem kf s4 = (Inr (), s5)"
    using wr \<open>fs3 = fs2\<close> by (auto simp: writeBioToFile_Inr)
  with dirs [THEN make_parent_flush] issue' show ?thesis
    unfolding new_identity_Inr by blast
qed

text \<open>
  (C32) Generating the identity: a call that returns says whether it generated one, which it does exactly when one of the two
  files is missing. An identity that is there is never replaced, and nothing else that exists is changed. A call that
  generated leaves in each file the text of the self-signed certificate or its key, as far as it was written: all of it
  unless flushing the file failed, which the call does not notice. Calling again changes nothing: it reports that nothing was
  generated, or throws if the status of the key file cannot be found out.
\<close>

theorem generateCertificate_idempotent:
  assumes run: "generateCertificateIfMissing os cf kf cn fs = (Inr b, fs')" and distinct: "cf \<noteq> kf"
  shows "(b \<longleftrightarrow> \<not> (regular fs cf \<and> regular fs kf)) \<and> (\<not> b \<longrightarrow> fs' = fs) \<and>
     (\<forall>p. p \<noteq> cf \<longrightarrow> p \<noteq> kf \<longrightarrow> files fs p \<noteq> None \<longrightarrow> files fs' p = files fs p) \<and>
     (b \<longrightarrow> (\<exists>key certPem keyPem. EVP_PKEY_keygen os = Some key \<and>
        PEM_write_bio_X509 os (client_certificate os key cn) = Some certPem \<and> PEM_write_bio_PrivateKey os key = Some keyPem \<and>
        files fs' cf = Some (Regular (case flushFails fs cf of None \<Rightarrow> certPem | Some n \<Rightarrow> take n certPem)) \<and>
        files fs' kf = Some (Regular (case flushFails fs kf of None \<Rightarrow> keyPem | Some n \<Rightarrow> take n keyPem)))) \<and>
     generateCertificateIfMissing os cf kf cn fs' = (if statFails fs kf then Inl Filesystem_error else Inr False, fs')"
proof (cases "regular fs cf \<and> regular fs kf")
  case True
  with run show ?thesis
    by (auto simp: generate_eq split: if_splits)
next
  case False
  with run have "new_identity os cf kf cn fs = (Inr b, fs')"
    by (auto simp: generate_eq split: if_splits)
  then obtain key certPem keyPem fs2 where *: "b" "EVP_PKEY_keygen os = Some key"
    "PEM_write_bio_X509 os (client_certificate os key cn) = Some certPem"
    "PEM_write_bio_PrivateKey os key = Some keyPem" "only_adds_directories fs fs2"
    "fs' = fs2\<lparr>files := (files fs2)(cf \<mapsto> Regular (flushed fs cf certPem), kf \<mapsto> Regular (flushed fs kf keyPem))\<rparr>"
    by (rule new_identity_files)
  have "\<forall>p. p \<noteq> cf \<longrightarrow> p \<noteq> kf \<longrightarrow> files fs p \<noteq> None \<longrightarrow> files fs' p = files fs p"
    using *(5,6) by (auto simp: only_adds_directories_def)
  with * False distinct generate_again [OF run] show ?thesis
    by (simp add: flushed_def)
qed

definition emptyFilesystem :: filesystem where
  "emptyFilesystem = \<lparr>files = Map.empty, statFails = (\<lambda>_. False), mkdirFails = (\<lambda>_. False), openFails = (\<lambda>_. False),
     writeFails = (\<lambda>_. None), flushFails = (\<lambda>_. None)\<rparr>"

lemma sample_issue:
  "issueIdentity sample_ossl cn s = (Inr (sample_pem CHR ''C'' 7, sample_pem CHR ''K'' 7), s)"
  by (simp add: issueIdentity_def addExtension_def sample_ossl_def Let_def io_bind_def io_return_def)

lemma sample_generate:
  "generateCertificateIfMissing sample_ossl [''d'', ''c''] [''d'', ''k''] cn emptyFilesystem =
     (Inr True, emptyFilesystem\<lparr>files := [[''d''] \<mapsto> Directory, [''d'', ''c''] \<mapsto> Regular (sample_pem CHR ''C'' 7),
        [''d'', ''k''] \<mapsto> Regular (sample_pem CHR ''K'' 7)]\<rparr>)"
  by (simp add: generate_eq new_identity_def make_parent_def regular_def emptyFilesystem_def parent_path_def
      create_directories_def prefixes_of_def io_bind_def io_return_def sample_issue writeBioToFile_def flushed_def sample_pem_def)

theorem generateCertificate_idempotent_witness:
  "\<exists>fs'. generateCertificateIfMissing sample_ossl [''d'', ''c''] [''d'', ''k''] ''phone'' emptyFilesystem = (Inr True, fs')
     \<and> files fs' [''d'', ''c''] = Some (Regular (sample_pem CHR ''C'' 7))
     \<and> generateCertificateIfMissing sample_ossl [''d'', ''c''] [''d'', ''k''] ''phone'' fs' = (Inr False, fs')"
  using generateCertificate_idempotent [OF sample_generate [of "''phone''"]] sample_generate
  by (auto simp: emptyFilesystem_def)

text \<open>
  Loading the identity succeeds exactly when both files can be read and parsed and the key
  belongs to the certificate; then the context holds both.
\<close>

lemma loadClientIdentity_installs:
  "fst (loadClientIdentity os fs cf kf (Some ctx)) = Inr () \<longleftrightarrow>
     (\<exists>certPem keyPem cert key. readFile cf fs = Inr certPem \<and> readFile kf fs = Inr keyPem \<and>
        BIO_new_mem_buf os certPem \<and> BIO_new_mem_buf os keyPem \<and>
        PEM_read_bio_X509 os certPem = Some cert \<and> PEM_read_bio_PrivateKey os keyPem = Some key \<and>
        SSL_CTX_use_certificate os cert = 1 \<and> SSL_CTX_use_PrivateKey os key = 1 \<and>
        SSL_CTX_check_private_key os cert key = 1 \<and>
        snd (loadClientIdentity os fs cf kf (Some ctx)) = Some (ctx\<lparr>ctxCertificate := Some cert, ctxPrivateKey := Some key\<rparr>))"
  by (auto simp: loadClientIdentity_def loadIdentity_def installIdentity_def io_bind_def io_lift_def io_some_def io_require_def
      io_return_def io_throw_def Let_def split: sum.splits option.splits if_splits)

text \<open>
  What PEM promises for the identity the code writes: the text reads back as a certificate
  and a key that OpenSSL accepts as a pair.
\<close>

definition pem_reads_back :: "'md ossl \<Rightarrow> string \<Rightarrow> bool" where
  "pem_reads_back os cn \<longleftrightarrow>
     (\<forall>key certPem keyPem. PEM_write_bio_X509 os (client_certificate os key cn) = Some certPem \<longrightarrow>
        PEM_write_bio_PrivateKey os key = Some keyPem \<longrightarrow>
        BIO_new_mem_buf os certPem \<and> BIO_new_mem_buf os keyPem \<and>
        (\<exists>cert key'. PEM_read_bio_X509 os certPem = Some cert \<and> PEM_read_bio_PrivateKey os keyPem = Some key' \<and>
           SSL_CTX_use_certificate os cert = 1 \<and> SSL_CTX_use_PrivateKey os key' = 1 \<and>
           SSL_CTX_check_private_key os cert key' = 1))"

text \<open>
  (C33) An identity that was just generated can be loaded: after a successful generation of both
  files whose contents reached the disk, \<open>loadClientIdentity\<close> puts a certificate and a key into
  the context.
\<close>

theorem generated_identity_loads:
  assumes run: "generateCertificateIfMissing os cf kf cn fs = (Inr True, fs')" and distinct: "cf \<noteq> kf"
    and pem: "pem_reads_back os cn" and opens: "\<not> openFails fs' cf" "\<not> openFails fs' kf"
    and flush: "flushFails fs cf = None" "flushFails fs kf = None"
  shows "\<exists>cert key. loadClientIdentity os fs' cf kf (Some ctx) =
     (Inr (), Some (ctx\<lparr>ctxCertificate := Some cert, ctxPrivateKey := Some key\<rparr>))"
proof -
  have "new_identity os cf kf cn fs = (Inr True, fs')"
    using run by (auto simp: generate_eq split: if_splits)
  then obtain key certPem keyPem fs2 where *:
    "PEM_write_bio_X509 os (client_certificate os key cn) = Some certPem"
    "PEM_write_bio_PrivateKey os key = Some keyPem"
    "fs' = fs2\<lparr>files := (files fs2)(cf \<mapsto> Regular (flushed fs cf certPem), kf \<mapsto> Regular (flushed fs kf keyPem))\<rparr>"
    by (rule new_identity_files)
  then have "readFile cf fs' = Inr certPem" and "readFile kf fs' = Inr keyPem"
    using opens distinct flush by (simp_all add: readFile_def flushed_def)
  with * pem show ?thesis
    unfolding pem_reads_back_def
    by (fastforce simp: loadClientIdentity_def loadIdentity_def installIdentity_def Let_def)
qed

theorem generated_identity_loads_witness:
  "\<exists>cert key. loadClientIdentity sample_ossl
     (snd (generateCertificateIfMissing sample_ossl [''d'', ''c''] [''d'', ''k''] ''phone'' emptyFilesystem))
     [''d'', ''c''] [''d'', ''k''] (Some newSslContext) =
     (Inr (), Some (newSslContext\<lparr>ctxCertificate := Some cert, ctxPrivateKey := Some key\<rparr>))"
proof (rule generated_identity_loads [of _ _ _ "''phone''" emptyFilesystem])
  show "pem_reads_back sample_ossl ''phone''"
    by (auto simp: pem_reads_back_def client_certificate_def sample_ossl_def sample_pem_def sample_unpem_def)
qed (simp_all add: sample_generate, simp_all add: emptyFilesystem_def)

text \<open>
  (C39) A write error that only shows when the stream's buffer is flushed is not noticed: where generating would succeed
  if both files could be flushed, it reports success also when the certificate file cannot. The file then holds what was written before
  the error, possibly nothing, and since it exists, the identity is not generated again.
\<close>

theorem unflushed_certificate_is_kept:
  assumes well: "generateCertificateIfMissing os cf kf cn (fs\<lparr>flushFails := (\<lambda>_. None)\<rparr>) = (Inr True, fs1)" and distinct: "cf \<noteq> kf"
    and full: "flushFails fs cf = Some n" and stat: "\<not> statFails fs kf"
  shows "\<exists>fs' certPem. generateCertificateIfMissing os cf kf cn fs = (Inr True, fs') \<and>
     files fs1 cf = Some (Regular certPem) \<and> files fs' cf = Some (Regular (take n certPem)) \<and>
     generateCertificateIfMissing os cf kf cn fs' = (Inr False, fs')"
proof -
  let ?fs = "fs\<lparr>flushFails := (\<lambda>_. None)\<rparr>"
  have "regular ?fs = regular fs"
    by (simp add: regular_def fun_eq_iff)
  then have new1: "new_identity os cf kf cn ?fs = (Inr True, fs1)" and missing: "\<not> (regular fs cf \<and> regular fs kf)" "\<not> statFails fs cf"
    using well by (auto simp: generate_eq split: if_splits)
  obtain fs' where new: "new_identity os cf kf cn fs = (Inr True, fs')"
    using new_identity_flush [OF new1, of "flushFails fs"] by auto
  with missing stat have run: "generateCertificateIfMissing os cf kf cn fs = (Inr True, fs')"
    by (auto simp: generate_eq)
  obtain key certPem where pem: "EVP_PKEY_keygen os = Some key" "PEM_write_bio_X509 os (client_certificate os key cn) = Some certPem"
    "files fs1 cf = Some (Regular certPem)"
    by (rule new_identity_files [OF new1]) (use distinct in \<open>auto simp: flushed_def\<close>)
  moreover have "files fs' cf = Some (Regular (take n certPem))"
    by (rule new_identity_files [OF new]) (use distinct pem full in \<open>auto simp: flushed_def\<close>)
  ultimately show ?thesis
    using run generate_again [OF run] stat by auto
qed

theorem unflushed_certificate_is_kept_witness:
  "\<exists>fs'. generateCertificateIfMissing sample_ossl [''d'', ''c''] [''d'', ''k''] ''phone''
       (emptyFilesystem\<lparr>flushFails := [[''d'', ''c''] \<mapsto> 0]\<rparr>) = (Inr True, fs') \<and>
     files fs' [''d'', ''c''] = Some (Regular [])"
proof -
  let ?fs = "emptyFilesystem\<lparr>flushFails := [[''d'', ''c''] \<mapsto> 0]\<rparr>"
  have "?fs\<lparr>flushFails := (\<lambda>_. None)\<rparr> = emptyFilesystem"
    by (simp add: emptyFilesystem_def)
  with sample_generate [of "''phone''"] show ?thesis
    using unflushed_certificate_is_kept [of sample_ossl "[''d'', ''c'']" "[''d'', ''k'']" "''phone''" ?fs _ 0]
    by (fastforce simp: emptyFilesystem_def)
qed

end
