(* ===== verification/Proto_Wire.thy ===== *)
theory Proto_Wire
  imports Prelude
begin

text \<open>
  The Protocol Buffers wire codec of \<^verbatim>\<open>src/proto_wire.hpp\<close> and \<^verbatim>\<open>src/proto_wire.cpp\<close>:
  the \<^verbatim>\<open>Writer\<close> that appends varint and length-delimited fields to a byte vector, the
  \<^verbatim>\<open>Reader\<close> that walks over the fields of a message with an offset and an error flag,
  the searches \<^verbatim>\<open>findVarint\<close>, \<^verbatim>\<open>findBytes\<close>, \<^verbatim>\<open>hasField\<close>, the stream framing
  \<^verbatim>\<open>frame\<close> and the prefix decoder \<^verbatim>\<open>decodeVarintPrefix\<close>.

  Member functions take the object as an argument and return the updated object; an
  out-parameter becomes a further component of the result, so that what a failing call
  leaves in it is part of the model.
\<close>

section \<open>Definitions\<close>

subsection \<open>Data\<close>

text \<open>
  \<^verbatim>\<open>WireType\<close> has the fixed underlying type \<^verbatim>\<open>uint8_t\<close>, so the cast of a three-bit value that
  no enumerator names is a valid value of the enumeration: \<open>UnlistedType\<close> holds it.
\<close>

datatype WireType = Varint | Fixed64 | LengthDelimited | Fixed32 | UnlistedType byte

fun wireTypeCode :: "WireType \<Rightarrow> byte" where
  "wireTypeCode Varint = 0"
| "wireTypeCode Fixed64 = 1"
| "wireTypeCode LengthDelimited = 2"
| "wireTypeCode Fixed32 = 5"
| "wireTypeCode (UnlistedType b) = b"

definition wireTypeOfCode :: "byte \<Rightarrow> WireType" where
  "wireTypeOfCode b =
     (if b = 0 then Varint else if b = 1 then Fixed64 else if b = 2 then LengthDelimited
      else if b = 5 then Fixed32 else UnlistedType b)"

record Field =
  fnumber :: u32
  ftype :: WireType
  fvarint :: u64
  fbytes :: bytes

definition emptyField :: Field where
  "emptyField = \<lparr>fnumber = 0, ftype = Varint, fvarint = 0, fbytes = []\<rparr>"

record Writer =
  wdata :: bytes

definition emptyWriter :: Writer where
  "emptyWriter = \<lparr>wdata = []\<rparr>"

record Reader =
  rbytes :: bytes
  roffset :: nat
  rok :: bool

definition newReader :: "bytes \<Rightarrow> Reader" where
  "newReader bs = \<lparr>rbytes = bs, roffset = 0, rok = True\<rparr>"

subsection \<open>Writer\<close>

definition Writer_push_back :: "byte \<Rightarrow> Writer \<Rightarrow> Writer" where
  "Writer_push_back b w = w\<lparr>wdata := wdata w @ [b]\<rparr>"

function Writer_varint :: "u64 \<Rightarrow> Writer \<Rightarrow> Writer" where
  "Writer_varint value w =
     (if 0x80 \<le> value
      then Writer_varint (drop_bit 7 value)
             (Writer_push_back (ucast ((value AND 0x7f) OR 0x80)) w)
      else Writer_push_back (ucast value) w)"
  by pat_completeness auto
termination
  by (relation "measure (\<lambda>(value, w). unat value)") (simp_all only: in_measure prod.case drop_7_less wf_measure)

declare Writer_varint.simps [simp del]

definition Writer_key :: "u32 \<Rightarrow> WireType \<Rightarrow> Writer \<Rightarrow> Writer" where
  "Writer_key fieldNumber type =
     Writer_varint (push_bit 3 (ucast fieldNumber) OR ucast (wireTypeCode type))"

definition Writer_varintField :: "u32 \<Rightarrow> u64 \<Rightarrow> Writer \<Rightarrow> Writer" where
  "Writer_varintField fieldNumber value w =
     Writer_varint value (Writer_key fieldNumber Varint w)"

definition Writer_bytesField :: "u32 \<Rightarrow> bytes \<Rightarrow> Writer \<Rightarrow> Writer" where
  "Writer_bytesField fieldNumber value w =
     (let w1 = Writer_key fieldNumber LengthDelimited w;
          w2 = Writer_varint (word_of_nat (length value)) w1
      in w2\<lparr>wdata := wdata w2 @ value\<rparr>)"

definition Writer_stringField :: "u32 \<Rightarrow> string \<Rightarrow> Writer \<Rightarrow> Writer" where
  "Writer_stringField fieldNumber value = Writer_bytesField fieldNumber (string_bytes value)"

definition Writer_messageField :: "u32 \<Rightarrow> Writer \<Rightarrow> Writer \<Rightarrow> Writer" where
  "Writer_messageField fieldNumber nested = Writer_bytesField fieldNumber (wdata nested)"

subsection \<open>Reader\<close>

text \<open>
  The loop of \<^verbatim>\<open>readVarint\<close>: \<open>value\<close> and \<open>shift\<close> are its local variables. The result is
  what the function returns, the out-parameter \<open>value\<close>, and the reader. A group shifted
  by 63 keeps only its lowest bit, as the 64-bit shift of the source does.
\<close>

function Reader_readVarint_loop :: "Reader \<Rightarrow> u64 \<Rightarrow> nat \<Rightarrow> bool \<times> u64 \<times> Reader" where
  "Reader_readVarint_loop r value shift =
     (if roffset r < length (rbytes r) \<and> shift \<le> 63 then
        (let byte = rbytes r ! roffset r;
             r' = r\<lparr>roffset := roffset r + 1\<rparr>;
             value' = value OR push_bit shift (ucast (byte AND 0x7f))
         in if byte AND 0x80 = 0 then (True, value', r')
            else Reader_readVarint_loop r' value' (shift + 7))
      else (False, value, r\<lparr>rok := False\<rparr>))"
  by pat_completeness auto
termination
  by (relation "measure (\<lambda>(r, value, shift). length (rbytes r) - roffset r)") auto

declare Reader_readVarint_loop.simps [simp del]

definition Reader_readVarint :: "Reader \<Rightarrow> bool \<times> u64 \<times> Reader" where
  "Reader_readVarint r = Reader_readVarint_loop r 0 0"

text \<open>\<^verbatim>\<open>Reader::next(Field& field)\<close>: the result, the field as the call leaves it, the reader.\<close>

definition Reader_fail :: "Reader \<Rightarrow> Reader" where
  "Reader_fail r = r\<lparr>rok := False\<rparr>"

text \<open>The two fixed-width cases of the switch differ in the width only.\<close>

definition Reader_fixed :: "nat \<Rightarrow> Field \<Rightarrow> Reader \<Rightarrow> bool \<times> Field \<times> Reader" where
  "Reader_fixed n field r =
     (if length (rbytes r) - roffset r < n then (False, field, Reader_fail r)
      else (True, field\<lparr>fbytes := take n (drop (roffset r) (rbytes r))\<rparr>,
            r\<lparr>roffset := roffset r + n\<rparr>))"

definition Reader_next :: "Reader \<Rightarrow> Field \<Rightarrow> bool \<times> Field \<times> Reader" where
  "Reader_next r field =
     (if \<not> rok r \<or> length (rbytes r) \<le> roffset r then (False, field, r)
      else case Reader_readVarint r of
        (False, _, r1) \<Rightarrow> (False, field, r1)
      | (True, keyValue, r1) \<Rightarrow>
          (let field1 = \<lparr>fnumber = ucast (drop_bit 3 keyValue),
                         ftype = wireTypeOfCode (ucast (keyValue AND 0x07)),
                         fvarint = 0, fbytes = []\<rparr>
           in if fnumber field1 = 0 then (False, field1, Reader_fail r1)
              else case ftype field1 of
                Varint \<Rightarrow>
                  (case Reader_readVarint r1 of
                     (okv, v, r2) \<Rightarrow> (okv, field1\<lparr>fvarint := v\<rparr>, r2))
              | Fixed64 \<Rightarrow> Reader_fixed 8 field1 r1
              | LengthDelimited \<Rightarrow>
                  (case Reader_readVarint r1 of
                     (okv, sz, r2) \<Rightarrow>
                       if \<not> okv \<or> length (rbytes r2) - roffset r2 < unat sz
                       then (False, field1, Reader_fail r2)
                       else (True,
                             field1\<lparr>fbytes := take (unat sz) (drop (roffset r2) (rbytes r2))\<rparr>,
                             r2\<lparr>roffset := roffset r2 + unat sz\<rparr>))
              | Fixed32 \<Rightarrow> Reader_fixed 4 field1 r1
              | UnlistedType _ \<Rightarrow> (False, field1, Reader_fail r1)))"

text \<open>
  The reader is well formed when its offset lies inside the message. A varint read keeps
  the message and never moves the offset back; a successful one consumes at least a byte
  and a failing one sets the error flag. The same holds for \<^const>\<open>Reader_next\<close>, which is
  what makes every loop over a reader terminate.
\<close>

definition Reader_wf :: "Reader \<Rightarrow> bool" where
  "Reader_wf r \<longleftrightarrow> roffset r \<le> length (rbytes r)"

definition Reader_advances :: "Reader \<Rightarrow> bool \<Rightarrow> Reader \<Rightarrow> bool" where
  "Reader_advances r b r' \<longleftrightarrow>
     rbytes r' = rbytes r \<and> roffset r \<le> roffset r' \<and> (Reader_wf r \<longrightarrow> Reader_wf r') \<and>
     rok r' = (b \<and> rok r)"

lemma Reader_advances_trans:
  "Reader_advances r True r1 \<Longrightarrow> Reader_advances r1 b r2 \<Longrightarrow> Reader_advances r b r2"
  by (auto simp: Reader_advances_def)

lemma Reader_fail_advances [simp]: "Reader_advances r True r1 \<Longrightarrow> Reader_advances r False (Reader_fail r1)"
  by (auto simp: Reader_advances_def Reader_fail_def Reader_wf_def)

lemma readVarint_loop_advances:
  "Reader_readVarint_loop r acc shift = (b, v, r') \<Longrightarrow>
     Reader_advances r b r' \<and> (b \<longrightarrow> roffset r < roffset r')"
proof (induction r acc shift arbitrary: b v r' rule: Reader_readVarint_loop.induct)
  case (1 r acc shift)
  show ?case
  proof (cases "roffset r < length (rbytes r) \<and> shift \<le> 63 \<and> rbytes r ! roffset r AND 0x80 \<noteq> 0")
    case True
    let ?r = "r\<lparr>roffset := roffset r + 1\<rparr>"
    from True 1 have "Reader_advances ?r b r' \<and> (b \<longrightarrow> roffset ?r < roffset r')"
      by (simp add: Reader_readVarint_loop.simps [of r acc shift] Let_def)
    with True show ?thesis
      by (auto simp: Reader_advances_def Reader_wf_def)
  next
    case False
    with "1.prems" show ?thesis
      by (subst (asm) Reader_readVarint_loop.simps)
         (auto simp: Let_def Reader_advances_def Reader_wf_def split: if_splits)
  qed
qed

lemma readVarint_advances:
  "Reader_readVarint r = (b, v, r') \<Longrightarrow> Reader_advances r b r'"
  and readVarint_progress:
  "Reader_readVarint r = (True, v, r') \<Longrightarrow> roffset r < roffset r'"
  by (auto simp: Reader_readVarint_def dest: readVarint_loop_advances)

lemma Reader_fixed_advances:
  "Reader_fixed n f r = (b, f', r') \<Longrightarrow> Reader_advances r b r'"
  by (auto simp: Reader_fixed_def Reader_fail_def Reader_wf_def Reader_advances_def split: if_splits)

text \<open>After the key, every case of the switch advances from the reader the key left.\<close>

lemma next_advances_from_key:
  assumes "Reader_next r f = (b, f', r')" and "Reader_readVarint r = (True, k, r1)"
    and "rok r" and "roffset r < length (rbytes r)"
  shows "Reader_advances r1 b r'"
  using assms
  by (auto simp: Reader_next_def Let_def Reader_advances_def Reader_fail_def Reader_wf_def
           dest!: Reader_fixed_advances readVarint_advances
           split: if_splits WireType.splits prod.splits)

lemma next_exhausted:
  "\<not> rok r \<or> length (rbytes r) \<le> roffset r \<Longrightarrow> Reader_next r f = (False, f, r)"
  by (simp add: Reader_next_def)

lemma next_advances:
  assumes "Reader_next r f = (b, f', r')" and "rok r" and "roffset r < length (rbytes r)"
  shows "Reader_advances r b r' \<and> (b \<longrightarrow> roffset r < roffset r')"
proof (cases "Reader_readVarint r")
  case (fields okv k r1)
  show ?thesis
  proof (cases okv)
    case True
    with fields have "Reader_advances r True r1" and "roffset r < roffset r1"
      by (auto dest: readVarint_advances readVarint_progress)
    moreover have "Reader_advances r1 b r'"
      using next_advances_from_key [OF assms(1) _ assms(2,3)] fields True by simp
    ultimately show ?thesis
      by (auto simp: Reader_advances_def)
  next
    case False
    with fields assms show ?thesis
      by (auto simp: Reader_next_def dest: readVarint_advances)
  qed
qed

lemma next_True:
  assumes "Reader_next r f = (True, f', r')"
  shows "rok r" and "roffset r < length (rbytes r)" and "rbytes r' = rbytes r"
    and "roffset r < roffset r'" and "rok r'"
proof -
  show "rok r" and "roffset r < length (rbytes r)"
    using assms next_exhausted [of r f] by (cases "rok r"; force)+
  then show "rbytes r' = rbytes r" and "roffset r < roffset r'" and "rok r'"
    using next_advances [OF assms] by (simp_all add: Reader_advances_def)
qed

lemma next_decreases:
  "Reader_next r f = (True, f', r') \<Longrightarrow>
     length (rbytes r') - roffset r' < length (rbytes r) - roffset r"
  using next_True [of r f f' r'] by simp

subsection \<open>Searching a message\<close>

text \<open>
  \<^verbatim>\<open>while (reader.next(field)) { ... return x; ... }\<close>: the loop that all searches and the
  message parser share. The body answers \<^term>\<open>Some x\<close> where it returns \<open>x\<close>; \<^const>\<open>None\<close> is the
  loop's fall-through. It ends because a successful \<^verbatim>\<open>next\<close> consumes input.
\<close>

function whileNext :: "(Field \<Rightarrow> 'a option) \<Rightarrow> Reader \<Rightarrow> Field \<Rightarrow> 'a option" where
  "whileNext body r field =
     (case Reader_next r field of
        (False, _, _) \<Rightarrow> None
      | (True, field', r') \<Rightarrow>
          (case body field' of Some x \<Rightarrow> Some x | None \<Rightarrow> whileNext body r' field'))"
  by pat_completeness auto
termination
  by (relation "measure (\<lambda>(body, r, field). length (rbytes r) - roffset r)")
     (auto intro: next_decreases [OF sym])

declare whileNext.simps [simp del]

definition findVarint :: "bytes \<Rightarrow> u32 \<Rightarrow> u64 option" where
  "findVarint message fieldNumber =
     whileNext (\<lambda>field. if fnumber field = fieldNumber \<and> ftype field = Varint
                        then Some (fvarint field) else None)
       (newReader message) emptyField"

definition findBytes :: "bytes \<Rightarrow> u32 \<Rightarrow> bytes option" where
  "findBytes message fieldNumber =
     whileNext (\<lambda>field. if fnumber field = fieldNumber \<and> ftype field = LengthDelimited
                        then Some (fbytes field) else None)
       (newReader message) emptyField"

definition hasField :: "bytes \<Rightarrow> u32 \<Rightarrow> bool" where
  "hasField message fieldNumber =
     (whileNext (\<lambda>field. if fnumber field = fieldNumber then Some True else None)
       (newReader message) emptyField = Some True)"

subsection \<open>Framing\<close>

text \<open>\<^verbatim>\<open>frame\<close> repeats the varint loop on its own vector instead of calling the writer.\<close>

function frame_loop :: "u64 \<Rightarrow> bytes \<Rightarrow> bytes" where
  "frame_loop val result =
     (if 0x80 \<le> val
      then frame_loop (drop_bit 7 val) (result @ [ucast ((val AND 0x7f) OR 0x80)])
      else result @ [ucast val])"
  by pat_completeness auto
termination
  by (relation "measure (\<lambda>(val, result). unat val)") (simp_all only: in_measure prod.case drop_7_less wf_measure)

declare frame_loop.simps [simp del]

definition frame :: "bytes \<Rightarrow> bytes" where
  "frame payload = frame_loop (word_of_nat (length payload)) [] @ payload"

text \<open>
  \<^verbatim>\<open>decodeVarintPrefix\<close>: the result, \<open>value\<close> and \<open>prefixLength\<close>. An input that ends inside the
  varint resets the length to 0; an eleventh byte leaves it at 10.
\<close>

fun decodeVarintPrefix_loop :: "bytes \<Rightarrow> u64 \<Rightarrow> nat \<Rightarrow> nat \<Rightarrow> bool \<times> u64 \<times> nat" where
  "decodeVarintPrefix_loop [] val prefixLength shift = (False, val, 0)"
| "decodeVarintPrefix_loop (byte # rest) val prefixLength shift =
     (if 63 < shift then (False, val, prefixLength)
      else let val' = val OR push_bit shift (ucast (byte AND 0x7f))
           in if byte AND 0x80 = 0 then (True, val', prefixLength + 1)
              else decodeVarintPrefix_loop rest val' (prefixLength + 1) (shift + 7))"

definition decodeVarintPrefix :: "bytes \<Rightarrow> bool \<times> u64 \<times> nat" where
  "decodeVarintPrefix data = decodeVarintPrefix_loop data 0 0 0"

end
