(* ===== verification/Wire_Codec.thy ===== *)
theory Wire_Codec
  imports Proto_Wire
begin

text \<open>
  Correctness of the wire codec of \<^verbatim>\<open>Proto_Wire\<close>: a reference encoder and decoder of
  varints that all loops of the sources compute, the abstract fields of a message, the
  two interfaces the other components use (\<^verbatim>\<open>prefix_reader\<close> for the frame readers,
  \<^verbatim>\<open>wire_codec\<close> for the message builders and parsers) with their interpretations, and
  the properties of reader and writer.
\<close>

section \<open>Encoding and decoding varints\<close>

text \<open>
  The reference encoding: seven bits at a time, lowest group first, with the
  continuation bit on every group but the last.
\<close>

function varint_bytes :: "u64 \<Rightarrow> bytes" where
  "varint_bytes v =
     (if v < 0x80 then [ucast v]
      else ucast ((v AND 0x7f) OR 0x80) # varint_bytes (drop_bit 7 v))"
  by pat_completeness auto
termination
  by (relation "measure unat") (simp_all only: in_measure not_less drop_7_less wf_measure)

declare varint_bytes.simps [simp del]

lemma varint_bytes_small: "v < 0x80 \<Longrightarrow> varint_bytes v = [ucast v]"
  by (simp add: varint_bytes.simps [of v])

lemma varint_bytes_large:
  "0x80 \<le> v \<Longrightarrow> varint_bytes v = ucast ((v AND 0x7f) OR 0x80) # varint_bytes (drop_bit 7 v)"
  by (subst varint_bytes.simps) (simp add: not_less [symmetric] del: not_less)

lemma varint_induct [case_names small large]:
  assumes "\<And>v. (v::u64) < 0x80 \<Longrightarrow> P v"
    and "\<And>v. 0x80 \<le> v \<Longrightarrow> P (drop_bit 7 v) \<Longrightarrow> P v"
  shows "P v"
proof (induction "unat v" arbitrary: v rule: less_induct)
  case less
  then show ?case
    using assms drop_7_less by (cases "v < 0x80") (auto simp: not_less)
qed

lemma Writer_varint_append [wire_simps]: "wdata (Writer_varint v w) = wdata w @ varint_bytes v"
proof (induction v arbitrary: w rule: varint_induct)
  case (small v)
  then show ?case
    by (subst Writer_varint.simps) (auto simp: varint_bytes_small Writer_push_back_def)
next
  case (large v)
  then show ?case
    by (subst Writer_varint.simps) (simp add: varint_bytes_large Writer_push_back_def)
qed

lemma frame_loop_eq [wire_simps]: "frame_loop v acc = acc @ varint_bytes v"
proof (induction v arbitrary: acc rule: varint_induct)
  case (small v)
  then show ?case
    by (subst frame_loop.simps) (auto simp: varint_bytes_small)
next
  case (large v)
  then show ?case
    by (subst frame_loop.simps) (simp add: varint_bytes_large)
qed

lemma varint_bytes_ne [simp]: "varint_bytes v \<noteq> []"
  by (subst varint_bytes.simps) simp

lemma frame_eq [wire_simps]: "frame p = varint_bytes (word_of_nat (length p)) @ p"
  by (simp add: frame_def frame_loop_eq)

lemma frame_ne [simp]: "frame p \<noteq> []"
  by (simp add: frame_eq)

lemma length_varint_bytes:
  "unat v < 2 ^ (7 * n) \<Longrightarrow> 0 < n \<Longrightarrow> length (varint_bytes v) \<le> n"
proof (induction v arbitrary: n rule: varint_induct)
  case (small v)
  then show ?case
    by (simp add: varint_bytes_small)
next
  case (large v)
  from large.hyps have "128 \<le> unat v"
    by (simp add: word_le_nat_alt)
  with large.prems obtain m where m: "n = Suc m" "0 < m"
    by (cases n; cases "n - 1") auto
  with large.prems(1) have "unat (drop_bit 7 v) < 2 ^ (7 * m)"
    unfolding unat_drop_7 by (simp add: power_add less_mult_imp_div_less mult.commute)
  from large.IH [OF this m(2)] large.hyps m show ?case
    by (simp add: varint_bytes_large)
qed

text \<open>
  The reference decoder on a list: the groups land above \<open>shift\<close>; a varint that ends too
  early or needs an eleventh byte is refused. The four decoding loops of the sources (the
  reader's, \<^verbatim>\<open>decodeVarintPrefix\<close> and the two frame readers) are proved to compute it.
\<close>

fun varint_decode :: "bytes \<Rightarrow> u64 \<Rightarrow> nat \<Rightarrow> (u64 \<times> bytes) option" where
  "varint_decode [] acc shift = None"
| "varint_decode (b # rest) acc shift =
     (if 63 < shift then None
      else let acc' = acc OR push_bit shift (ucast (b AND 0x7f))
           in if b AND 0x80 = 0 then Some (acc', rest) else varint_decode rest acc' (shift + 7))"

lemma shift_room:
  assumes "0x80 \<le> (v::u64)" and "unat v < 2 ^ (64 - shift)"
  shows "shift + 7 \<le> 63" and "unat (drop_bit 7 v) < 2 ^ (64 - (shift + 7))"
proof -
  from assms have "(2::nat) ^ 7 < 2 ^ (64 - shift)"
    by (simp add: word_le_nat_alt)
  then have room: "7 < 64 - shift"
    by (rule power_less_imp_less_exp [rotated]) simp
  then show "shift + 7 \<le> 63"
    by simp
  have "64 - shift = (64 - (shift + 7)) + 7"
    using room by simp
  then have "(2::nat) ^ (64 - shift) = 2 ^ (64 - (shift + 7)) * 128"
    by (simp only: power_add) simp
  with assms(2) show "unat (drop_bit 7 v) < 2 ^ (64 - (shift + 7))"
    unfolding unat_drop_7 by (simp add: less_mult_imp_div_less)
qed

lemma varint_decode_loop:
  assumes "unat v < 2 ^ (64 - shift)" and "shift \<le> 63"
  shows "varint_decode (varint_bytes v @ rest) acc shift = Some (acc OR push_bit shift v, rest)"
  using assms
proof (induction v arbitrary: acc shift rule: varint_induct)
  case (small v)
  then show ?case
    by (simp add: varint_bytes_small)
next
  case (large v)
  from shift_room [OF large.hyps large.prems(1)] large.prems(2) show ?case
    by (simp add: varint_bytes_large [OF large.hyps] large.IH or.assoc regroup del: push_bit_and)
qed

lemma varint_decode_bytes [simp]: "varint_decode (varint_bytes v @ rest) 0 0 = Some (v, rest)"
  using varint_decode_loop [of v 0 rest 0] unsigned_less [of v, where ?'a = nat] by simp

text \<open>A successful decode takes a non-empty prefix of at most as many bytes as groups still fit.\<close>

lemma varint_decode_prefix:
  "varint_decode bs acc shift = Some (v, rest) \<Longrightarrow>
     \<exists>pre. bs = pre @ rest \<and> pre \<noteq> [] \<and> 7 * length pre + shift \<le> 70"
proof (induction bs acc shift rule: varint_decode.induct)
  case (2 b bs acc shift)
  show ?case
  proof (cases "b AND 0x80 = 0")
    case True
    with "2.prems" have "bs = rest" and "shift \<le> 63"
      by (auto simp: Let_def split: if_splits)
    then show ?thesis
      by (intro exI [of _ "[b]"]) simp
  next
    case False
    with 2 obtain pre where "bs = pre @ rest" and "7 * length pre + (shift + 7) \<le> 70"
      by (auto simp: Let_def split: if_splits)
    then show ?thesis
      by (intro exI [of _ "b # pre"]) simp
  qed
qed simp

subsection \<open>The reader computes the reference decoder\<close>

lemma readVarint_loop_decode:
  "Reader_wf r \<Longrightarrow> Reader_readVarint_loop r acc shift = (okv, v, r') \<Longrightarrow>
     (case varint_decode (drop (roffset r) (rbytes r)) acc shift of
        None \<Rightarrow> \<not> okv
      | Some (v', rest) \<Rightarrow> okv \<and> v = v' \<and> r' = r\<lparr>roffset := length (rbytes r) - length rest\<rparr>)"
proof (induction r acc shift arbitrary: okv v r' rule: Reader_readVarint_loop.induct)
  case (1 r acc shift)
  show ?case
  proof (cases "roffset r < length (rbytes r)")
    case True
    let ?b = "rbytes r ! roffset r" and ?r = "r\<lparr>roffset := roffset r + 1\<rparr>"
    have d: "drop (roffset r) (rbytes r) = ?b # drop (roffset r + 1) (rbytes r)"
      using True by (simp add: Cons_nth_drop_Suc)
    show ?thesis
    proof (cases "shift \<le> 63 \<and> ?b AND 0x80 \<noteq> 0")
      case go: True
      then have "Reader_readVarint_loop ?r (acc OR push_bit shift (ucast (?b AND 0x7f))) (shift + 7) = (okv, v, r')"
        using "1.prems"(2) True by (simp add: Reader_readVarint_loop.simps [of r acc shift] Let_def)
      from "1.IH" [OF _ refl refl refl _ _ this] True go d show ?thesis
        by (auto simp: Reader_wf_def split: option.splits)
    next
      case False
      with True "1.prems" d show ?thesis
        by (auto simp: Reader_readVarint_loop.simps [of r acc shift] Let_def split: if_splits)
    qed
  next
    case False
    with "1.prems" show ?thesis
      by (simp add: Reader_readVarint_loop.simps [of r acc shift] Reader_wf_def)
  qed
qed

lemma readVarint_Some:
  assumes "Reader_wf r" and "varint_decode (drop (roffset r) (rbytes r)) 0 0 = Some (v, rest)"
  shows "Reader_readVarint r = (True, v, r\<lparr>roffset := length (rbytes r) - length rest\<rparr>)"
  using readVarint_loop_decode [OF assms(1), of 0 0] assms(2)
  by (cases "Reader_readVarint r") (auto simp: Reader_readVarint_def)

lemma readVarint_None:
  assumes "Reader_wf r" and "varint_decode (drop (roffset r) (rbytes r)) 0 0 = None"
  shows "\<exists>v r'. Reader_readVarint r = (False, v, r') \<and> \<not> rok r'"
  using readVarint_loop_decode [OF assms(1), of 0 0] assms(2)
  by (cases "Reader_readVarint r")
     (auto simp: Reader_readVarint_def Reader_advances_def dest: readVarint_loop_advances)

subsection \<open>The prefix decoder computes it too\<close>

lemma decodeVarintPrefix_loop_decode:
  "decodeVarintPrefix_loop bs acc n shift = (okv, v, m) \<Longrightarrow>
     (case varint_decode bs acc shift of
        None \<Rightarrow> \<not> okv
      | Some (v', rest) \<Rightarrow> okv \<and> v = v' \<and> m + length rest = n + length bs)"
proof (induction bs acc n shift rule: decodeVarintPrefix_loop.induct)
  case (2 b bs acc n shift)
  show ?case
  proof (cases "shift \<le> 63 \<and> b AND 0x80 \<noteq> 0")
    case True
    with 2 show ?thesis
      by (auto simp: Let_def split: option.splits)
  next
    case False
    with "2.prems" show ?thesis
      by (auto simp: Let_def split: if_splits)
  qed
qed simp

section \<open>Interface: reading length-prefixed frames\<close>

text \<open>
  What the frame readers promise of the length prefix: they read back what \<^verbatim>\<open>frame\<close> wrote
  and stop right behind it, and they never look at more than ten bytes. From this follows
  that a stream of frames splits into its payloads in exactly one way.
\<close>

locale prefix_reader =
  fixes read_prefix :: "bytes \<Rightarrow> (u64 \<times> bytes) option"
  assumes read_back: "read_prefix (varint_bytes v @ rest) = Some (v, rest)"
    and consumes: "read_prefix bs = Some (v, rest) \<Longrightarrow>
      \<exists>pre. bs = pre @ rest \<and> pre \<noteq> [] \<and> length pre \<le> 10"
begin

definition read_frame :: "bytes \<Rightarrow> (bytes \<times> bytes) option" where
  "read_frame bs =
     (case read_prefix bs of
        None \<Rightarrow> None
      | Some (n, rest) \<Rightarrow>
          if unat n \<le> length rest then Some (take (unat n) rest, drop (unat n) rest) else None)"

lemma read_frame_frame:
  "length p < 2 ^ 64 \<Longrightarrow> read_frame (frame p @ rest) = Some (p, rest)"
  by (simp add: read_frame_def frame_eq read_back unat_of_nat take_bit_nat_eq_self)

lemma frames_unique:
  assumes "frame p @ rest = frame q @ rest'" and "length p < 2 ^ 64" and "length q < 2 ^ 64"
  shows "p = q \<and> rest = rest'"
  using read_frame_frame [OF assms(2), of rest] read_frame_frame [OF assms(3), of rest'] assms(1)
  by (metis option.inject prod.inject)

lemma frame_list_unique:
  assumes "concat (map frame ps) = concat (map frame qs)"
    and "list_all (\<lambda>p. length p < 2 ^ 64) ps" and "list_all (\<lambda>q. length q < 2 ^ 64) qs"
  shows "ps = qs"
  using assms
proof (induction ps arbitrary: qs)
  case Nil
  then show ?case
    by (cases qs) simp_all
next
  case (Cons p ps)
  then obtain q qs' where "qs = q # qs'"
    by (cases qs) auto
  with Cons.prems have "p = q \<and> concat (map frame ps) = concat (map frame qs')"
    by (intro frames_unique) simp_all
  with Cons \<open>qs = q # qs'\<close> show ?case
    by simp
qed

end

lemma varint_decode_consumes:
  "varint_decode bs 0 0 = Some (v, rest) \<Longrightarrow>
     \<exists>pre. bs = pre @ rest \<and> pre \<noteq> [] \<and> length pre \<le> 10"
  by (drule varint_decode_prefix) auto

definition decodeVarintPrefix_split :: "bytes \<Rightarrow> (u64 \<times> bytes) option" where
  "decodeVarintPrefix_split bs =
     (case decodeVarintPrefix bs of (okv, v, n) \<Rightarrow> if okv then Some (v, drop n bs) else None)"

lemma decodeVarintPrefix_split_decode: "decodeVarintPrefix_split bs = varint_decode bs 0 0"
proof (cases "decodeVarintPrefix bs")
  case (fields okv v n)
  from decodeVarintPrefix_loop_decode [OF fields [unfolded decodeVarintPrefix_def]] fields
  show ?thesis
    by (auto simp: decodeVarintPrefix_split_def dest!: varint_decode_consumes split: option.splits)
qed

interpretation dvp: prefix_reader decodeVarintPrefix_split
  by unfold_locales (simp_all add: decodeVarintPrefix_split_decode varint_decode_consumes)

section \<open>Fields\<close>

text \<open>
  The abstract content of a message: the two kinds of field the writer can write, the
  field the reader is to report for each, and the bytes of a field.
\<close>

datatype wfield = VarintW u32 u64 | BytesW u32 bytes

fun write_wfield :: "wfield \<Rightarrow> Writer \<Rightarrow> Writer" where
  "write_wfield (VarintW n v) = Writer_varintField n v"
| "write_wfield (BytesW n bs) = Writer_bytesField n bs"

fun wfield_field :: "wfield \<Rightarrow> Field" where
  "wfield_field (VarintW n v) = \<lparr>fnumber = n, ftype = Varint, fvarint = v, fbytes = []\<rparr>"
| "wfield_field (BytesW n bs) = \<lparr>fnumber = n, ftype = LengthDelimited, fvarint = 0, fbytes = bs\<rparr>"

fun wfield_wf :: "wfield \<Rightarrow> bool" where
  "wfield_wf (VarintW n v) \<longleftrightarrow> n \<noteq> 0"
| "wfield_wf (BytesW n bs) \<longleftrightarrow> n \<noteq> 0 \<and> length bs < 2 ^ 64"

definition key_word :: "u32 \<Rightarrow> WireType \<Rightarrow> u64" where
  "key_word n t = push_bit 3 (ucast n) OR ucast (wireTypeCode t)"

fun wfield_bytes :: "wfield \<Rightarrow> bytes" where
  "wfield_bytes (VarintW n v) = varint_bytes (key_word n Varint) @ varint_bytes v"
| "wfield_bytes (BytesW n bs) =
     varint_bytes (key_word n LengthDelimited) @ varint_bytes (word_of_nat (length bs)) @ bs"

lemma write_wfield_data [wire_simps]:
  "wdata (write_wfield f w) = wdata w @ wfield_bytes f"
  by (cases f)
     (simp_all add: Writer_varintField_def Writer_bytesField_def Writer_key_def key_word_def
        Let_def wire_simps)

lemma Writer_eqI: "wdata w = wdata w' \<Longrightarrow> w = (w' :: Writer)"
  by simp

lemma write_wfields_data:
  "wdata (fold write_wfield fs w) = wdata w @ concat (map wfield_bytes fs)"
  by (induction fs arbitrary: w) (simp_all add: wire_simps)

lemma key_word_number [simp]:
  "(ucast (drop_bit 3 (key_word n Varint)) :: u32) = n"
  "(ucast (drop_bit 3 (key_word n LengthDelimited)) :: u32) = n"
  by (rule bit_word_eqI; auto simp: key_word_def bit_simps bit_2_iff)+

lemma key_word_type [simp]:
  "(ucast (key_word n Varint AND 7) :: byte) = 0"
  "(ucast (key_word n LengthDelimited AND 7) :: byte) = 2"
proof -
  have 7: "(7::u64) = mask 3"
    by (simp add: mask_numeral)
  show "(ucast (key_word n Varint AND 7) :: byte) = 0"
    unfolding 7 by (rule bit_word_eqI; auto simp: key_word_def bit_simps)
  show "(ucast (key_word n LengthDelimited AND 7) :: byte) = 2"
    unfolding 7 by (rule bit_word_eqI; auto simp: key_word_def bit_simps bit_2_iff)
qed

subsection \<open>Reading one field\<close>

lemma drop_suffix:
  assumes "drop i bs = pre @ rest"
  shows "drop (length bs - length rest) bs = rest"
proof -
  have "bs = (take i bs @ pre) @ rest"
    using append_take_drop_id [of i bs] assms by simp
  then show ?thesis
    by (metis append_eq_conv_conj diff_add_inverse2 length_append)
qed

lemma Reader_wf_drop: "drop (roffset r) (rbytes r) \<noteq> [] \<Longrightarrow> Reader_wf r"
  by (simp add: Reader_wf_def)

lemma readVarint_at:
  assumes "drop (roffset r) (rbytes r) = varint_bytes v @ rest"
  shows "Reader_readVarint r = (True, v, r\<lparr>roffset := length (rbytes r) - length rest\<rparr>)"
  using assms by (intro readVarint_Some Reader_wf_drop) simp_all

lemma next_wfield:
  assumes "rok r" and d: "drop (roffset r) (rbytes r) = wfield_bytes w @ rest" and wf: "wfield_wf w"
  shows "Reader_next r f = (True, wfield_field w, r\<lparr>roffset := length (rbytes r) - length rest\<rparr>)"
proof -
  have "drop (roffset r) (rbytes r) \<noteq> []"
    using d by (cases w) simp_all
  then have start: "\<not> (\<not> rok r \<or> length (rbytes r) \<le> roffset r)"
    using \<open>rok r\<close> by auto
  show ?thesis
  proof (cases w)
    case (VarintW n v)
    have "drop (roffset r) (rbytes r) = varint_bytes (key_word n Varint) @ varint_bytes v @ rest"
      using d VarintW by simp
    note key = readVarint_at [OF this] and rest = drop_suffix [OF this]
    from rest have "Reader_readVarint (r\<lparr>roffset := length (rbytes r) - length (varint_bytes v @ rest)\<rparr>) =
        (True, v, r\<lparr>roffset := length (rbytes r) - length rest\<rparr>)"
      by (subst readVarint_at [of _ v rest]) simp_all
    with start key wf VarintW show ?thesis
      by (simp add: Reader_next_def wireTypeOfCode_def)
  next
    case (BytesW n bs)
    let ?tail = "varint_bytes (word_of_nat (length bs)) @ bs @ rest"
    have d1: "drop (roffset r) (rbytes r) = varint_bytes (key_word n LengthDelimited) @ ?tail"
      using d BytesW by simp
    note key = readVarint_at [OF d1] and d2 = drop_suffix [OF d1]
    then have d2': "drop (length (rbytes r) - length ?tail) (rbytes r) = varint_bytes (word_of_nat (length bs)) @ (bs @ rest)"
      by simp
    from readVarint_at [of "r\<lparr>roffset := length (rbytes r) - length ?tail\<rparr>" _ "bs @ rest"] d2'
    have len: "Reader_readVarint (r\<lparr>roffset := length (rbytes r) - length ?tail\<rparr>) =
        (True, word_of_nat (length bs), r\<lparr>roffset := length (rbytes r) - length (bs @ rest)\<rparr>)"
      by simp
    have "drop (length (rbytes r) - length (bs @ rest)) (rbytes r) = bs @ rest"
      by (rule drop_suffix [OF d2'])
    moreover have "length (bs @ rest) \<le> length (rbytes r)"
      using arg_cong [OF d1, of length] by simp
    moreover have "unat (word_of_nat (length bs) :: u64) = length bs"
      using wf BytesW by (simp add: unat_of_nat take_bit_nat_eq_self)
    ultimately show ?thesis
      using start key len wf BytesW by (simp add: Reader_next_def wireTypeOfCode_def)
  qed
qed

subsection \<open>The fields of a message\<close>

text \<open>The fields a loop over \<^verbatim>\<open>next\<close> visits, in order: the abstract reading of a message.\<close>

function Reader_fields :: "Reader \<Rightarrow> Field \<Rightarrow> Field list" where
  "Reader_fields r field =
     (case Reader_next r field of
        (False, _, _) \<Rightarrow> []
      | (True, field', r') \<Rightarrow> field' # Reader_fields r' field')"
  by pat_completeness auto
termination
  by (relation "measure (\<lambda>(r, field). length (rbytes r) - roffset r)")
     (auto intro: next_decreases [OF sym])

declare Reader_fields.simps [simp del]

text \<open>The reader when the loop has ended.\<close>

function Reader_final :: "Reader \<Rightarrow> Field \<Rightarrow> Reader" where
  "Reader_final r field =
     (case Reader_next r field of
        (False, _, r') \<Rightarrow> r'
      | (True, field', r') \<Rightarrow> Reader_final r' field')"
  by pat_completeness auto
termination
  by (relation "measure (\<lambda>(r, field). length (rbytes r) - roffset r)")
     (auto intro: next_decreases [OF sym])

declare Reader_final.simps [simp del]

definition message_fields :: "bytes \<Rightarrow> Field list" where
  "message_fields message = Reader_fields (newReader message) emptyField"

fun first_Some :: "('a \<Rightarrow> 'b option) \<Rightarrow> 'a list \<Rightarrow> 'b option" where
  "first_Some f [] = None"
| "first_Some f (x # xs) = (case f x of Some y \<Rightarrow> Some y | None \<Rightarrow> first_Some f xs)"

lemma whileNext_fields: "whileNext body r field = first_Some body (Reader_fields r field)"
proof (induction body r field rule: whileNext.induct)
  case (1 body r field)
  then show ?case
    by (subst whileNext.simps, subst Reader_fields.simps)
       (auto split: prod.splits bool.splits option.splits)
qed

lemma Reader_fields_wfields:
  assumes "rok r" and "drop (roffset r) (rbytes r) = concat (map wfield_bytes ws)"
    and "list_all wfield_wf ws"
  shows "Reader_fields r field = map wfield_field ws \<and> rok (Reader_final r field)"
  using assms
proof (induction ws arbitrary: r field)
  case Nil
  then show ?case
    by (simp add: Reader_fields.simps [of r] Reader_final.simps [of r] next_exhausted)
next
  case (Cons w ws)
  let ?r = "r\<lparr>roffset := length (rbytes r) - length (concat (map wfield_bytes ws))\<rparr>"
  have d: "drop (roffset r) (rbytes r) = wfield_bytes w @ concat (map wfield_bytes ws)"
    using Cons.prems by simp
  have "Reader_next r field = (True, wfield_field w, ?r)"
    using Cons.prems d by (intro next_wfield) simp_all
  moreover have "Reader_fields ?r (wfield_field w) = map wfield_field ws \<and> rok (Reader_final ?r (wfield_field w))"
    using Cons.prems drop_suffix [OF d] by (intro Cons.IH) simp_all
  ultimately show ?case
    by (simp add: Reader_fields.simps [of r] Reader_final.simps [of r])
qed

lemma message_fields_wfields [simp]:
  "list_all wfield_wf ws \<Longrightarrow> message_fields (concat (map wfield_bytes ws)) = map wfield_field ws"
  unfolding message_fields_def
  by (rule Reader_fields_wfields [THEN conjunct1]) (simp_all add: newReader_def)

section \<open>Interface: finding fields\<close>

text \<open>
  What the message layer relies on: a message encoded from a list of fields answers every
  search with the first matching field of that list, and its length is bounded by its
  payloads.
\<close>

fun varint_at :: "u32 \<Rightarrow> wfield \<Rightarrow> u64 option" where
  "varint_at n (VarintW m v) = (if m = n then Some v else None)"
| "varint_at n (BytesW m bs) = None"

fun bytes_at :: "u32 \<Rightarrow> wfield \<Rightarrow> bytes option" where
  "bytes_at n (VarintW m v) = None"
| "bytes_at n (BytesW m bs) = (if m = n then Some bs else None)"

fun wfield_number :: "wfield \<Rightarrow> u32" where
  "wfield_number (VarintW m v) = m"
| "wfield_number (BytesW m bs) = m"

fun payload_length :: "wfield \<Rightarrow> nat" where
  "payload_length (VarintW m v) = 20"
| "payload_length (BytesW m bs) = 20 + length bs"

locale wire_codec =
  fixes encode :: "wfield list \<Rightarrow> bytes"
    and find_varint :: "bytes \<Rightarrow> u32 \<Rightarrow> u64 option"
    and find_bytes :: "bytes \<Rightarrow> u32 \<Rightarrow> bytes option"
    and has_field :: "bytes \<Rightarrow> u32 \<Rightarrow> bool"
  assumes find_varint_encode:
      "list_all wfield_wf ws \<Longrightarrow> find_varint (encode ws) n = first_Some (varint_at n) ws"
    and find_bytes_encode:
      "list_all wfield_wf ws \<Longrightarrow> find_bytes (encode ws) n = first_Some (bytes_at n) ws"
    and has_field_encode:
      "list_all wfield_wf ws \<Longrightarrow> has_field (encode ws) n \<longleftrightarrow> n \<in> wfield_number ` set ws"
    and length_encode: "length (encode ws) \<le> sum_list (map payload_length ws)"
begin

lemma find_nested:
  assumes "n \<noteq> 0" and "sum_list (map payload_length ws) < 2 ^ 64"
  shows "find_bytes (encode [BytesW n (encode ws)]) n = Some (encode ws)"
  using assms order_le_less_trans [OF length_encode assms(2)] by (simp add: find_bytes_encode)

lemma encode_inject_varint:
  assumes "list_all wfield_wf ws" and "list_all wfield_wf ws'" and "encode ws = encode ws'"
  shows "first_Some (varint_at n) ws = first_Some (varint_at n) ws'"
  using find_varint_encode [OF assms(1)] find_varint_encode [OF assms(2)] assms(3) by simp

end

definition encode_fields :: "wfield list \<Rightarrow> bytes" where
  "encode_fields ws = wdata (fold write_wfield ws emptyWriter)"

lemma encode_fields_eq: "encode_fields ws = concat (map wfield_bytes ws)"
  by (simp add: encode_fields_def write_wfields_data emptyWriter_def)

lemma first_Some_map: "first_Some f (map g xs) = first_Some (\<lambda>x. f (g x)) xs"
  by (induction xs) (simp_all split: option.splits)

lemma varint_at_field:
  "(if fnumber (wfield_field w) = n \<and> ftype (wfield_field w) = Varint
    then Some (fvarint (wfield_field w)) else None) = varint_at n w"
  by (cases w) simp_all

lemma bytes_at_field:
  "(if fnumber (wfield_field w) = n \<and> ftype (wfield_field w) = LengthDelimited
    then Some (fbytes (wfield_field w)) else None) = bytes_at n w"
  by (cases w) simp_all

lemma first_Some_number:
  "first_Some (\<lambda>w. if fnumber (wfield_field w) = n then Some True else None) ws = Some True \<longleftrightarrow>
     n \<in> wfield_number ` set ws"
proof (induction ws)
  case (Cons w ws)
  then show ?case
    by (cases w) auto
qed simp

lemma length_varint_bytes_le: "length (varint_bytes v) \<le> 10"
proof -
  have "unat v < 2 ^ 64"
    using unsigned_less [of v, where ?'a = nat] by simp
  then have "unat v < 2 ^ (7 * 10)"
    by (rule order_less_le_trans) simp
  then show ?thesis
    by (rule length_varint_bytes) simp
qed

lemma length_wfield_bytes: "length (wfield_bytes w) \<le> payload_length w"
proof (cases w)
  case (VarintW n v)
  then show ?thesis
    using add_mono [OF length_varint_bytes_le length_varint_bytes_le] by simp
next
  case (BytesW n bs)
  then show ?thesis
    using add_mono [OF length_varint_bytes_le length_varint_bytes_le] by simp
qed

lemma length_encode_fields: "length (encode_fields ws) \<le> sum_list (map payload_length ws)"
  unfolding encode_fields_eq
  by (induction ws) (simp_all add: add_mono length_wfield_bytes)

interpretation wire: wire_codec encode_fields findVarint findBytes hasField
  by unfold_locales
     (simp_all add: encode_fields_eq findVarint_def findBytes_def hasField_def whileNext_fields
        message_fields_def [symmetric] first_Some_map varint_at_field bytes_at_field
        first_Some_number length_encode_fields [unfolded encode_fields_eq])

section \<open>Numeric meaning of a varint\<close>

text \<open>The number a group sequence stands for: base 128, lowest digit first.\<close>

fun group_value :: "bytes \<Rightarrow> nat" where
  "group_value [] = 0"
| "group_value (b # bs) = unat (b AND 0x7f) + 128 * group_value bs"

lemma or_disjoint_add:
  assumes "take_bit shift (acc::u64) = acc"
  shows "acc OR push_bit shift x = acc + push_bit shift x"
  using assms
  by (intro disjunctive_add [symmetric]) (metis bit_push_bit_iff bit_take_bit_iff linorder_not_le)

lemma take_bit_or_group:
  assumes "take_bit shift (acc::u64) = acc"
  shows "take_bit (shift + 7) (acc OR push_bit shift (ucast (b AND 0x7f :: byte))) =
    acc OR push_bit shift (ucast (b AND 0x7f))"
proof (rule bit_word_eqI)
  fix n
  have "bit acc n \<Longrightarrow> n < shift"
    using assms by (metis bit_take_bit_iff)
  then show "bit (take_bit (shift + 7) (acc OR push_bit shift (ucast (b AND 0x7f)))) n \<longleftrightarrow>
      bit (acc OR push_bit shift (ucast (b AND 0x7f))) n"
    by (auto simp: and_7f_mask_byte bit_simps)
qed

lemma varint_decode_value:
  assumes "varint_decode bs acc shift = Some (v, rest)" and "take_bit shift acc = acc"
  shows "\<exists>pre. bs = pre @ rest \<and> v = acc + push_bit shift (word_of_nat (group_value pre))"
  using assms
proof (induction bs acc shift rule: varint_decode.induct)
  case (2 b bs acc shift)
  let ?g = "ucast (b AND 0x7f) :: u64"
  let ?acc = "acc OR push_bit shift ?g"
  have g: "?g = word_of_nat (unat (b AND 0x7f))"
    by simp
  have acc: "?acc = acc + push_bit shift ?g"
    by (rule or_disjoint_add) (rule "2.prems")
  from "2.prems" have "shift \<le> 63"
    by (auto split: if_splits)
  show ?case
  proof (cases "b AND 0x80 = 0")
    case True
    with "2.prems" \<open>shift \<le> 63\<close> have "v = ?acc" and "rest = bs"
      by (auto simp: Let_def)
    then show ?thesis
      by (intro exI [of _ "[b]"]) (simp add: acc)
  next
    case False
    with 2 \<open>shift \<le> 63\<close> take_bit_or_group obtain pre where
      "bs = pre @ rest" and "v = ?acc + push_bit (shift + 7) (word_of_nat (group_value pre))"
      by (auto simp: Let_def)
    moreover from this have "v = (acc + push_bit shift ?g) + push_bit (shift + 7) (word_of_nat (group_value pre))"
      by (simp only: acc)
    ultimately show ?thesis
      by (intro exI [of _ "b # pre"]) (simp add: push_bit_eq_mult power_add algebra_simps)
  qed
qed simp

lemma varint_decode_group_value:
  assumes "varint_decode bs 0 0 = Some (v, rest)"
  shows "\<exists>pre. bs = pre @ rest \<and> 1 \<le> length pre \<and> length pre \<le> 10 \<and> v = word_of_nat (group_value pre)"
proof -
  obtain pre where "bs = pre @ rest" and "v = word_of_nat (group_value pre)"
    using varint_decode_value [OF assms] by auto
  moreover obtain pre' where "bs = pre' @ rest" and "pre' \<noteq> []" and "length pre' \<le> 10"
    using varint_decode_consumes [OF assms] by blast
  ultimately show ?thesis
    by (intro exI [of _ pre]) (auto simp: Suc_le_eq)
qed

section \<open>Bounds of the spans a reader hands out\<close>

text \<open>
  The span of a field is the stretch of the message that ends at the new offset, whole:
  no length the message declares can make the reader reach past its end.
\<close>

definition span_ok :: "Reader \<Rightarrow> Field \<Rightarrow> Reader \<Rightarrow> bool" where
  "span_ok r f r' \<longleftrightarrow>
     length (fbytes f) \<le> roffset r' - roffset r \<and> roffset r' \<le> length (rbytes r) \<and>
     fbytes f = take (length (fbytes f)) (drop (roffset r' - length (fbytes f)) (rbytes r)) \<and>
     (ftype f = Fixed64 \<longrightarrow> length (fbytes f) = 8) \<and>
     (ftype f = Fixed32 \<longrightarrow> length (fbytes f) = 4)"

lemma span_okI:
  assumes "roffset r \<le> i" and "i + n \<le> length (rbytes r)" and "roffset r' = i + n"
    and "fbytes f = take n (drop i (rbytes r))"
    and "ftype f = Fixed64 \<longrightarrow> n = 8" and "ftype f = Fixed32 \<longrightarrow> n = 4"
  shows "span_ok r f r'"
proof -
  have "length (fbytes f) = n"
    using assms(2,4) by simp
  with assms show ?thesis
    by (auto simp: span_ok_def min_def)
qed

lemma span_ok_from_key:
  assumes "Reader_wf r1" and "roffset r \<le> roffset r1" and "rbytes r1 = rbytes r"
    and "Reader_fixed n f r1 = (True, f', r')" and "ftype f = Fixed64 \<longrightarrow> n = 8"
    and "ftype f = Fixed32 \<longrightarrow> n = 4"
  shows "span_ok r f' r'"
  using assms
  by (intro span_okI [where i = "roffset r1" and n = n])
     (auto simp: Reader_fixed_def Reader_wf_def split: if_splits)

lemma next_span_ok:
  assumes wf: "Reader_wf r" and nxt: "Reader_next r f = (True, f', r')"
  shows "span_ok r f' r'"
proof -
  obtain k r1 where key: "Reader_readVarint r = (True, k, r1)"
    using nxt by (auto simp: Reader_next_def split: if_splits prod.splits bool.splits)
  note adv = readVarint_advances [OF key, unfolded Reader_advances_def]
  then have r1: "Reader_wf r1" "roffset r \<le> roffset r1" "rbytes r1 = rbytes r"
    using wf by simp_all
  let ?f = "\<lparr>fnumber = ucast (drop_bit 3 k), ftype = wireTypeOfCode (ucast (k AND 7)),
              fvarint = 0, fbytes = []\<rparr>"
  have t: "ftype f' = ftype ?f"
    using nxt key
    by (auto simp: Reader_next_def Reader_fixed_def Let_def split: if_splits WireType.splits prod.splits)
  show ?thesis
  proof (cases "ftype ?f")
    case Varint
    with nxt key obtain v where v: "Reader_readVarint r1 = (True, v, r')" and "fbytes f' = []"
      by (auto simp: Reader_next_def Let_def split: if_splits prod.splits)
    from readVarint_advances [OF v] r1 have "roffset r \<le> roffset r'" "roffset r' \<le> length (rbytes r)"
      by (auto simp: Reader_advances_def Reader_wf_def)
    with \<open>fbytes f' = []\<close> Varint t show ?thesis
      by (simp add: span_ok_def)
  next
    case LengthDelimited
    with nxt key obtain sz r2 where sz: "Reader_readVarint r1 = (True, sz, r2)"
      and le: "unat sz \<le> length (rbytes r2) - roffset r2"
      and f': "fbytes f' = take (unat sz) (drop (roffset r2) (rbytes r2))"
      and r': "r' = r2\<lparr>roffset := roffset r2 + unat sz\<rparr>"
      by (auto simp: Reader_next_def Let_def split: if_splits prod.splits)
    from readVarint_advances [OF sz] r1
    have r2: "rbytes r2 = rbytes r" "roffset r \<le> roffset r2" "roffset r2 \<le> length (rbytes r)"
      by (auto simp: Reader_advances_def Reader_wf_def)
    show ?thesis
      using le f' r' r2 LengthDelimited t
      by (intro span_okI [where i = "roffset r2" and n = "unat sz"]) simp_all
  next
    case Fixed64
    with nxt key have "Reader_fixed 8 ?f r1 = (True, f', r')"
      by (simp add: Reader_next_def Let_def split: if_splits)
    with r1 Fixed64 show ?thesis
      by (intro span_ok_from_key) auto
  next
    case Fixed32
    with nxt key have "Reader_fixed 4 ?f r1 = (True, f', r')"
      by (simp add: Reader_next_def Let_def split: if_splits)
    with r1 Fixed32 show ?thesis
      by (intro span_ok_from_key) auto
  next
    case (UnlistedType b)
    with nxt key show ?thesis
      by (simp add: Reader_next_def Let_def split: if_splits)
  qed
qed

section \<open>Properties\<close>

text \<open>
  (C11) Whatever sequence of varint and length-delimited fields is written with
  \<^verbatim>\<open>Writer\<close>, a loop over \<^verbatim>\<open>Reader::next\<close> on the resulting bytes reports exactly these
  fields, in order and with their values, and ends without raising the error flag. Field
  numbers must not be 0 and spans must be shorter than \<^verbatim>\<open>2^64\<close> bytes.
\<close>

theorem writer_reader_roundtrip:
  assumes "list_all wfield_wf ws"
  shows "Reader_fields (newReader (wdata (fold write_wfield ws emptyWriter))) emptyField =
           map wfield_field ws \<and>
         rok (Reader_final (newReader (wdata (fold write_wfield ws emptyWriter))) emptyField)"
  using assms encode_fields_eq [unfolded encode_fields_def, of ws]
  by (intro Reader_fields_wfields) (simp_all add: newReader_def)

theorem writer_reader_roundtrip_witness:
  "Reader_fields (newReader (wdata (fold write_wfield [VarintW 1 300, BytesW 2 [7, 8]] emptyWriter)))
     emptyField =
   [\<lparr>fnumber = 1, ftype = Varint, fvarint = 300, fbytes = []\<rparr>,
    \<lparr>fnumber = 2, ftype = LengthDelimited, fvarint = 0, fbytes = [7, 8]\<rparr>]"
  using writer_reader_roundtrip [of "[VarintW 1 300, BytesW 2 [7, 8]]"] by simp

text \<open>
  (C27) The searches agree with the list of fields that was written: \<^verbatim>\<open>findVarint\<close> and
  \<^verbatim>\<open>findBytes\<close> return the first field with the number and the wire type asked for,
  \<^verbatim>\<open>hasField\<close> tells whether any field has the number.
\<close>

theorem find_after_write:
  assumes "list_all wfield_wf ws"
  shows "findVarint (encode_fields ws) n = first_Some (varint_at n) ws \<and>
         findBytes (encode_fields ws) n = first_Some (bytes_at n) ws \<and>
         (hasField (encode_fields ws) n \<longleftrightarrow> n \<in> wfield_number ` set ws)"
  using assms
  by (simp add: wire.find_varint_encode wire.find_bytes_encode wire.has_field_encode)

theorem find_after_write_witness:
  "findVarint (encode_fields [BytesW 6 [1], VarintW 6 100, VarintW 6 7]) 6 = Some 100 \<and>
   findBytes (encode_fields [BytesW 6 [1], VarintW 6 100, VarintW 6 7]) 6 = Some [1] \<and>
   hasField (encode_fields [BytesW 6 [1], VarintW 6 100, VarintW 6 7]) 6"
  using find_after_write [of "[BytesW 6 [1], VarintW 6 100, VarintW 6 7]" 6] by simp

text \<open>
  (C20) Memory safety of the reader on any input: from an offset inside the message,
  \<^verbatim>\<open>next\<close> keeps the offset inside the message and never moves it back; when it succeeds it
  moves forward and the span of the field is a whole stretch of the message that ends at
  the new offset (eight and four bytes for the fixed-width types).
\<close>

theorem reader_stays_in_bounds:
  assumes "Reader_wf r" and "Reader_next r f = (b, f', r')"
  shows "Reader_wf r' \<and> rbytes r' = rbytes r \<and> roffset r \<le> roffset r' \<and>
         (b \<longrightarrow> roffset r < roffset r' \<and> span_ok r f' r')"
proof (cases "rok r \<and> roffset r < length (rbytes r)")
  case True
  with next_advances [OF assms(2)] assms next_span_ok [OF assms(1)] show ?thesis
    by (auto simp: Reader_advances_def)
next
  case False
  with assms next_exhausted [of r f] show ?thesis
    by auto
qed

text \<open>The witness reads the field 1 of type 2 with three bytes \<^verbatim>\<open>0a 03 61 62 63\<close>.\<close>

theorem reader_stays_in_bounds_witness:
  "span_ok (newReader [0x0a, 3, 0x61, 0x62, 0x63])
     \<lparr>fnumber = 1, ftype = LengthDelimited, fvarint = 0, fbytes = [0x61, 0x62, 0x63]\<rparr>
     \<lparr>rbytes = [0x0a, 3, 0x61, 0x62, 0x63], roffset = 5, rok = True\<rparr>"
proof -
  have "Reader_wf (newReader [0x0a, 3, 0x61, 0x62, 0x63])"
    by (simp add: Reader_wf_def newReader_def)
  moreover have "Reader_next (newReader [0x0a, 3, 0x61, 0x62, 0x63]) emptyField =
      (True, \<lparr>fnumber = 1, ftype = LengthDelimited, fvarint = 0, fbytes = [0x61, 0x62, 0x63]\<rparr>,
       \<lparr>rbytes = [0x0a, 3, 0x61, 0x62, 0x63], roffset = 5, rok = True\<rparr>)"
    by code_simp
  ultimately show ?thesis
    using reader_stays_in_bounds by blast
qed

text \<open>
  (C28) Errors latch: when \<^verbatim>\<open>next\<close> fails although input is left, the error flag is set, and
  from then on every call fails and changes neither the field nor the reader. Together
  with the previous property: a message is either read to its end or flagged.
\<close>

theorem reader_error_latches:
  assumes "rok r" and "roffset r < length (rbytes r)" and "Reader_next r f = (False, f', r')"
  shows "\<not> rok r' \<and> (\<forall>g. Reader_next r' g = (False, g, r'))"
proof -
  have "\<not> rok r'"
    using next_advances [OF assms(3,1,2)] by (simp add: Reader_advances_def)
  then show ?thesis
    by (simp add: next_exhausted)
qed

text \<open>The witness: a length-delimited field that declares more bytes than follow.\<close>

theorem reader_error_latches_witness:
  "\<forall>g. Reader_next \<lparr>rbytes = [0x0a, 9, 1], roffset = 2, rok = False\<rparr> g =
         (False, g, \<lparr>rbytes = [0x0a, 9, 1], roffset = 2, rok = False\<rparr>)"
proof -
  have "Reader_next (newReader [0x0a, 9, 1]) emptyField =
      (False, \<lparr>fnumber = 1, ftype = LengthDelimited, fvarint = 0, fbytes = []\<rparr>,
       \<lparr>rbytes = [0x0a, 9, 1], roffset = 2, rok = False\<rparr>)"
    by code_simp
  from reader_error_latches [OF _ _ this] show ?thesis
    by (simp add: newReader_def)
qed

text \<open>
  (C26) A varint means a number: a successful \<^verbatim>\<open>readVarint\<close> consumes between one and ten
  bytes and yields the base-128 number of their groups modulo \<^verbatim>\<open>2^64\<close>; and what
  \<^verbatim>\<open>Writer::varint\<close> appends is read back as the same value, at the end of those bytes.
\<close>

theorem varint_value:
  assumes "Reader_wf r" and "Reader_readVarint r = (True, v, r')"
  shows "\<exists>pre. drop (roffset r) (rbytes r) = pre @ drop (roffset r') (rbytes r) \<and>
           1 \<le> length pre \<and> length pre \<le> 10 \<and> v = word_of_nat (group_value pre)"
proof -
  obtain rest where d: "varint_decode (drop (roffset r) (rbytes r)) 0 0 = Some (v, rest)"
    and r': "r' = r\<lparr>roffset := length (rbytes r) - length rest\<rparr>"
    using readVarint_loop_decode [OF assms(1) assms(2) [unfolded Reader_readVarint_def]]
    by (auto split: option.splits)
  from varint_decode_group_value [OF d] obtain pre where
    pre: "drop (roffset r) (rbytes r) = pre @ rest" "1 \<le> length pre" "length pre \<le> 10"
      "v = word_of_nat (group_value pre)"
    by blast
  with drop_suffix [OF pre(1)] r' show ?thesis
    by (intro exI [of _ pre]) simp
qed

theorem varint_value_witness:
  "\<exists>pre. drop 0 [0xac, 2, 9] = pre @ drop 2 [0xac, 2, 9] \<and>
     1 \<le> length pre \<and> length pre \<le> 10 \<and> (300 :: u64) = word_of_nat (group_value pre)"
proof -
  have "Reader_readVarint (newReader [0xac, 2, 9]) =
      (True, 300, \<lparr>rbytes = [0xac, 2, 9], roffset = 2, rok = True\<rparr>)"
    by code_simp
  from varint_value [OF _ this] show ?thesis
    by (simp add: newReader_def Reader_wf_def)
qed

text \<open>
  (C25) Varint round trip: the bytes \<^verbatim>\<open>Writer::varint\<close> appends are at most ten, and
  \<^verbatim>\<open>readVarint\<close> at their start returns the value and stops right behind them, whatever
  follows; the length prefix of \<^verbatim>\<open>frame\<close> is the same encoding.
\<close>

theorem varint_roundtrip:
  "\<exists>enc. wdata (Writer_varint v w) = wdata w @ enc \<and> 1 \<le> length enc \<and> length enc \<le> 10 \<and>
     frame_loop v [] = enc \<and>
     Reader_readVarint \<lparr>rbytes = wdata (Writer_varint v w) @ rest, roffset = length (wdata w), rok = True\<rparr> =
       (True, v, \<lparr>rbytes = wdata (Writer_varint v w) @ rest,
                  roffset = length (wdata w) + length enc, rok = True\<rparr>)"
proof (intro exI [of _ "varint_bytes v"] conjI)
  show "1 \<le> length (varint_bytes v)"
    by (simp add: Suc_le_eq)
qed (simp_all add: wire_simps length_varint_bytes_le readVarint_at)

text \<open>
  Framing: \<^verbatim>\<open>decodeVarintPrefix\<close> on a framed payload, whatever follows it in the stream,
  succeeds with the payload's length and the position where the payload starts.
\<close>

lemma frame_prefix_roundtrip:
  assumes "length payload < 2 ^ 64"
  shows "\<exists>v n. decodeVarintPrefix (frame payload @ rest) = (True, v, n) \<and>
           unat v = length payload \<and> n \<le> 10 \<and>
           take (unat v) (drop n (frame payload @ rest)) = payload \<and>
           drop (n + unat v) (frame payload @ rest) = rest"
proof (cases "decodeVarintPrefix (frame payload @ rest)")
  case (fields okv v n)
  let ?enc = "varint_bytes (word_of_nat (length payload))"
  have d: "varint_decode (frame payload @ rest) 0 0 = Some (word_of_nat (length payload), payload @ rest)"
    by (simp add: frame_eq)
  from decodeVarintPrefix_loop_decode [OF fields [unfolded decodeVarintPrefix_def]] d
  have "okv" and "v = word_of_nat (length payload)" and "n = length ?enc"
    by (simp_all add: frame_eq)
  moreover from this have "unat v = length payload"
    using assms by (simp add: unat_of_nat take_bit_nat_eq_self)
  ultimately show ?thesis
    using fields length_varint_bytes_le by (simp add: frame_eq)
qed

text \<open>
  A byte stream is a concatenation of frames in at most one way, so the receiver's
  view of a sequence of framed messages is unambiguous.
\<close>

lemma frames_split_uniquely:
  assumes "concat (map frame ps) = concat (map frame qs)"
    and "list_all (\<lambda>p. length p < 2 ^ 64) ps" and "list_all (\<lambda>q. length q < 2 ^ 64) qs"
  shows "ps = qs"
  using assms by (rule dvp.frame_list_unique)

end
