(* ===== verification/Protocol_Messages.thy ===== *)
theory Protocol_Messages
  imports Wire_Codec Remote_Types
begin

text \<open>
  The messages of \<^verbatim>\<open>src/protocol_messages.hpp\<close> and \<^verbatim>\<open>src/protocol_messages.cpp\<close>: the
  builders of the pairing and remote messages, the tests on pairing replies, and
  \<^verbatim>\<open>parseRemote\<close> with the structure \<^verbatim>\<open>RemoteIncoming\<close> it fills.
\<close>

section \<open>Definitions\<close>

subsection \<open>Feature bits and conversions\<close>

definition FeaturePing :: i32 where "FeaturePing = push_bit 0 1"
definition FeatureKey :: i32 where "FeatureKey = push_bit 1 1"
definition FeatureIme :: i32 where "FeatureIme = push_bit 2 1"
definition FeatureVoice :: i32 where "FeatureVoice = push_bit 3 1"
definition FeaturePower :: i32 where "FeaturePower = push_bit 5 1"
definition FeatureVolume :: i32 where "FeatureVolume = push_bit 6 1"
definition FeatureAppLink :: i32 where "FeatureAppLink = push_bit 9 1"

text \<open>
  \<^verbatim>\<open>static_cast<uint64_t>(int32)\<close> extends the sign; through \<^verbatim>\<open>static_cast<uint32_t>\<close> it
  extends with zeros.
\<close>

definition u64_of_i32 :: "i32 \<Rightarrow> u64" where
  "u64_of_i32 x = scast x"

definition u64_of_u32 :: "u32 \<Rightarrow> u64" where
  "u64_of_u32 x = ucast x"

definition asI32 :: "u64 option \<Rightarrow> i32" where
  "asI32 v = (case v of Some x \<Rightarrow> ucast x | None \<Rightarrow> 0)"

definition asU32 :: "u64 option \<Rightarrow> u32" where
  "asU32 v = (case v of Some x \<Rightarrow> ucast x | None \<Rightarrow> 0)"

definition asBool :: "u64 option \<Rightarrow> bool" where
  "asBool v \<longleftrightarrow> (case v of Some x \<Rightarrow> x | None \<Rightarrow> 0) \<noteq> 0"

subsection \<open>Pairing messages\<close>

definition pairingOuter :: "u32 \<Rightarrow> Writer \<Rightarrow> Writer" where
  "pairingOuter fieldNumber inner =
     (let outer = Writer_varintField 1 2 emptyWriter;
          outer = Writer_varintField 2 200 outer
      in Writer_messageField fieldNumber inner outer)"

definition pairingRequest :: "string \<Rightarrow> bytes" where
  "pairingRequest clientName =
     (let request = Writer_stringField 1 ''atvremote'' emptyWriter;
          request = Writer_stringField 2 clientName request
      in wdata (pairingOuter 10 request))"

definition pairingOptions :: bytes where
  "pairingOptions =
     (let encoding = Writer_varintField 1 3 emptyWriter;
          encoding = Writer_varintField 2 6 encoding;
          options = Writer_messageField 1 encoding emptyWriter;
          options = Writer_varintField 3 1 options
      in wdata (pairingOuter 20 options))"

definition pairingConfiguration :: bytes where
  "pairingConfiguration =
     (let encoding = Writer_varintField 1 3 emptyWriter;
          encoding = Writer_varintField 2 6 encoding;
          configuration = Writer_messageField 1 encoding emptyWriter;
          configuration = Writer_varintField 2 1 configuration
      in wdata (pairingOuter 30 configuration))"

definition pairingSecretMessage :: "bytes \<Rightarrow> bytes" where
  "pairingSecretMessage secretBytes =
     wdata (pairingOuter 40 (Writer_bytesField 1 secretBytes emptyWriter))"

definition pairingStatus :: "bytes \<Rightarrow> u64 option" where
  "pairingStatus message = findVarint message 2"

definition hasPairingRequestAck :: "bytes \<Rightarrow> bool" where
  "hasPairingRequestAck message = hasField message 11"

definition hasPairingOptions :: "bytes \<Rightarrow> bool" where
  "hasPairingOptions message = hasField message 20"

definition hasConfigurationAck :: "bytes \<Rightarrow> bool" where
  "hasConfigurationAck message = hasField message 31"

definition hasSecretAck :: "bytes \<Rightarrow> bool" where
  "hasSecretAck message = hasField message 41"

subsection \<open>Remote messages\<close>

definition remoteConfigureResponse :: "i32 \<Rightarrow> bytes" where
  "remoteConfigureResponse activeFeatures =
     (let device = Writer_varintField 3 1 emptyWriter;
          device = Writer_stringField 4 ''1'' device;
          device = Writer_stringField 5 ''atvremote'' device;
          device = Writer_stringField 6 ''1.0.0'' device;
          configure = Writer_varintField 1 (u64_of_i32 activeFeatures) emptyWriter;
          configure = Writer_messageField 2 device configure
      in wdata (Writer_messageField 1 configure emptyWriter))"

definition remoteSetActiveResponse :: "i32 \<Rightarrow> bytes" where
  "remoteSetActiveResponse activeFeatures =
     (let active = Writer_varintField 1 (u64_of_i32 activeFeatures) emptyWriter
      in wdata (Writer_messageField 2 active emptyWriter))"

definition remotePingResponse :: "i32 \<Rightarrow> bytes" where
  "remotePingResponse val =
     (let ping = Writer_varintField 1 (u64_of_u32 val) emptyWriter
      in wdata (Writer_messageField 9 ping emptyWriter))"

definition remoteKey :: "i32 \<Rightarrow> Direction \<Rightarrow> bytes" where
  "remoteKey code direction =
     (let key = Writer_varintField 1 (u64_of_u32 code) emptyWriter;
          key = Writer_varintField 2 (u64_of_i32 (directionCode direction)) key
      in wdata (Writer_messageField 10 key emptyWriter))"

text \<open>\<^verbatim>\<open>static_cast<int32_t>(text.size()) - 1\<close>: the cursor position, truncated to 32 bits.\<close>

definition remoteText :: "string \<Rightarrow> i32 \<Rightarrow> i32 \<Rightarrow> bytes" where
  "remoteText text imeCounter fieldCounter =
     (let pos = word_of_nat (length text) - 1;
          imeObject = Writer_varintField 1 (u64_of_u32 pos) emptyWriter;
          imeObject = Writer_varintField 2 (u64_of_u32 pos) imeObject;
          imeObject = Writer_stringField 3 text imeObject;
          editInfo = Writer_varintField 1 1 emptyWriter;
          editInfo = Writer_messageField 2 imeObject editInfo;
          batch = Writer_varintField 1 (u64_of_u32 imeCounter) emptyWriter;
          batch = Writer_varintField 2 (u64_of_u32 fieldCounter) batch;
          batch = Writer_messageField 3 editInfo batch
      in wdata (Writer_messageField 21 batch emptyWriter))"

definition remoteAppLink :: "string \<Rightarrow> bytes" where
  "remoteAppLink appLink =
     (let launch = Writer_stringField 1 appLink emptyWriter
      in wdata (Writer_messageField 90 launch emptyWriter))"

definition remoteVoiceBegin :: "i32 \<Rightarrow> bytes" where
  "remoteVoiceBegin sessionId =
     (let begn = Writer_varintField 1 (u64_of_u32 sessionId) emptyWriter
      in wdata (Writer_messageField 30 begn emptyWriter))"

definition remoteVoicePayload :: "i32 \<Rightarrow> bytes \<Rightarrow> bytes" where
  "remoteVoicePayload sessionId samples =
     (let payload = Writer_varintField 1 (u64_of_u32 sessionId) emptyWriter;
          payload = Writer_bytesField 2 samples payload
      in wdata (Writer_messageField 31 payload emptyWriter))"

definition remoteVoiceEnd :: "i32 \<Rightarrow> bytes" where
  "remoteVoiceEnd sessionId =
     (let endw = Writer_varintField 1 (u64_of_u32 sessionId) emptyWriter
      in wdata (Writer_messageField 32 endw emptyWriter))"

subsection \<open>Incoming remote messages\<close>

datatype Kind =
    UnknownKind | Configure | SetActive | ImeKeyInject | ImeBatchEdit | Volume | Start | Ping
  | ErrorKind | VoiceBegin

record RemoteIncoming =
  kind :: Kind
  supportedFeatures :: i32
  deviceInfo :: DeviceInfo
  currentApp :: string
  imeCounter :: i32
  fieldCounter :: i32
  volume :: VolumeInfo
  started :: bool
  pingValue :: i32
  voiceSessionId :: i32

definition emptyIncoming :: RemoteIncoming where
  "emptyIncoming =
     \<lparr>kind = UnknownKind, supportedFeatures = 0, deviceInfo = emptyDeviceInfo, currentApp = [],
      imeCounter = 0, fieldCounter = 0, volume = emptyVolumeInfo, started = False,
      pingValue = 0, voiceSessionId = 0\<rparr>"

text \<open>The string a search found, or the default that is already in place.\<close>

definition orString :: "bytes option \<Rightarrow> string \<Rightarrow> string" where
  "orString found dflt = (case found of Some bs \<Rightarrow> bytes_string bs | None \<Rightarrow> dflt)"

definition parseDeviceInfo :: "bytes option \<Rightarrow> DeviceInfo" where
  "parseDeviceInfo info =
     (case info of
        None \<Rightarrow> emptyDeviceInfo
      | Some bs \<Rightarrow>
          \<lparr>manufacturer = orString (findBytes bs 2) [],
           model = orString (findBytes bs 1) [],
           softwareVersion = orString (findBytes bs 6) []\<rparr>)"

text \<open>The body of the loop: \<^term>\<open>Some r\<close> is \<^verbatim>\<open>return result\<close>, \<^const>\<open>None\<close> goes on.\<close>

definition parseRemote_field :: "Field \<Rightarrow> RemoteIncoming option" where
  "parseRemote_field field =
     (if ftype field \<noteq> LengthDelimited then None
      else let n = fnumber field; bs = fbytes field in
        if n = 1 then Some (emptyIncoming\<lparr>kind := Configure,
            supportedFeatures := asI32 (findVarint bs 1),
            deviceInfo := parseDeviceInfo (findBytes bs 2)\<rparr>)
        else if n = 2 then Some (emptyIncoming\<lparr>kind := SetActive\<rparr>)
        else if n = 3 then Some (emptyIncoming\<lparr>kind := ErrorKind\<rparr>)
        else if n = 8 then Some (emptyIncoming\<lparr>kind := Ping, pingValue := asI32 (findVarint bs 1)\<rparr>)
        else if n = 20 then Some (emptyIncoming\<lparr>kind := ImeKeyInject,
            currentApp := (case findBytes bs 1 of
                             None \<Rightarrow> []
                           | Some appInfo \<Rightarrow> orString (findBytes appInfo 12) [])\<rparr>)
        else if n = 21 then Some (emptyIncoming\<lparr>kind := ImeBatchEdit,
            imeCounter := asI32 (findVarint bs 1), fieldCounter := asI32 (findVarint bs 2)\<rparr>)
        else if n = 30 then Some (emptyIncoming\<lparr>kind := VoiceBegin,
            voiceSessionId := asI32 (findVarint bs 1)\<rparr>)
        else if n = 40 then Some (emptyIncoming\<lparr>kind := Start, started := asBool (findVarint bs 1)\<rparr>)
        else if n = 50 then Some (emptyIncoming\<lparr>kind := Volume,
            volume := \<lparr>level = asU32 (findVarint bs 7), maximum = asU32 (findVarint bs 6),
                       muted = asBool (findVarint bs 8)\<rparr>\<rparr>)
        else None)"

definition parseRemote :: "bytes \<Rightarrow> RemoteIncoming" where
  "parseRemote message =
     (case whileNext parseRemote_field (newReader message) emptyField of
        Some result \<Rightarrow> result
      | None \<Rightarrow> emptyIncoming)"

section \<open>Messages as lists of fields\<close>

text \<open>Every builder writes an encoded list of fields, so that the interface's laws apply.\<close>

lemmas writer_defs = encode_fields_def Let_def Writer_messageField_def Writer_stringField_def

lemma pairingOuter_fields:
  "wdata (pairingOuter n inner) = encode_fields [VarintW 1 2, VarintW 2 200, BytesW n (wdata inner)]"
  by (simp add: pairingOuter_def writer_defs)

lemma pairingRequest_fields:
  "pairingRequest name = encode_fields [VarintW 1 2, VarintW 2 200,
     BytesW 10 (encode_fields [BytesW 1 (string_bytes ''atvremote''), BytesW 2 (string_bytes name)])]"
  by (simp add: pairingRequest_def pairingOuter_def writer_defs)

lemma pairingOptions_fields:
  "pairingOptions = encode_fields [VarintW 1 2, VarintW 2 200,
     BytesW 20 (encode_fields [BytesW 1 (encode_fields [VarintW 1 3, VarintW 2 6]), VarintW 3 1])]"
  by (simp add: pairingOptions_def pairingOuter_def writer_defs)

lemma pairingConfiguration_fields:
  "pairingConfiguration = encode_fields [VarintW 1 2, VarintW 2 200,
     BytesW 30 (encode_fields [BytesW 1 (encode_fields [VarintW 1 3, VarintW 2 6]), VarintW 2 1])]"
  by (simp add: pairingConfiguration_def pairingOuter_def writer_defs)

lemma pairingSecretMessage_fields:
  "pairingSecretMessage secret = encode_fields [VarintW 1 2, VarintW 2 200,
     BytesW 40 (encode_fields [BytesW 1 secret])]"
  by (simp add: pairingSecretMessage_def pairingOuter_def writer_defs)

lemma remoteConfigureResponse_fields:
  "remoteConfigureResponse a = encode_fields [BytesW 1 (encode_fields [VarintW 1 (u64_of_i32 a),
     BytesW 2 (encode_fields [VarintW 3 1, BytesW 4 (string_bytes ''1''),
       BytesW 5 (string_bytes ''atvremote''), BytesW 6 (string_bytes ''1.0.0'')])])]"
  by (simp add: remoteConfigureResponse_def writer_defs)

lemma remoteSetActiveResponse_fields:
  "remoteSetActiveResponse a = encode_fields [BytesW 2 (encode_fields [VarintW 1 (u64_of_i32 a)])]"
  by (simp add: remoteSetActiveResponse_def writer_defs)

lemma remotePingResponse_fields:
  "remotePingResponse v = encode_fields [BytesW 9 (encode_fields [VarintW 1 (u64_of_u32 v)])]"
  by (simp add: remotePingResponse_def writer_defs)

lemma remoteKey_fields:
  "remoteKey k d = encode_fields [BytesW 10 (encode_fields
     [VarintW 1 (u64_of_u32 k), VarintW 2 (u64_of_i32 (directionCode d))])]"
  by (simp add: remoteKey_def writer_defs)

lemma remoteText_fields:
  "remoteText t i f = encode_fields [BytesW 21 (encode_fields
     [VarintW 1 (u64_of_u32 i), VarintW 2 (u64_of_u32 f),
      BytesW 3 (encode_fields [VarintW 1 1, BytesW 2 (encode_fields
        [VarintW 1 (u64_of_u32 (word_of_nat (length t) - 1)),
         VarintW 2 (u64_of_u32 (word_of_nat (length t) - 1)),
         BytesW 3 (string_bytes t)])])])]"
  by (simp add: remoteText_def writer_defs)

lemma remoteAppLink_fields:
  "remoteAppLink l = encode_fields [BytesW 90 (encode_fields [BytesW 1 (string_bytes l)])]"
  by (simp add: remoteAppLink_def writer_defs)

lemma remoteVoiceBegin_fields:
  "remoteVoiceBegin i = encode_fields [BytesW 30 (encode_fields [VarintW 1 (u64_of_u32 i)])]"
  by (simp add: remoteVoiceBegin_def writer_defs)

lemma remoteVoicePayload_fields:
  "remoteVoicePayload i bs = encode_fields [BytesW 31 (encode_fields
     [VarintW 1 (u64_of_u32 i), BytesW 2 bs])]"
  by (simp add: remoteVoicePayload_def writer_defs)

lemma remoteVoiceEnd_fields:
  "remoteVoiceEnd i = encode_fields [BytesW 32 (encode_fields [VarintW 1 (u64_of_u32 i)])]"
  by (simp add: remoteVoiceEnd_def writer_defs)

lemmas message_fields_of =
  pairingRequest_fields pairingOptions_fields pairingConfiguration_fields
  pairingSecretMessage_fields remoteConfigureResponse_fields remoteSetActiveResponse_fields
  remotePingResponse_fields remoteKey_fields remoteText_fields remoteAppLink_fields
  remoteVoiceBegin_fields remoteVoicePayload_fields remoteVoiceEnd_fields

text \<open>
  Nested messages are small enough for their length prefix: a bound on the payloads that
  the simplifier can add up.
\<close>

lemma encode_fields_less:
  "sum_list (map payload_length ws) < n \<Longrightarrow> length (encode_fields ws) < n"
  by (rule order_le_less_trans [OF wire.length_encode])

text \<open>Searching along a path of nested messages.\<close>

fun nested :: "bytes \<Rightarrow> u32 list \<Rightarrow> bytes option" where
  "nested m [] = Some m"
| "nested m (n # ns) = (case findBytes m n of None \<Rightarrow> None | Some b \<Rightarrow> nested b ns)"

definition varintOf :: "bytes \<Rightarrow> u32 list \<Rightarrow> u32 \<Rightarrow> u64 option" where
  "varintOf m path n = (case nested m path of None \<Rightarrow> None | Some b \<Rightarrow> findVarint b n)"

lemmas find_encode = wire.find_varint_encode wire.find_bytes_encode wire.has_field_encode

lemma word32_roundtrip [simp]:
  "(ucast (u64_of_u32 x) :: 32 word) = x" "(ucast (u64_of_i32 x) :: 32 word) = x"
  by (rule bit_word_eqI; simp add: u64_of_u32_def u64_of_i32_def bit_simps)+

lemma asI32_roundtrip [simp]:
  "asI32 (Some (u64_of_u32 x)) = x" "asI32 (Some (u64_of_i32 x)) = x" "asU32 (Some (u64_of_u32 x)) = x"
  by (simp_all add: asI32_def asU32_def)

lemmas decode_simps =
  find_encode encode_fields_less varintOf_def

section \<open>Properties of the outgoing messages\<close>

text \<open>
  (C29) The pairing messages carry what the protocol asks for: protocol version 2 and
  status 200 in each of the four messages; the service name and the client name in the request;
  the encoding (hexadecimal, six symbols) and the role in options and configuration; the
  secret in the secret message. The reply tests of the code tell the message apart from
  acknowledgements.
\<close>

theorem pairing_messages_decode:
  assumes "length name < 2 ^ 32" and "length secret < 2 ^ 32"
  shows "varintOf (pairingRequest name) [] 1 = Some 2 \<and> pairingStatus (pairingRequest name) = Some 200 \<and>
     varintOf pairingOptions [] 1 = Some 2 \<and> pairingStatus pairingOptions = Some 200 \<and>
     varintOf pairingConfiguration [] 1 = Some 2 \<and> pairingStatus pairingConfiguration = Some 200 \<and>
     varintOf (pairingSecretMessage secret) [] 1 = Some 2 \<and> pairingStatus (pairingSecretMessage secret) = Some 200 \<and>
     nested (pairingRequest name) [10, 1] = Some (string_bytes ''atvremote'') \<and>
     nested (pairingRequest name) [10, 2] = Some (string_bytes name) \<and>
     hasPairingOptions pairingOptions \<and>
     varintOf pairingOptions [20, 1] 1 = Some 3 \<and> varintOf pairingOptions [20, 1] 2 = Some 6 \<and>
     varintOf pairingOptions [20] 3 = Some 1 \<and>
     varintOf pairingConfiguration [30, 1] 1 = Some 3 \<and>
     varintOf pairingConfiguration [30, 1] 2 = Some 6 \<and>
     varintOf pairingConfiguration [30] 2 = Some 1 \<and>
     nested (pairingSecretMessage secret) [40, 1] = Some secret \<and>
     \<not> hasSecretAck (pairingSecretMessage secret)"
  using assms
  by (simp add: message_fields_of decode_simps pairingStatus_def hasPairingOptions_def hasSecretAck_def)

theorem pairing_messages_decode_witness:
  "varintOf (pairingRequest ''tv'') [] 1 = Some 2 \<and> nested (pairingRequest ''tv'') [10, 2] = Some (string_bytes ''tv'') \<and>
   pairingStatus (pairingSecretMessage [1, 2]) = Some 200 \<and> nested (pairingSecretMessage [1, 2]) [40, 1] = Some [1, 2]"
  using pairing_messages_decode [of "''tv''" "[1, 2]"] by simp

text \<open>
  (C30) The remote commands carry their arguments: a receiver that walks the nested
  fields finds the key code and direction, the echoed ping value, the active features,
  the app link, the session of the voice messages and the voice samples.
\<close>

theorem remote_messages_decode:
  assumes "length link < 2 ^ 32" and "length samples < 2 ^ 32"
  shows "asI32 (varintOf (remoteKey k d) [10] 1) = k \<and>
     asI32 (varintOf (remoteKey k d) [10] 2) = directionCode d \<and>
     asI32 (varintOf (remotePingResponse v) [9] 1) = v \<and>
     asI32 (varintOf (remoteSetActiveResponse a) [2] 1) = a \<and>
     asI32 (varintOf (remoteConfigureResponse a) [1] 1) = a \<and>
     nested (remoteConfigureResponse a) [1, 2, 5] = Some (string_bytes ''atvremote'') \<and>
     nested (remoteAppLink link) [90, 1] = Some (string_bytes link) \<and>
     asI32 (varintOf (remoteVoiceBegin i) [30] 1) = i \<and>
     asI32 (varintOf (remoteVoicePayload i samples) [31] 1) = i \<and>
     nested (remoteVoicePayload i samples) [31, 2] = Some samples \<and>
     asI32 (varintOf (remoteVoiceEnd i) [32] 1) = i"
  using assms by (simp add: message_fields_of decode_simps)

theorem remote_messages_decode_witness:
  "asI32 (varintOf (remoteKey 26 Short) [10] 1) = 26 \<and>
   nested (remoteAppLink ''a'') [90, 1] = Some (string_bytes ''a'')"
  using remote_messages_decode [of "''a''" "[]" 26 Short] by simp

text \<open>
  (C31) Text input carries the text, the IME counters the TV announced, and as both ends
  of the selection the position of the last byte, \<^verbatim>\<open>size - 1\<close>; that is a proper position
  for the non-empty texts \<^verbatim>\<open>sendText\<close> admits.
\<close>

theorem remote_text_decodes:
  assumes "str \<noteq> []" and "length str < 2 ^ 31"
  shows "nested (remoteText str i f) [21, 3, 2, 3] = Some (string_bytes str) \<and>
     asI32 (varintOf (remoteText str i f) [21] 1) = i \<and>
     asI32 (varintOf (remoteText str i f) [21] 2) = f \<and>
     varintOf (remoteText str i f) [21, 3] 1 = Some 1 \<and>
     sint (asI32 (varintOf (remoteText str i f) [21, 3, 2] 1)) = int (length str) - 1 \<and>
     sint (asI32 (varintOf (remoteText str i f) [21, 3, 2] 2)) = int (length str) - 1"
proof -
  obtain m where m: "length str = Suc m"
    using assms(1) by (cases str) simp_all
  then have "sint (word_of_nat (length str) - 1 :: i32) = int (length str) - 1"
    using assms(2) by (simp add: sint_i32_of_nat)
  then show ?thesis
    using assms by (simp add: message_fields_of decode_simps)
qed

theorem remote_text_decodes_witness:
  "nested (remoteText ''hi'' 3 4) [21, 3, 2, 3] = Some (string_bytes ''hi'') \<and>
   sint (asI32 (varintOf (remoteText ''hi'' 3 4) [21, 3, 2] 1)) = 1"
  using remote_text_decodes [of "''hi''" 3 4] by simp

section \<open>Properties of the incoming messages\<close>

text \<open>
  The messages of a TV, as the integration tests of the repository build them: one
  length-delimited field per message, and the record the client is to see.
\<close>

datatype tv_message =
    TvConfigure i32 DeviceInfo | TvSetActive | TvError | TvPing i32 | TvCurrentApp string
  | TvImeCounters i32 i32 | TvVoiceBegin i32 | TvStart bool | TvVolume VolumeInfo

fun tv_field :: "tv_message \<Rightarrow> wfield" where
  "tv_field (TvConfigure a info) = BytesW 1 (encode_fields [VarintW 1 (u64_of_i32 a),
     BytesW 2 (encode_fields [BytesW 1 (string_bytes (model info)),
       BytesW 2 (string_bytes (manufacturer info)), BytesW 6 (string_bytes (softwareVersion info))])])"
| "tv_field TvSetActive = BytesW 2 (encode_fields [VarintW 1 0])"
| "tv_field TvError = BytesW 3 []"
| "tv_field (TvPing v) = BytesW 8 (encode_fields [VarintW 1 (u64_of_u32 v)])"
| "tv_field (TvCurrentApp app) =
     BytesW 20 (encode_fields [BytesW 1 (encode_fields [BytesW 12 (string_bytes app)])])"
| "tv_field (TvImeCounters i f) =
     BytesW 21 (encode_fields [VarintW 1 (u64_of_u32 i), VarintW 2 (u64_of_u32 f)])"
| "tv_field (TvVoiceBegin i) = BytesW 30 (encode_fields [VarintW 1 (u64_of_u32 i)])"
| "tv_field (TvStart b) = BytesW 40 (encode_fields [VarintW 1 (of_bool b)])"
| "tv_field (TvVolume v) = BytesW 50 (encode_fields [VarintW 6 (u64_of_u32 (maximum v)),
     VarintW 7 (u64_of_u32 (level v)), VarintW 8 (of_bool (muted v))])"

fun tv_incoming :: "tv_message \<Rightarrow> RemoteIncoming" where
  "tv_incoming (TvConfigure a info) =
     emptyIncoming\<lparr>kind := Configure, supportedFeatures := a, deviceInfo := info\<rparr>"
| "tv_incoming TvSetActive = emptyIncoming\<lparr>kind := SetActive\<rparr>"
| "tv_incoming TvError = emptyIncoming\<lparr>kind := ErrorKind\<rparr>"
| "tv_incoming (TvPing v) = emptyIncoming\<lparr>kind := Ping, pingValue := v\<rparr>"
| "tv_incoming (TvCurrentApp app) = emptyIncoming\<lparr>kind := ImeKeyInject, currentApp := app\<rparr>"
| "tv_incoming (TvImeCounters i f) =
     emptyIncoming\<lparr>kind := ImeBatchEdit, imeCounter := i, fieldCounter := f\<rparr>"
| "tv_incoming (TvVoiceBegin i) = emptyIncoming\<lparr>kind := VoiceBegin, voiceSessionId := i\<rparr>"
| "tv_incoming (TvStart b) = emptyIncoming\<lparr>kind := Start, started := b\<rparr>"
| "tv_incoming (TvVolume v) = emptyIncoming\<lparr>kind := Volume, volume := v\<rparr>"

fun tv_small :: "tv_message \<Rightarrow> bool" where
  "tv_small (TvConfigure a info) \<longleftrightarrow> length (model info) < 2 ^ 32 \<and>
     length (manufacturer info) < 2 ^ 32 \<and> length (softwareVersion info) < 2 ^ 32"
| "tv_small (TvCurrentApp app) \<longleftrightarrow> length app < 2 ^ 32"
| "tv_small _ \<longleftrightarrow> True"

lemma parseRemote_fields:
  "parseRemote message =
     (case first_Some parseRemote_field (message_fields message) of
        Some result \<Rightarrow> result | None \<Rightarrow> emptyIncoming)"
  by (simp add: parseRemote_def whileNext_fields message_fields_def)

lemma first_Some_append:
  "first_Some f (xs @ ys) = (case first_Some f xs of Some y \<Rightarrow> Some y | None \<Rightarrow> first_Some f ys)"
  by (induction xs) (simp_all split: option.splits)

lemma first_Some_None_iff: "first_Some f xs = None \<longleftrightarrow> list_all (\<lambda>x. f x = None) xs"
  by (induction xs) (simp_all split: option.splits)

lemma tv_field_wf: "tv_small m \<Longrightarrow> wfield_wf (tv_field m)"
  by (cases m) (simp_all add: encode_fields_less)

lemma tv_field_parse:
  assumes "tv_small m"
  shows "parseRemote_field (wfield_field (tv_field m)) = Some (tv_incoming m)"
proof (cases m)
  case (TvConfigure a info)
  with assms show ?thesis
    by (simp add: parseRemote_field_def Let_def decode_simps parseDeviceInfo_def orString_def)
next
  case (TvVolume v)
  then show ?thesis
    by (simp add: parseRemote_field_def Let_def decode_simps asBool_def)
qed (use assms in \<open>simp_all add: parseRemote_field_def Let_def decode_simps orString_def asBool_def\<close>)

text \<open>
  (C13) Round trip of the TV's messages: wherever the message's field stands among fields
  the client does not act on, and whatever follows it, \<^verbatim>\<open>parseRemote\<close> yields the kind and the
  data the TV sent, with every other member at its default.
\<close>

theorem parseRemote_roundtrip:
  assumes "list_all wfield_wf (before @ after)" and "tv_small m"
    and "list_all (\<lambda>w. parseRemote_field (wfield_field w) = None) before"
  shows "parseRemote (encode_fields (before @ tv_field m # after)) = tv_incoming m"
proof -
  have "message_fields (encode_fields (before @ tv_field m # after)) =
      map wfield_field (before @ tv_field m # after)"
    unfolding encode_fields_eq using assms(1) tv_field_wf [OF assms(2)]
    by (intro message_fields_wfields) simp
  moreover have "first_Some parseRemote_field (map wfield_field before) = None"
    using assms(3) by (simp add: first_Some_None_iff list.pred_map comp_def)
  ultimately show ?thesis
    by (simp add: parseRemote_fields first_Some_append tv_field_parse [OF assms(2)])
qed

theorem parseRemote_roundtrip_witness:
  "parseRemote (encode_fields ([VarintW 7 1] @ tv_field (TvPing 123) # [])) =
     emptyIncoming\<lparr>kind := Ping, pingValue := 123\<rparr>"
  using parseRemote_roundtrip [of "[VarintW 7 1]" "[]" "TvPing 123"]
  by (simp add: parseRemote_field_def)

text \<open>
  On any bytes whatsoever the kind of the result is that of the first
  length-delimited field with a number the client knows, and \<^verbatim>\<open>Unknown\<close> exactly when the
  reader meets none; scalar fields and unknown numbers are skipped.
\<close>

definition kindOfNumber :: "u32 \<Rightarrow> Kind option" where
  "kindOfNumber = map_of [(1, Configure), (2, SetActive), (3, ErrorKind), (8, Ping),
     (20, ImeKeyInject), (21, ImeBatchEdit), (30, VoiceBegin), (40, Start), (50, Volume)]"

definition recognised :: "Field \<Rightarrow> Kind option" where
  "recognised f = (if ftype f = LengthDelimited then kindOfNumber (fnumber f) else None)"

lemma parseRemote_field_kind: "map_option kind (parseRemote_field f) = recognised f"
  by (simp add: parseRemote_field_def recognised_def kindOfNumber_def Let_def)

lemma first_Some_map_option:
  "map_option g (first_Some f xs) = first_Some (\<lambda>x. map_option g (f x)) xs"
  by (induction xs) (simp_all split: option.splits)

lemma parseRemote_kind:
  "kind (parseRemote message) =
     (case first_Some recognised (message_fields message) of
        Some k \<Rightarrow> k | None \<Rightarrow> UnknownKind)"
proof -
  have "first_Some recognised (message_fields message) =
      map_option kind (first_Some parseRemote_field (message_fields message))"
    by (simp add: first_Some_map_option parseRemote_field_kind)
  then show ?thesis
    by (simp add: parseRemote_fields emptyIncoming_def split: option.splits)
qed

end
