(* ===== verification/Pairing.thy ===== *)
theory Pairing
  imports Certificate Protocol_Messages
begin

text \<open>
  \<^verbatim>\<open>src/pairing.hpp\<close> and \<^verbatim>\<open>src/pairing.cpp\<close>: the blocking TLS connection and the pairing
  session built on it.

  The network is a parameter: a \<^verbatim>\<open>tls_peer\<close> says whether name resolution, connecting and
  the handshake fail, which certificate the peer shows, the bytes it sends before it closes
  and how many bytes the transport takes before a write fails. Each connection attempt of a
  session meets its own peer. A connection is owned by one \<^verbatim>\<open>unique_ptr\<close>, so it is a value in the
  session (a member \<^verbatim>\<open>x_\<close> is \<^verbatim>\<open>m_x\<close>); connections that were closed stay in the ghost field
  \<^verbatim>\<open>m_closed\<close> with what they sent.
\<close>

section \<open>Definitions\<close>

subsection \<open>The connection\<close>

record tls_peer =
  resolveFails :: bool
  connectFails :: bool
  handshakeFails :: bool
  script :: bytes
  accepts :: nat
  shown :: "X509 option"

record SyncTlsConnection =
  m_context :: ssl_context
  established :: bool
  rx :: bytes
  tx :: bytes
  txLimit :: nat
  peerCert :: "X509 option"

definition newSyncTlsConnection ::
    "'md ossl \<Rightarrow> filesystem \<Rightarrow> path \<Rightarrow> path \<Rightarrow> (exn, SyncTlsConnection) result" where
  "newSyncTlsConnection os fs certificateFile privateKeyFile =
     (case loadClientIdentity os fs certificateFile privateKeyFile (Some (newSslContext\<lparr>verifyNone := True\<rparr>)) of
        (Inl e, _) \<Rightarrow> Inl e
      | (Inr _, None) \<Rightarrow> Inl Undefined_behaviour
      | (Inr _, Some ctx) \<Rightarrow>
          Inr \<lparr>m_context = ctx, established = False, rx = [], tx = [], txLimit = 0, peerCert = None\<rparr>)"

definition SyncTlsConnection_connect :: "tls_peer \<Rightarrow> (SyncTlsConnection, unit) io" where
  "SyncTlsConnection_connect peer c =
     (if resolveFails peer then (Inl (System_error ''resolve''), c)
      else if connectFails peer then (Inl (System_error ''connect''), c)
      else if handshakeFails peer then (Inl (System_error ''handshake''), c)
      else (Inr (), c\<lparr>established := True, rx := script peer, txLimit := accepts peer,
                     peerCert := shown peer\<rparr>))"

text \<open>\<^verbatim>\<open>asio::write\<close> and \<^verbatim>\<open>asio::read\<close> on the stream: all the bytes or an error.\<close>

definition stream_write :: "bytes \<Rightarrow> (SyncTlsConnection, unit) io" where
  "stream_write bs c =
     (if established c \<and> length (tx c) + length bs \<le> txLimit c
      then (Inr (), c\<lparr>tx := tx c @ bs\<rparr>)
      else (Inl (System_error ''write''), c\<lparr>tx := tx c @ take (txLimit c - length (tx c)) bs\<rparr>))"

definition stream_read :: "nat \<Rightarrow> (SyncTlsConnection, bytes) io" where
  "stream_read n c =
     (if n \<le> length (rx c) then (Inr (take n (rx c)), c\<lparr>rx := drop n (rx c)\<rparr>)
      else (Inl (System_error ''read''), c\<lparr>rx := []\<rparr>))"

definition SyncTlsConnection_send :: "bytes \<Rightarrow> (SyncTlsConnection, unit) io" where
  "SyncTlsConnection_send payload = (let framed = frame payload in stream_write framed)"

text \<open>
  The loop that reads the length prefix: at most ten rounds, since the shift grows by seven
  and may not pass 63.
\<close>

function receive_length :: "u64 \<Rightarrow> nat \<Rightarrow> (SyncTlsConnection, u64) io" where
  "receive_length len shift c =
     io_bind (stream_read 1) (\<lambda>bs.
       let byte = hd bs;
           len = len OR push_bit shift (ucast (byte AND 0x7f))
       in if byte AND 0x80 = 0 then io_return len
          else let shift = shift + 7
          in if 63 < shift then io_throw (Runtime_error ''invalid protobuf frame length'')
             else receive_length len shift) c"
  by pat_completeness auto
termination
  by (relation "measure (\<lambda>(len, shift, c). 64 - shift)") auto

declare receive_length.simps [simp del]

definition SyncTlsConnection_receive :: "(SyncTlsConnection, bytes) io" where
  "SyncTlsConnection_receive =
     io_bind (receive_length 0 0) (\<lambda>len.
       if 4 * 1024 * 1024 < len then io_throw (Runtime_error ''protobuf frame exceeds safety limit'')
       else if unat len = 0 then io_return []
       else stream_read (unat len))"

definition SyncTlsConnection_peerCertificate :: "SyncTlsConnection \<Rightarrow> X509 option" where
  "SyncTlsConnection_peerCertificate c = (if established c then peerCert c else None)"

definition loadCertificate :: "'md ossl \<Rightarrow> path \<Rightarrow> filesystem \<Rightarrow> (exn, X509) result" where
  "loadCertificate os p fs =
     (case readFile p fs of
        Inl _ \<Rightarrow> Inl (Runtime_error ''unable to open client certificate'')
      | Inr pem \<Rightarrow>
          (if \<not> BIO_new_mem_buf os pem
           then Inl (Runtime_error ''unable to allocate client certificate BIO'')
           else case PEM_read_bio_X509 os pem of
             None \<Rightarrow> Inl (Runtime_error ''unable to read client certificate PEM'')
           | Some raw \<Rightarrow> Inr raw))"

definition requirePairingStatusOk :: "bytes \<Rightarrow> (exn, unit) result" where
  "requirePairingStatusOk message =
     (case pairingStatus message of
        Some status \<Rightarrow>
          if status = 200 then Inr ()
          else Inl (Runtime_error ''Android TV pairing protocol returned an error status'')
      | None \<Rightarrow> Inl (Runtime_error ''Android TV pairing protocol returned an error status''))"

subsection \<open>The session\<close>

record PairingSession =
  m_clientName :: string
  m_certificateFile :: path
  m_privateKeyFile :: path
  m_host :: string
  m_port :: "16 word"
  m_connection :: "SyncTlsConnection option"
  m_fs :: filesystem
  m_bns :: bn_store
  m_peers :: "string \<Rightarrow> 16 word \<Rightarrow> nat \<Rightarrow> tls_peer"
  m_attempts :: nat
  m_closed :: "SyncTlsConnection list"

definition newPairingSession ::
    "string \<Rightarrow> path \<Rightarrow> path \<Rightarrow> string \<Rightarrow> 16 word \<Rightarrow> filesystem \<Rightarrow> bn_store \<Rightarrow>
     (string \<Rightarrow> 16 word \<Rightarrow> nat \<Rightarrow> tls_peer) \<Rightarrow> PairingSession" where
  "newPairingSession clientName certificateFile privateKeyFile host port fs bns peers =
     \<lparr>m_clientName = clientName, m_certificateFile = certificateFile, m_privateKeyFile = privateKeyFile,
      m_host = host, m_port = port, m_connection = None, m_fs = fs, m_bns = bns, m_peers = peers,
      m_attempts = 0, m_closed = []\<rparr>"

text \<open>
  Assigning or resetting the \<^verbatim>\<open>unique_ptr\<close> destroys, and so closes, the connection it held.
\<close>

definition set_connection :: "SyncTlsConnection option \<Rightarrow> (PairingSession, unit) io" where
  "set_connection c s =
     (Inr (), s\<lparr>m_connection := c,
        m_closed := m_closed s @ (case m_connection s of None \<Rightarrow> [] | Some old \<Rightarrow> [old])\<rparr>)"

text \<open>A call through \<^verbatim>\<open>connection_->\<close>; a null pointer is undefined behaviour.\<close>

definition on_connection :: "(SyncTlsConnection, 'a) io \<Rightarrow> (PairingSession, 'a) io" where
  "on_connection m s =
     (case m_connection s of
        None \<Rightarrow> (Inl Undefined_behaviour, s)
      | Some c \<Rightarrow> (case m c of (r, c') \<Rightarrow> (r, s\<lparr>m_connection := Some c'\<rparr>)))"

definition connect_peer :: "(PairingSession, tls_peer) io" where
  "connect_peer s = (Inr (m_peers s (m_host s) (m_port s) (m_attempts s)), s\<lparr>m_attempts := m_attempts s + 1\<rparr>)"

text \<open>The loop of \<^verbatim>\<open>start\<close>: the argument is the number of steps left, the result is \<^verbatim>\<open>configured\<close>.\<close>

fun start_loop :: "nat \<Rightarrow> (PairingSession, bool) io" where
  "start_loop 0 = io_return False"
| "start_loop (Suc steps) =
     io_bind (on_connection SyncTlsConnection_receive) (\<lambda>message.
     io_bind (io_lift (requirePairingStatusOk message)) (\<lambda>_.
       if hasPairingRequestAck message
       then io_bind (on_connection (SyncTlsConnection_send pairingOptions)) (\<lambda>_. start_loop steps)
       else if hasPairingOptions message
       then io_bind (on_connection (SyncTlsConnection_send pairingConfiguration)) (\<lambda>_. start_loop steps)
       else if hasConfigurationAck message then io_return True
       else start_loop steps))"

definition PairingSession_start :: "'md ossl \<Rightarrow> (PairingSession, unit) io" where
  "PairingSession_start os s =
     io_bind (io_lift (newSyncTlsConnection os (m_fs s) (m_certificateFile s) (m_privateKeyFile s))) (\<lambda>c.
     io_bind (set_connection (Some c)) (\<lambda>_.
     io_bind connect_peer (\<lambda>peer.
     io_bind (on_connection (SyncTlsConnection_connect peer)) (\<lambda>_.
     io_bind (on_connection (SyncTlsConnection_send (pairingRequest (m_clientName s)))) (\<lambda>_.
     io_bind (start_loop 8) (\<lambda>configured.
       if \<not> configured
       then io_bind (set_connection None) (\<lambda>_.
         io_throw (Runtime_error ''pairing handshake did not reach configuration acknowledgement''))
       else io_return ())))))) s"

text \<open>The loop of \<^verbatim>\<open>finish\<close>; the result is \<^verbatim>\<open>acknowledged\<close>.\<close>

fun finish_loop :: "nat \<Rightarrow> (PairingSession, bool) io" where
  "finish_loop 0 = io_return False"
| "finish_loop (Suc steps) =
     io_bind (on_connection SyncTlsConnection_receive) (\<lambda>message.
     io_bind (io_lift (requirePairingStatusOk message)) (\<lambda>_.
       if hasSecretAck message then io_return True else finish_loop steps))"

text \<open>\<^verbatim>\<open>pairingSecret\<close> works on the thread-local RSA numbers, not on the session.\<close>

definition on_numbers :: "(bn_store, 'a) io \<Rightarrow> (PairingSession, 'a) io" where
  "on_numbers m s = (case m (m_bns s) of (r, b) \<Rightarrow> (r, s\<lparr>m_bns := b\<rparr>))"

definition PairingSession_finish :: "'md ossl \<Rightarrow> string \<Rightarrow> (PairingSession, unit) io" where
  "PairingSession_finish os code s =
     (case m_connection s of
        None \<Rightarrow> (Inl (Runtime_error ''finishPairing called before startPairing''), s)
      | Some c \<Rightarrow>
     io_bind (io_lift (loadCertificate os (m_certificateFile s) (m_fs s))) (\<lambda>clientCert.
     io_bind (io_some (SyncTlsConnection_peerCertificate c)
       (Runtime_error ''Android TV did not present a TLS certificate'')) (\<lambda>serverCert.
     io_bind (on_numbers (pairingSecret os clientCert serverCert code)) (\<lambda>secret.
     io_bind (on_connection (SyncTlsConnection_send (pairingSecretMessage secret))) (\<lambda>_.
     io_bind (finish_loop 4) (\<lambda>acknowledged.
     io_bind (set_connection None) (\<lambda>_.
     io_require acknowledged
       (Runtime_error ''Android TV did not acknowledge the pairing secret'')))))) ) s)"

text \<open>\<^verbatim>\<open>getNameAndMac\<close> has a connection of its own, destroyed on return.\<close>

definition PairingSession_getNameAndMac :: "'md ossl \<Rightarrow> (PairingSession, DeviceIdentity) io" where
  "PairingSession_getNameAndMac os s =
     io_bind (io_lift (newSyncTlsConnection os (m_fs s) (m_certificateFile s) (m_privateKeyFile s))) (\<lambda>c.
     io_bind connect_peer (\<lambda>peer.
       (case SyncTlsConnection_connect peer c of
          (Inl e, _) \<Rightarrow> io_throw e
        | (Inr _, c') \<Rightarrow>
            io_bind (io_some (SyncTlsConnection_peerCertificate c')
              (Runtime_error ''Android TV did not present a TLS certificate'')) (\<lambda>certificate.
            io_return (parseDeviceIdentity os (Some certificate)))))) s"

section \<open>Receiving frames\<close>

lemma stream_read_1 [simp]:
  "stream_read (Suc 0) (c\<lparr>rx := b # bs\<rparr>) = (Inr [b], c\<lparr>rx := bs\<rparr>)"
  "stream_read (Suc 0) (c\<lparr>rx := []\<rparr>) = (Inl (System_error ''read''), c\<lparr>rx := []\<rparr>)"
  by (simp_all add: stream_read_def)

lemma receive_length_step:
  "receive_length len shift (c\<lparr>rx := b # bs\<rparr>) =
     (let len = len OR push_bit shift (ucast (b AND 0x7f))
      in if b AND 0x80 = 0 then (Inr len, c\<lparr>rx := bs\<rparr>)
         else if 63 < shift + 7 then (Inl (Runtime_error ''invalid protobuf frame length''), c\<lparr>rx := bs\<rparr>)
         else receive_length len (shift + 7) (c\<lparr>rx := bs\<rparr>))"
  "receive_length len shift (c\<lparr>rx := []\<rparr>) = (Inl (System_error ''read''), c\<lparr>rx := []\<rparr>)"
  by (subst receive_length.simps; simp add: io_bind_def Let_def io_return_def io_throw_def)+

lemma receive_length_decode:
  assumes "shift \<le> 63"
  shows "case varint_decode bs len shift of
     Some (v, rest) \<Rightarrow> receive_length len shift (c\<lparr>rx := bs\<rparr>) = (Inr v, c\<lparr>rx := rest\<rparr>)
   | None \<Rightarrow> (\<exists>rest. receive_length len shift (c\<lparr>rx := bs\<rparr>) = (Inl (System_error ''read''), c\<lparr>rx := rest\<rparr>) \<or>
       receive_length len shift (c\<lparr>rx := bs\<rparr>) = (Inl (Runtime_error ''invalid protobuf frame length''), c\<lparr>rx := rest\<rparr>))"
  using assms
proof (induction bs arbitrary: len shift)
  case Nil
  then show ?case
    by (auto simp: receive_length_step)
next
  case (Cons b bs)
  let ?len = "len OR push_bit shift (ucast (b AND 0x7f))"
  have over: "63 < shift + 7 \<Longrightarrow> varint_decode bs ?len (shift + 7) = None"
    by (cases bs) auto
  show ?case
  proof (cases "b AND 0x80 = 0 \<or> 63 < shift + 7")
    case True
    with Cons.prems over show ?thesis
      by (auto simp: receive_length_step Let_def)
  next
    case False
    then have "shift + 7 \<le> 63" by simp
    moreover have "varint_decode (b # bs) len shift = varint_decode bs ?len (shift + 7)"
      using Cons.prems False by simp
    moreover have "receive_length len shift (c\<lparr>rx := b # bs\<rparr>) = receive_length ?len (shift + 7) (c\<lparr>rx := bs\<rparr>)"
      using False by (simp add: receive_length_step)
    ultimately show ?thesis
      using Cons.IH by presburger
  qed
qed

text \<open>The loop is one more reader of length prefixes.\<close>

definition receive_prefix :: "bytes \<Rightarrow> (u64 \<times> bytes) option" where
  "receive_prefix bs =
     (case receive_length 0 0 \<lparr>m_context = newSslContext, established = True, rx = bs, tx = [],
              txLimit = 0, peerCert = None\<rparr> of
        (Inr v, c) \<Rightarrow> Some (v, rx c)
      | (Inl _, _) \<Rightarrow> None)"

lemma receive_prefix_decode: "receive_prefix bs = varint_decode bs 0 0"
  using receive_length_decode [where shift = 0 and len = 0 and bs = bs and c = "\<lparr>m_context = newSslContext, established = True, rx = bs, tx = [],
    txLimit = 0, peerCert = None\<rparr>"]
  by (auto simp: receive_prefix_def split: option.splits)

interpretation rcv: prefix_reader receive_prefix
  by unfold_locales (simp_all add: receive_prefix_decode varint_decode_consumes)

lemma rx_self [simp]: "c\<lparr>rx := rx c\<rparr> = (c :: SyncTlsConnection)"
  by (cases c) simp

lemma receive_Inr_iff:
  "SyncTlsConnection_receive c = (Inr p, c') \<longleftrightarrow>
     length p \<le> 4194304 \<and> c' = c\<lparr>rx := rx c'\<rparr> \<and> rcv.read_frame (rx c) = Some (p, rx c')"
proof (cases "varint_decode (rx c) 0 0")
  case None
  then obtain e d where "receive_length 0 0 c = (Inl e, d)"
    using receive_length_decode [where shift = 0 and len = 0 and bs = "rx c" and c = c] by auto
  with None show ?thesis
    by (simp add: SyncTlsConnection_receive_def io_bind_def rcv.read_frame_def receive_prefix_decode)
next
  case (Some vr)
  obtain v rest where vr: "vr = (v, rest)" by (cases vr)
  have "receive_length 0 0 c = (Inr v, c\<lparr>rx := rest\<rparr>)"
    using receive_length_decode [where shift = 0 and len = 0 and bs = "rx c" and c = c] Some vr by simp
  moreover have "4 * 1024 * 1024 < v \<longleftrightarrow> 4194304 < unat v"
    by (simp add: word_less_nat_alt)
  ultimately show ?thesis
    using Some vr
    by (cases "unat v = 0"; cases c; cases c')
       (auto simp: SyncTlsConnection_receive_def io_bind_def rcv.read_frame_def receive_prefix_decode
         stream_read_def io_return_def io_throw_def)
qed

lemma receive_Inl:
  assumes "SyncTlsConnection_receive c = (Inl e, c')"
  shows "e \<noteq> Undefined_behaviour \<and> (\<forall>m. e \<noteq> Invalid_argument m) \<and> c' = c\<lparr>rx := rx c'\<rparr>"
proof (cases "varint_decode (rx c) 0 0")
  case None
  then show ?thesis
    using receive_length_decode [where shift = 0 and len = 0 and bs = "rx c" and c = c] assms
    by (auto simp: SyncTlsConnection_receive_def io_bind_def)
next
  case (Some vr)
  obtain v rest where vr: "vr = (v, rest)" by (cases vr)
  have "receive_length 0 0 c = (Inr v, c\<lparr>rx := rest\<rparr>)"
    using receive_length_decode [where shift = 0 and len = 0 and bs = "rx c" and c = c] Some vr by simp
  with assms show ?thesis
    by (auto simp: SyncTlsConnection_receive_def io_bind_def stream_read_def io_return_def io_throw_def
        split: if_splits)
qed

lemma receive_frame:
  "length p \<le> 4194304 \<Longrightarrow> SyncTlsConnection_receive (c\<lparr>rx := frame p @ rest\<rparr>) = (Inr p, c\<lparr>rx := rest\<rparr>)"
  by (simp add: receive_Inr_iff rcv.read_frame_frame)

text \<open>
  (C23) The blocking receiver reads exactly what the framing sends: a frame of up to four
  megabytes is returned and the bytes after it stay unread. Whatever it returns was
  announced by a prefix of at most ten bytes, stays within the limit, and only the unread input
  of the connection changes.
\<close>

theorem receive_reads_one_frame:
  assumes "SyncTlsConnection_receive c = (Inr p, c')"
  shows "length p \<le> 4 * 1024 * 1024 \<and> c' = c\<lparr>rx := rx c'\<rparr> \<and>
     (\<exists>pre. rx c = pre @ p @ rx c' \<and> pre \<noteq> [] \<and> length pre \<le> 10) \<and>
     (\<forall>q rest. length q \<le> 4 * 1024 * 1024 \<longrightarrow>
        SyncTlsConnection_receive (c\<lparr>rx := frame q @ rest\<rparr>) = (Inr q, c\<lparr>rx := rest\<rparr>))"
proof -
  from assms have *: "length p \<le> 4194304" "c' = c\<lparr>rx := rx c'\<rparr>" "rcv.read_frame (rx c) = Some (p, rx c')"
    by (simp_all add: receive_Inr_iff)
  then obtain n rest where "receive_prefix (rx c) = Some (n, rest)" and "rest = p @ rx c'"
    by (auto simp: rcv.read_frame_def split: option.splits if_splits) (metis append_take_drop_id)
  with rcv.consumes * receive_frame show ?thesis
    by fastforce
qed

theorem receive_reads_one_frame_witness:
  "\<exists>c'. SyncTlsConnection_receive \<lparr>m_context = newSslContext, established = True, rx = [2, 7, 8, 9], tx = [],
      txLimit = 0, peerCert = None\<rparr> = (Inr [7, 8], c') \<and> rx c' = [9]"
proof -
  let ?c = "\<lparr>m_context = newSslContext, established = True, rx = [2, 7, 8, 9], tx = [], txLimit = 0, peerCert = None\<rparr>"
  have run: "SyncTlsConnection_receive ?c = (Inr [7, 8], ?c\<lparr>rx := [9]\<rparr>)"
    by code_simp
  from receive_reads_one_frame [OF run] run show ?thesis
    by auto
qed

section \<open>The handshake as a protocol\<close>

text \<open>
  The client's side of the handshake on the level of messages: what it answers to each message
  of the TV, and how it ends. The result is the outcome and the messages sent; a TV that
  has nothing more to say has closed the connection.
\<close>

definition status_ok :: "bytes \<Rightarrow> bool" where
  "status_ok m \<longleftrightarrow> pairingStatus m = Some 200"

definition answer :: "bytes \<Rightarrow> bytes list" where
  "answer m = (if hasPairingRequestAck m then [pairingOptions]
     else if hasPairingOptions m then [pairingConfiguration] else [])"

definition configures :: "bytes \<Rightarrow> bool" where
  "configures m \<longleftrightarrow> hasConfigurationAck m \<and> answer m = []"

fun handshake_spec :: "nat \<Rightarrow> bytes list \<Rightarrow> (exn, bool) result \<times> bytes list" where
  "handshake_spec 0 ms = (Inr False, [])"
| "handshake_spec (Suc n) [] = (Inl (System_error ''read''), [])"
| "handshake_spec (Suc n) (m # ms) =
     (if \<not> status_ok m
      then (Inl (Runtime_error ''Android TV pairing protocol returned an error status''), [])
      else if configures m then (Inr True, [])
      else case handshake_spec n ms of (r, out) \<Rightarrow> (r, answer m @ out))"

definition frames :: "bytes list \<Rightarrow> bytes" where
  "frames ms = concat (map frame ms)"

lemma frames_simps [simp]:
  "frames [] = []" "frames (m # ms) = frame m @ frames ms" "frames (ms @ ms') = frames ms @ frames ms'"
  by (simp_all add: frames_def)

lemma requirePairingStatusOk_eq:
  "requirePairingStatusOk m = (if status_ok m then Inr ()
     else Inl (Runtime_error ''Android TV pairing protocol returned an error status''))"
  by (auto simp: requirePairingStatusOk_def status_ok_def split: option.splits)

lemma on_connection_run:
  "m_connection s = Some c \<Longrightarrow> m c = (r, c') \<Longrightarrow> on_connection m s = (r, s\<lparr>m_connection := Some c'\<rparr>)"
  by (simp add: on_connection_def)

lemma send_run:
  "established c \<Longrightarrow> length (tx c) + length (frame p) \<le> txLimit c \<Longrightarrow>
     SyncTlsConnection_send p c = (Inr (), c\<lparr>tx := tx c @ frame p\<rparr>)"
  by (simp add: SyncTlsConnection_send_def stream_write_def)

lemma on_connection_send:
  "established c \<Longrightarrow> length (tx c) + length (frame p) \<le> txLimit c \<Longrightarrow>
     on_connection (SyncTlsConnection_send p) (s\<lparr>m_connection := Some (c\<lparr>rx := q\<rparr>)\<rparr>) =
       (Inr (), s\<lparr>m_connection := Some (c\<lparr>tx := tx c @ frame p, rx := q\<rparr>)\<rparr>)"
  by (cases c) (simp add: on_connection_def send_run)

text \<open>
  On a transport that takes all the answers, the loop is the specification: same outcome,
  and the frames of the answers are what it adds to the sent bytes.
\<close>

lemma start_loop_spec:
  assumes "established c" and "list_all (\<lambda>m. length m \<le> 4194304) ms"
    and "handshake_spec n ms = (r, out)" and "length (tx c) + length (frames out) \<le> txLimit c"
  shows "\<exists>rest. start_loop n (s\<lparr>m_connection := Some (c\<lparr>rx := frames ms\<rparr>)\<rparr>) =
     (r, s\<lparr>m_connection := Some (c\<lparr>tx := tx c @ frames out, rx := rest\<rparr>)\<rparr>)"
  using assms
proof (induction n ms arbitrary: c r out rule: handshake_spec.induct)
  case (1 ms)
  then show ?case
    by (auto simp: io_return_def intro!: exI [of _ "frames ms"])
next
  case (2 n)
  have "SyncTlsConnection_receive (c\<lparr>rx := []\<rparr>) = (Inl (System_error ''read''), c\<lparr>rx := []\<rparr>)"
    by (simp add: SyncTlsConnection_receive_def io_bind_def receive_length_step)
  with 2 show ?case
    by (auto simp: io_bind_def on_connection_def)
next
  case (3 n m ms)
  let ?s = "s\<lparr>m_connection := Some (c\<lparr>rx := frame m @ frames ms\<rparr>)\<rparr>"
  let ?s1 = "s\<lparr>m_connection := Some (c\<lparr>rx := frames ms\<rparr>)\<rparr>"
  have recv: "on_connection SyncTlsConnection_receive ?s = (Inr m, ?s1)"
    using 3 by (simp add: on_connection_def receive_frame)
  show ?case
  proof (cases "status_ok m \<and> \<not> configures m")
    case False
    with 3 recv show ?thesis
      by (auto simp: io_bind_def requirePairingStatusOk_eq io_throw_def io_return_def configures_def
          answer_def split: if_splits intro!: exI [of _ "frames ms"])
  next
    case True
    then obtain out' where out: "handshake_spec n ms = (r, out')" "out = answer m @ out'"
      using "3.prems"(3) by (auto split: prod.splits)
    let ?c = "c\<lparr>tx := tx c @ frames (answer m)\<rparr>"
    have "\<exists>rest. start_loop n (s\<lparr>m_connection := Some (?c\<lparr>rx := frames ms\<rparr>)\<rparr>) =
        (r, s\<lparr>m_connection := Some (?c\<lparr>tx := tx ?c @ frames out', rx := rest\<rparr>)\<rparr>)"
      using True out "3.prems" by (intro "3.IH") auto
    then have rest: "\<exists>rest. start_loop n (s\<lparr>m_connection := Some (?c\<lparr>rx := frames ms\<rparr>)\<rparr>) =
        (r, s\<lparr>m_connection := Some (c\<lparr>tx := tx c @ frames out, rx := rest\<rparr>)\<rparr>)"
      by (simp add: out)
    have "start_loop (Suc n) ?s = start_loop n (s\<lparr>m_connection := Some (?c\<lparr>rx := frames ms\<rparr>)\<rparr>)"
      using True "3.prems" out
      by (auto simp: io_bind_def recv requirePairingStatusOk_eq answer_def configures_def io_return_def
          on_connection_send)
    with rest show ?thesis
      by simp
  qed
qed

text \<open>The second half: what the client does with the replies to the secret.\<close>

fun secret_spec_replies :: "nat \<Rightarrow> bytes list \<Rightarrow> (exn, bool) result" where
  "secret_spec_replies 0 ms = Inr False"
| "secret_spec_replies (Suc n) [] = Inl (System_error ''read'')"
| "secret_spec_replies (Suc n) (m # ms) =
     (if \<not> status_ok m then Inl (Runtime_error ''Android TV pairing protocol returned an error status'')
      else if hasSecretAck m then Inr True
      else secret_spec_replies n ms)"

lemma finish_loop_spec:
  assumes "list_all (\<lambda>m. length m \<le> 4194304) ms"
  shows "\<exists>rest. finish_loop n (s\<lparr>m_connection := Some (c\<lparr>rx := frames ms\<rparr>)\<rparr>) =
     (secret_spec_replies n ms, s\<lparr>m_connection := Some (c\<lparr>rx := rest\<rparr>)\<rparr>)"
  using assms
proof (induction n ms rule: secret_spec_replies.induct)
  case (1 ms)
  then show ?case
    by (auto simp: io_return_def intro!: exI [of _ "frames ms"])
next
  case (2 n)
  have "SyncTlsConnection_receive (c\<lparr>rx := []\<rparr>) = (Inl (System_error ''read''), c\<lparr>rx := []\<rparr>)"
    by (simp add: SyncTlsConnection_receive_def io_bind_def receive_length_step)
  then show ?case
    by (auto simp: io_bind_def on_connection_def)
next
  case (3 n m ms)
  have recv: "on_connection SyncTlsConnection_receive (s\<lparr>m_connection := Some (c\<lparr>rx := frame m @ frames ms\<rparr>)\<rparr>) =
      (Inr m, s\<lparr>m_connection := Some (c\<lparr>rx := frames ms\<rparr>)\<rparr>)"
    using 3 by (simp add: on_connection_def receive_frame)
  show ?case
  proof (cases "status_ok m \<and> \<not> hasSecretAck m")
    case True
    then have "finish_loop (Suc n) (s\<lparr>m_connection := Some (c\<lparr>rx := frames (m # ms)\<rparr>)\<rparr>) =
        finish_loop n (s\<lparr>m_connection := Some (c\<lparr>rx := frames ms\<rparr>)\<rparr>)"
      by (simp add: io_bind_def recv requirePairingStatusOk_eq io_return_def)
    with True 3 show ?thesis
      by simp
  next
    case False
    then show ?thesis
      by (intro exI [of _ "frames ms"])
         (auto simp: io_bind_def recv requirePairingStatusOk_eq io_throw_def io_return_def)
  qed
qed

text \<open>What \<open>start\<close> and \<open>finish\<close> make of the loops' outcome.\<close>

definition loop_outcome :: "string \<Rightarrow> (exn, bool) result \<Rightarrow> (exn, unit) result" where
  "loop_outcome failure r =
     (case r of Inl e \<Rightarrow> Inl e | Inr okay \<Rightarrow> if okay then Inr () else Inl (Runtime_error failure))"

text \<open>
  (C10) \<open>start\<close> carries out the handshake of the specification against any TV: it fails and succeeds
  as the specification says, and what it has sent is the frame of the pairing request
  followed by the frames of the answers, in order. The connection is dropped exactly when eight
  messages brought no configuration acknowledgement.
\<close>

theorem start_refines_handshake:
  assumes conn: "newSyncTlsConnection os (m_fs s) (m_certificateFile s) (m_privateKeyFile s) = Inr c0"
    and peer: "peer = m_peers s (m_host s) (m_port s) (m_attempts s)"
      "\<not> resolveFails peer" "\<not> connectFails peer" "\<not> handshakeFails peer"
    and ms: "script peer = frames ms" "list_all (\<lambda>m. length m \<le> 4194304) ms"
    and spec: "handshake_spec 8 ms = (r, out)"
    and room: "length (frames (pairingRequest (m_clientName s) # out)) \<le> accepts peer"
  shows "\<exists>c s'. PairingSession_start os s =
       (loop_outcome ''pairing handshake did not reach configuration acknowledgement'' r, s') \<and>
     tx c = frames (pairingRequest (m_clientName s) # out) \<and> established c \<and> peerCert c = shown peer \<and>
     (if r = Inr False then m_connection s' = None \<and> last (m_closed s') = c else m_connection s' = Some c)"
proof -
  have c0: "tx c0 = []"
    using conn by (auto simp: newSyncTlsConnection_def split: prod.splits sum.splits option.splits)
  let ?c = "c0\<lparr>established := True, txLimit := accepts peer, peerCert := shown peer\<rparr>"
  let ?c1 = "?c\<lparr>tx := frame (pairingRequest (m_clientName s))\<rparr>"
  let ?s = "snd (set_connection (Some c0) s)\<lparr>m_attempts := m_attempts s + 1\<rparr>"
  let ?s1 = "?s\<lparr>m_connection := Some (?c1\<lparr>rx := frames ms\<rparr>)\<rparr>"
  have "PairingSession_start os s = io_bind (start_loop 8) (\<lambda>configured.
       if \<not> configured
       then io_bind (set_connection None) (\<lambda>_.
         io_throw (Runtime_error ''pairing handshake did not reach configuration acknowledgement''))
       else io_return ()) ?s1"
    using assms c0
    by (cases c0) (simp add: PairingSession_start_def io_bind_def set_connection_def connect_peer_def io_return_def
        on_connection_def SyncTlsConnection_connect_def send_run)
  moreover obtain rest where "start_loop 8 ?s1 =
      (r, ?s\<lparr>m_connection := Some (?c1\<lparr>tx := tx ?c1 @ frames out, rx := rest\<rparr>)\<rparr>)"
    using start_loop_spec [OF _ ms(2) spec, of ?c1 ?s] room by auto
  ultimately show ?thesis
    by (intro exI [of _ "?c1\<lparr>tx := tx ?c1 @ frames out, rx := rest\<rparr>"])
       (auto simp: loop_outcome_def io_bind_def set_connection_def io_throw_def io_return_def
         split: sum.splits if_splits)
qed

lemma send_Inl:
  "SyncTlsConnection_send p c = (Inl e, c') \<Longrightarrow> e = System_error ''write''"
  by (auto simp: SyncTlsConnection_send_def stream_write_def split: if_splits)

text \<open>
  (C12) \<open>finish\<close> sends the secret once, in one frame, and nothing else; it succeeds when one of at
  most four replies of status 200 acknowledges the secret, and fails as the replies say
  otherwise. After the replies are in, the session has no connection any more; a reply that
  cannot be read or reports an error leaves it in place.
\<close>

theorem finish_refines_replies:
  assumes conn: "m_connection s = Some c" "established c" "peerCert c = Some srv"
    and cert: "loadCertificate os (m_certificateFile s) (m_fs s) = Inr cl"
    and secret: "pairingSecret os cl srv code (m_bns s) = (Inr sec, b)"
    and ms: "rx c = frames ms" "list_all (\<lambda>m. length m \<le> 4194304) ms"
    and room: "length (tx c) + length (frame (pairingSecretMessage sec)) \<le> txLimit c"
  shows "\<exists>c' s'. PairingSession_finish os code s =
       (loop_outcome ''Android TV did not acknowledge the pairing secret'' (secret_spec_replies 4 ms), s') \<and>
     tx c' = tx c @ frame (pairingSecretMessage sec) \<and>
     (case secret_spec_replies 4 ms of
        Inr _ \<Rightarrow> m_connection s' = None \<and> last (m_closed s') = c'
      | Inl _ \<Rightarrow> m_connection s' = Some c')"
proof -
  let ?s = "s\<lparr>m_bns := b\<rparr>"
  let ?c = "c\<lparr>tx := tx c @ frame (pairingSecretMessage sec)\<rparr>"
  obtain rest where "finish_loop 4 (?s\<lparr>m_connection := Some (?c\<lparr>rx := frames ms\<rparr>)\<rparr>) =
      (secret_spec_replies 4 ms, ?s\<lparr>m_connection := Some (?c\<lparr>rx := rest\<rparr>)\<rparr>)"
    using finish_loop_spec [OF ms(2)] by blast
  moreover have "?c\<lparr>rx := frames ms\<rparr> = ?c"
    using ms(1) by (cases c) simp
  ultimately have "PairingSession_finish os code s =
      io_bind (\<lambda>_. (secret_spec_replies 4 ms, ?s\<lparr>m_connection := Some (?c\<lparr>rx := rest\<rparr>)\<rparr>)) (\<lambda>acknowledged.
        io_bind (set_connection None) (\<lambda>_. io_require acknowledged
          (Runtime_error ''Android TV did not acknowledge the pairing secret''))) s"
    using assms
    by (simp add: PairingSession_finish_def SyncTlsConnection_peerCertificate_def on_numbers_def io_bind_def
        on_connection_def send_run io_return_def)
  then show ?thesis
    by (intro exI [of _ "?c\<lparr>rx := rest\<rparr>"])
       (auto simp: io_bind_def loop_outcome_def set_connection_def io_require_def io_throw_def io_return_def
         split: sum.splits)
qed

section \<open>Errors of a session\<close>

text \<open>
  A session whose connection exists and whose RSA numbers are in order, and the exceptions that are
  neither undefined behaviour nor a complaint about an argument.
\<close>

definition live :: "PairingSession \<Rightarrow> bool" where
  "live s \<longleftrightarrow> m_connection s \<noteq> None \<and> store_wf (m_bns s)"

definition io_exn :: "exn \<Rightarrow> bool" where
  "io_exn e \<longleftrightarrow> e \<noteq> Undefined_behaviour \<and> (\<forall>m. e \<noteq> Invalid_argument m)"

abbreviation failed :: "exn \<Rightarrow> PairingSession \<Rightarrow> bool" where
  "failed e s \<equiv> io_exn e \<and> store_wf (m_bns s)"

lemma io_exn_simps [simp]:
  "io_exn (Runtime_error m)" "io_exn (System_error m)" "io_exn Filesystem_error"
  by (simp_all add: io_exn_def)

lemma on_connection_triple:
  assumes "\<And>c e c'. m c = (Inl e, c') \<Longrightarrow> io_exn e"
  shows "io_triple live (on_connection m) (\<lambda>_. live) failed"
  using assms by (intro io_tripleI) (fastforce simp: live_def on_connection_def split: prod.splits)+

lemma receive_triple: "io_triple live (on_connection SyncTlsConnection_receive) (\<lambda>_. live) failed"
  by (rule on_connection_triple) (simp add: io_exn_def receive_Inl)

lemma send_triple: "io_triple live (on_connection (SyncTlsConnection_send p)) (\<lambda>_. live) failed"
  by (rule on_connection_triple) (auto dest: send_Inl)

lemma connect_triple: "io_triple live (on_connection (SyncTlsConnection_connect p)) (\<lambda>_. live) failed"
  by (rule on_connection_triple) (auto simp: SyncTlsConnection_connect_def split: if_splits)

lemma status_triple:
  "io_triple live (io_lift (requirePairingStatusOk m)) (\<lambda>_. live) failed"
  by (auto simp: io_triple_def requirePairingStatusOk_eq io_return_def io_throw_def live_def)

lemma io_triple_if:
  "(c \<Longrightarrow> io_triple P m Q E) \<Longrightarrow> (\<not> c \<Longrightarrow> io_triple P m' Q E) \<Longrightarrow> io_triple P (if c then m else m') Q E"
  by simp

lemmas session_triples = receive_triple send_triple connect_triple status_triple io_triple_if

lemma start_loop_triple: "io_triple live (start_loop n) (\<lambda>_. live) failed"
proof (induction n)
  case 0
  show ?case by (simp add: io_triple_return)
next
  case (Suc n)
  then show ?case
    unfolding start_loop.simps by - (rule session_triples io_triple_bind io_triple_return | assumption)+
qed

lemma finish_loop_triple: "io_triple live (finish_loop n) (\<lambda>_. live) failed"
proof (induction n)
  case 0
  show ?case by (simp add: io_triple_return)
next
  case (Suc n)
  then show ?case
    unfolding finish_loop.simps by - (rule session_triples io_triple_bind io_triple_return | assumption)+
qed

lemma readFile_exn: "readFile p fs = Inl e \<Longrightarrow> io_exn e"
  by (auto simp: readFile_def split: if_splits option.splits file_node.splits)

lemma loadCertificate_exn: "loadCertificate os p fs = Inl e \<Longrightarrow> io_exn e"
  by (auto simp: loadCertificate_def split: sum.splits if_splits option.splits)

lemma newSyncTlsConnection_exn: "newSyncTlsConnection os fs p q = Inl e \<Longrightarrow> io_exn e"
  by (auto simp: newSyncTlsConnection_def loadClientIdentity_def loadIdentity_def installIdentity_def io_bind_Inl_iff
      io_lift_def io_require_def io_some_def Let_def io_return_def io_throw_def
      split: prod.splits sum.splits if_splits option.splits dest: readFile_exn)

abbreviation numbers_ok :: "PairingSession \<Rightarrow> bool" where
  "numbers_ok s \<equiv> store_wf (m_bns s)"

lemma open_triple:
  "io_triple numbers_ok (io_lift (newSyncTlsConnection os fs p q)) (\<lambda>_. numbers_ok) failed"
  by (cases "newSyncTlsConnection os fs p q")
     (auto simp: io_triple_def io_return_def io_throw_def dest: newSyncTlsConnection_exn)

lemma set_connection_triple:
  "io_triple numbers_ok (set_connection (Some c)) (\<lambda>_. live) failed"
  "io_triple live (set_connection None) (\<lambda>_. numbers_ok) failed"
  by (simp_all add: io_triple_def set_connection_def live_def)

lemma connect_peer_triple:
  "io_triple live connect_peer (\<lambda>_. live) failed"
  "io_triple numbers_ok connect_peer (\<lambda>_. numbers_ok) failed"
  by (simp_all add: io_triple_def connect_peer_def live_def)

lemma throw_triple: "(\<And>s. P s \<Longrightarrow> E e s) \<Longrightarrow> io_triple P (io_throw e) Q E"
  by (simp add: io_triple_def io_throw_def)

lemma start_triple:
  "io_triple (\<lambda>t. numbers_ok t \<and> t = s) (PairingSession_start os) (\<lambda>_. numbers_ok) failed"
proof -
  have "io_triple numbers_ok
     (io_bind (io_lift (newSyncTlsConnection os (m_fs s) (m_certificateFile s) (m_privateKeyFile s))) (\<lambda>c.
     io_bind (set_connection (Some c)) (\<lambda>_.
     io_bind connect_peer (\<lambda>peer.
     io_bind (on_connection (SyncTlsConnection_connect peer)) (\<lambda>_.
     io_bind (on_connection (SyncTlsConnection_send (pairingRequest (m_clientName s)))) (\<lambda>_.
     io_bind (start_loop 8) (\<lambda>configured.
       if \<not> configured
       then io_bind (set_connection None) (\<lambda>_.
         io_throw (Runtime_error ''pairing handshake did not reach configuration acknowledgement''))
       else io_return ())))))))
     (\<lambda>_. numbers_ok) failed"
    by (rule open_triple set_connection_triple connect_peer_triple session_triples start_loop_triple
        io_triple_bind io_triple_return throw_triple | simp add: live_def)+
  then show ?thesis
    by (auto simp: io_triple_def PairingSession_start_def)
qed

lemma secret_triple:
  "io_triple live (on_numbers (pairingSecret os a b code)) (\<lambda>_. live)
     (\<lambda>e s. e \<noteq> Undefined_behaviour \<and> numbers_ok s)"
  by (rule io_tripleI)
     (auto simp: on_numbers_def live_def split: prod.splits dest: io_tripleD [OF pairingSecret_triple])

lemma io_triple_exn:
  "io_triple P m Q E \<Longrightarrow> (\<And>e s. E e s \<Longrightarrow> E' e s) \<Longrightarrow> io_triple P m Q E'"
  by (auto simp: io_triple_def split: prod.splits sum.splits)

text \<open>The part of \<open>finish\<close> after the local checks.\<close>

lemma submit_triple:
  "io_triple live
     (io_bind (on_connection (SyncTlsConnection_send p)) (\<lambda>_.
      io_bind (finish_loop n) (\<lambda>acknowledged.
      io_bind (set_connection None) (\<lambda>_. io_require acknowledged (Runtime_error x)))))
     (\<lambda>_. numbers_ok) failed"
proof -
  have "io_triple numbers_ok (io_require b (Runtime_error x)) (\<lambda>_. numbers_ok) failed" for b
    by (simp add: io_triple_def io_require_def io_return_def io_throw_def)
  then show ?thesis
    by - (rule send_triple finish_loop_triple set_connection_triple(2) io_triple_bind | assumption)+
qed

lemma finish_cases:
  assumes "m_connection s = Some c" and "PairingSession_finish os code s = (r, s')"
  obtains e where "r = Inl e" "io_exn e" "s' = s"
  | a b t e where "on_numbers (pairingSecret os a b code) s = (Inl e, t)" "r = Inl e" "s' = t"
  | a b t sec where "on_numbers (pairingSecret os a b code) s = (Inr sec, t)"
      "io_bind (on_connection (SyncTlsConnection_send (pairingSecretMessage sec))) (\<lambda>_.
       io_bind (finish_loop 4) (\<lambda>acknowledged.
       io_bind (set_connection None) (\<lambda>_. io_require acknowledged
         (Runtime_error ''Android TV did not acknowledge the pairing secret'')))) t = (r, s')"
proof -
  from assms consider e where "loadCertificate os (m_certificateFile s) (m_fs s) = Inl e" "r = Inl e" "s' = s"
    | a where "loadCertificate os (m_certificateFile s) (m_fs s) = Inr a"
        "SyncTlsConnection_peerCertificate c = None" "r = Inl (Runtime_error ''Android TV did not present a TLS certificate'')" "s' = s"
    | a b where "loadCertificate os (m_certificateFile s) (m_fs s) = Inr a" "SyncTlsConnection_peerCertificate c = Some b"
    by (cases "loadCertificate os (m_certificateFile s) (m_fs s)"; cases "SyncTlsConnection_peerCertificate c")
       (auto simp: PairingSession_finish_def io_throw_def)
  then show thesis
  proof cases
    case 1
    then show ?thesis using that(1) loadCertificate_exn by blast
  next
    case 2
    then show ?thesis using that(1) by simp
  next
    case (3 a b)
    obtain x t where "on_numbers (pairingSecret os a b code) s = (x, t)" by fastforce
    with 3 assms that(2,3) [of a b] show ?thesis
      by (cases x) (simp_all add: PairingSession_finish_def io_bind_def)
  qed
qed

text \<open>
  A code that is refused on this side (mistyped, or not matching the two certificates) leaves the
  session as it was: the connection is kept, nothing is sent, and the caller may try again.
\<close>

lemma bad_code_keeps_session:
  assumes "numbers_ok s" and "PairingSession_finish os code s = (Inl (Invalid_argument m), s')"
  shows "s' = s\<lparr>m_bns := m_bns s'\<rparr> \<and> numbers_ok s' \<and> m_connection s' \<noteq> None"
proof -
  from assms(2) obtain c where c: "m_connection s = Some c"
    by (cases "m_connection s") (auto simp: PairingSession_finish_def)
  then have live: "live s"
    using assms(1) by (simp add: live_def)
  from c assms(2) show ?thesis
  proof (cases rule: finish_cases)
    case (2 a b t e)
    moreover have "numbers_ok t"
      using io_tripleD(2) [OF secret_triple live 2(1)] by simp
    ultimately show ?thesis
      using c by (auto simp: on_numbers_def split: prod.splits)
  next
    case (3 a b t sec)
    have "live t"
      using io_tripleD(1) [OF secret_triple live 3(1)] .
    from io_tripleD(2) [OF submit_triple this 3(2)] show ?thesis
      by (simp add: io_exn_def)
  qed (auto simp: io_exn_def)
qed

text \<open>
  (C21) No operation of a session calls through a null connection or a freed number, whatever the
  network, the files and OpenSSL do, and in whatever order the operations come.
\<close>

theorem session_memory_safe:
  assumes "numbers_ok s"
  shows "fst (PairingSession_start os s) \<noteq> Inl Undefined_behaviour \<and> numbers_ok (snd (PairingSession_start os s)) \<and>
     fst (PairingSession_finish os code s) \<noteq> Inl Undefined_behaviour \<and> numbers_ok (snd (PairingSession_finish os code s)) \<and>
     fst (PairingSession_getNameAndMac os s) \<noteq> Inl Undefined_behaviour \<and>
     numbers_ok (snd (PairingSession_getNameAndMac os s))"
proof -
  have start: "fst (PairingSession_start os s) \<noteq> Inl Undefined_behaviour \<and> numbers_ok (snd (PairingSession_start os s))"
  proof (cases "PairingSession_start os s")
    case (Pair r s')
    then show ?thesis
      using io_tripleD [OF start_triple [of s os], of s] assms by (cases r) (auto simp: io_exn_def)
  qed
  have finish: "fst (PairingSession_finish os code s) \<noteq> Inl Undefined_behaviour \<and> numbers_ok (snd (PairingSession_finish os code s))"
  proof (cases "m_connection s")
    case None
    with assms show ?thesis
      by (simp add: PairingSession_finish_def)
  next
    case (Some c)
    then have live: "live s"
      using assms by (simp add: live_def)
    obtain r s' where run: "PairingSession_finish os code s = (r, s')" by fastforce
    from Some run show ?thesis
    proof (cases rule: finish_cases)
      case (3 a b t sec)
      have "live t"
        using io_tripleD(1) [OF secret_triple live 3(1)] .
      from io_tripleD [OF submit_triple this] 3(2) run show ?thesis
        by (cases r) (auto simp: io_exn_def)
    next
      case (2 a b t e)
      from io_tripleD(2) [OF secret_triple live 2(1)] 2 run show ?thesis
        by simp
    qed (use run assms in \<open>auto simp: io_exn_def\<close>)
  qed
  have "fst (PairingSession_getNameAndMac os s) \<noteq> Inl Undefined_behaviour \<and> numbers_ok (snd (PairingSession_getNameAndMac os s))"
    using assms
    by (cases "newSyncTlsConnection os (m_fs s) (m_certificateFile s) (m_privateKeyFile s)")
       (auto simp: PairingSession_getNameAndMac_def SyncTlsConnection_connect_def connect_peer_def io_bind_def
         io_some_def io_return_def io_throw_def io_exn_def split: option.splits dest: newSyncTlsConnection_exn)
  with start finish show ?thesis
    by simp
qed

section \<open>A concrete TV\<close>

definition sample_tv :: "bytes list \<Rightarrow> tls_peer" where
  "sample_tv ms = \<lparr>resolveFails = False, connectFails = False, handshakeFails = False, script = frames ms,
     accepts = 200, shown = Some 2\<rparr>"

definition sample_message :: "u32 \<Rightarrow> bytes" where
  "sample_message n = wdata (pairingOuter n emptyWriter)"

definition sample_files :: filesystem where
  "sample_files = emptyFilesystem\<lparr>files := [[''d'', ''c''] \<mapsto> Regular (sample_pem CHR ''C'' 7),
     [''d'', ''k''] \<mapsto> Regular (sample_pem CHR ''K'' 7)]\<rparr>"

definition sample_session :: "bytes list \<Rightarrow> PairingSession" where
  "sample_session ms = newPairingSession ''phone'' [''d'', ''c''] [''d'', ''k''] ''tv'' 6467 sample_files
     emptyStore (\<lambda>_ _ _. sample_tv ms)"

lemma sample_open:
  "\<exists>c. newSyncTlsConnection sample_ossl (m_fs (sample_session ms)) (m_certificateFile (sample_session ms))
     (m_privateKeyFile (sample_session ms)) = Inr c"
  by (simp add: newSyncTlsConnection_def sample_session_def newPairingSession_def sample_files_def
      loadClientIdentity_def loadIdentity_def installIdentity_def readFile_def sample_ossl_def sample_pem_def sample_unpem_def
      emptyFilesystem_def Let_def)

lemma sample_message_length: "map (\<lambda>n. length (sample_message n)) [11, 20, 31, 41] = [7, 8, 8, 8]"
  by code_simp

theorem start_refines_handshake_witness:
  "\<exists>c s'. PairingSession_start sample_ossl (sample_session (map sample_message [11, 20, 31])) = (Inr (), s') \<and>
     m_connection s' = Some c \<and> tx c = frames [pairingRequest ''phone'', pairingOptions, pairingConfiguration]"
proof -
  let ?s = "sample_session (map sample_message [11, 20, 31])"
  obtain c where c: "newSyncTlsConnection sample_ossl (m_fs ?s) (m_certificateFile ?s) (m_privateKeyFile ?s) = Inr c"
    using sample_open by blast
  have spec: "handshake_spec 8 (map sample_message [11, 20, 31]) = (Inr True, [pairingOptions, pairingConfiguration])"
    by code_simp
  have room: "length (frames [pairingRequest ''phone'', pairingOptions, pairingConfiguration]) \<le> 200"
    by code_simp
  have small: "list_all (\<lambda>m. length m \<le> 4194304) (map sample_message [11, 20, 31])"
    using sample_message_length by simp
  from start_refines_handshake [OF c refl _ _ _ _ small spec] room show ?thesis
    by (auto simp: sample_session_def newPairingSession_def sample_tv_def loop_outcome_def)
qed

theorem session_memory_safe_witness:
  "fst (PairingSession_finish sample_ossl ''ABC'' (sample_session [])) \<noteq> Inl Undefined_behaviour"
  using session_memory_safe [of "sample_session []" sample_ossl "''ABC''"]
  by (simp add: sample_session_def newPairingSession_def store_wf_empty)

text \<open>A session after the handshake, with the replies of the TV still to be read.\<close>

definition sample_connected :: "bytes list \<Rightarrow> PairingSession" where
  "sample_connected ms = (sample_session [])\<lparr>m_connection := Some
     \<lparr>m_context = newSslContext, established = True, rx = frames ms, tx = [], txLimit = 200, peerCert = Some 2\<rparr>\<rparr>"

lemma sample_secret:
  "fst (pairingSecret sample_ossl 7 2 ''ADC0DE'' emptyStore) = Inr (0xAD # replicate 31 0)"
  by (simp add: pairingSecret_def hexToBytes_def nibble_def rsaNumbers_def rsaNumbers_3_def sample_ossl_def be_bytes_def
      io_bind_def io_return_def bn_alloc_def bn_free_def emptyStore_def bnBytes_def digest_update_def
      sample_digest_def Let_def)

theorem finish_refines_replies_witness:
  "\<exists>c' s'. PairingSession_finish sample_ossl ''ADC0DE'' (sample_connected [sample_message 41]) = (Inr (), s') \<and>
     m_connection s' = None \<and> last (m_closed s') = c' \<and>
     tx c' = frame (pairingSecretMessage (0xAD # replicate 31 0))"
proof -
  let ?s = "sample_connected [sample_message 41]"
  have cert: "loadCertificate sample_ossl (m_certificateFile ?s) (m_fs ?s) = Inr 7"
    by (simp add: loadCertificate_def sample_connected_def sample_session_def newPairingSession_def sample_files_def
        readFile_def sample_ossl_def sample_pem_def sample_unpem_def emptyFilesystem_def)
  have secret: "pairingSecret sample_ossl 7 2 ''ADC0DE'' (m_bns ?s) =
      (Inr (0xAD # replicate 31 0), snd (pairingSecret sample_ossl 7 2 ''ADC0DE'' emptyStore))"
    using sample_secret
    by (simp add: sample_connected_def sample_session_def newPairingSession_def prod_eq_iff)
  have spec: "secret_spec_replies 4 [sample_message 41] = Inr True"
    by code_simp
  have room: "length (frame (pairingSecretMessage (0xAD # replicate 31 0))) \<le> 200"
    by code_simp
  show ?thesis
    using finish_refines_replies [OF _ _ _ cert secret, of _ "[sample_message 41]"] spec room sample_message_length
    by (auto simp: sample_connected_def loop_outcome_def)
qed

lemma sample_bad_code:
  "PairingSession_finish sample_ossl ''ADC0D'' (sample_connected []\<lparr>m_fs := sample_files, m_bns := emptyStore\<rparr>) =
     (Inl (Invalid_argument ''pairing code must contain exactly 6 hexadecimal digits''),
      sample_connected []\<lparr>m_fs := sample_files, m_bns := emptyStore\<rparr>)"
  by (simp add: PairingSession_finish_def loadCertificate_def sample_connected_def sample_session_def
      newPairingSession_def sample_files_def readFile_def sample_ossl_def sample_pem_def sample_unpem_def
      emptyFilesystem_def SyncTlsConnection_peerCertificate_def on_numbers_def pairingSecret_def
      io_throw_def io_bind_def)

end
