(* ===== verification/Key_Codes.thy ===== *)
theory Key_Codes
  imports Remote_Types "HOL-Library.Sublist"
begin

text \<open>
  Key names: \<^verbatim>\<open>upperKeyName\<close> and \<^verbatim>\<open>keyCodeFromName\<close> of \<^verbatim>\<open>src/android_tv_remote.cpp\<close>,
  declared in \<^verbatim>\<open>include/androidtvremote/key_codes.hpp\<close>.
\<close>

section \<open>Definitions\<close>

text \<open>\<^verbatim>\<open>std::toupper\<close> in the default C locale: it maps the 26 ASCII letters.\<close>

definition toupper :: "char \<Rightarrow> char" where
  "toupper c =
     (let n = (of_char c :: nat) in if 97 \<le> n \<and> n \<le> 122 then char_of (n - 32) else c)"

definition upperKeyName :: "string \<Rightarrow> string" where
  "upperKeyName input =
     (let val = map toupper input
      in if take 8 val = ''KEYCODE_'' then drop 8 val else val)"

definition keyCodeTable :: "(string \<times> i32) list" where
  "keyCodeTable =
    [(''HOME'', 3), (''BACK'', 4),
     (''0'', 7), (''1'', 8), (''2'', 9), (''3'', 10), (''4'', 11),
     (''5'', 12), (''6'', 13), (''7'', 14), (''8'', 15), (''9'', 16),
     (''DPAD_UP'', 19), (''DPAD_DOWN'', 20), (''DPAD_LEFT'', 21),
     (''DPAD_RIGHT'', 22), (''DPAD_CENTER'', 23),
     (''VOLUME_UP'', 24), (''VOLUME_DOWN'', 25), (''POWER'', 26),
     (''ENTER'', 66), (''DEL'', 67), (''SEARCH'', 84), (''MEDIA_PLAY_PAUSE'', 85),
     (''PAGE_UP'', 92), (''PAGE_DOWN'', 93), (''MUTE'', 91), (''VOLUME_MUTE'', 164),
     (''CHANNEL_UP'', 166), (''CHANNEL_DOWN'', 167)]"

definition keyCodeFromName :: "string \<Rightarrow> i32 option" where
  "keyCodeFromName name = map_of keyCodeTable (upperKeyName name)"

section \<open>Lemmas\<close>

lemma toupper_idem [simp]: "toupper (toupper c) = toupper c"
proof -
  have "(of_char c :: nat) < 256"
    by simp
  then show ?thesis
    by (auto simp: toupper_def Let_def)
qed

lemma upperKeyName_toupper: "upperKeyName (map toupper s) = upperKeyName s"
  by (simp add: upperKeyName_def comp_def)

lemma upperKeyName_cong: "map toupper s = map toupper t \<Longrightarrow> upperKeyName s = upperKeyName t"
  by (simp add: upperKeyName_def)

lemma upperKeyName_prefix:
  assumes "map toupper p = ''KEYCODE_''"
  shows "upperKeyName (p @ s) = map toupper s"
  using assms by (simp add: upperKeyName_def)

lemma distinct_keyCodeTable: "distinct (map fst keyCodeTable)"
  by (simp add: keyCodeTable_def)

lemma table_names_resolve: "list_all (\<lambda>(name, k). keyCodeFromName name = Some k) keyCodeTable"
  by code_simp

lemma keyCodeFromName_range: "{k. \<exists>name. keyCodeFromName name = Some k} = snd ` set keyCodeTable"
proof (intro equalityI subsetI)
  fix k
  assume "k \<in> {k. \<exists>name. keyCodeFromName name = Some k}"
  then obtain name where "map_of keyCodeTable (upperKeyName name) = Some k"
    by (auto simp: keyCodeFromName_def)
  then show "k \<in> snd ` set keyCodeTable"
    by (force dest: map_of_SomeD)
next
  fix k
  assume "k \<in> snd ` set keyCodeTable"
  with table_names_resolve show "k \<in> {k. \<exists>name. keyCodeFromName name = Some k}"
    by (force simp: list_all_iff)
qed

lemma named_keyCodes: "keyCode ` (UNIV - {KeyUnknown}) = snd ` set keyCodeTable - {91}"
  unfolding UNIV_enum enum_KeyCode_def keyCodeTable_def by auto

section \<open>Properties\<close>

text \<open>
  (C36) Names are resolved case-insensitively and the \<^verbatim>\<open>KEYCODE_\<close> prefix is optional, as
  the header promises: spellings that agree up to case resolve alike, and a prefix in any
  case can be put before a name that does not already start with it.
\<close>

theorem key_names_case_and_prefix:
  assumes "map toupper s = map toupper t" and "map toupper p = ''KEYCODE_''"
    and "take 8 (map toupper t) \<noteq> ''KEYCODE_''"
  shows "keyCodeFromName (p @ s) = keyCodeFromName t \<and> keyCodeFromName s = keyCodeFromName t"
  using assms upperKeyName_prefix [OF assms(2), of s] upperKeyName_cong [OF assms(1)]
  by (simp add: keyCodeFromName_def upperKeyName_def)

theorem key_names_case_and_prefix_witness:
  "keyCodeFromName (''keycode_'' @ ''dpad_up'') = keyCodeFromName ''DPAD_UP'' \<and>
   keyCodeFromName ''dpad_up'' = keyCodeFromName ''DPAD_UP''"
  by (rule key_names_case_and_prefix) (code_simp+)

text \<open>
  The name table and the enumeration agree: the codes the names resolve to are
  exactly the codes of the enumerators of \<^verbatim>\<open>KeyCode\<close> other than \<^verbatim>\<open>Unknown\<close>, and 91, the
  code of \<^verbatim>\<open>MUTE\<close>, which has no enumerator; no two names share a code.
\<close>

lemma key_table_matches_enum:
  "{k. \<exists>name. keyCodeFromName name = Some k} = insert 91 (keyCode ` (UNIV - {KeyUnknown})) \<and>
   distinct (map snd keyCodeTable)"
proof
  have "91 \<in> snd ` set keyCodeTable"
    by (simp add: keyCodeTable_def)
  then show "{k. \<exists>name. keyCodeFromName name = Some k} = insert 91 (keyCode ` (UNIV - {KeyUnknown}))"
    unfolding keyCodeFromName_range named_keyCodes by blast
  show "distinct (map snd keyCodeTable)"
    by (simp add: keyCodeTable_def)
qed

end
