(* ===== verification/Remote_Impl.thy ===== *)
theory Remote_Impl
  imports Pairing Key_Codes
begin

text \<open>
  The class \<^verbatim>\<open>AndroidTvRemote::Impl\<close> of \<^verbatim>\<open>src/android_tv_remote.cpp\<close>: its state as a record (the
  member \<^verbatim>\<open>x_\<close> is the field \<^verbatim>\<open>m_x\<close>), one function per method, completion handler and posted task.

  Boost.Asio is the environment. An asynchronous operation adds its completion handler to
  \<^verbatim>\<open>m_pending\<close>, with the values the lambda captures; a task given to \<^verbatim>\<open>asio::post\<close> goes to the end of
  \<^verbatim>\<open>m_tasks\<close>. Both run later on the one I/O thread, in steps that the theory \<^verbatim>\<open>Remote_Steps\<close>
  defines. A wait on a timer is waiting, has fired (its handler is queued with no error), or was
  aborted by \<^verbatim>\<open>cancel\<close> or \<^verbatim>\<open>expires_after\<close>, which have no effect on one that has fired.
  The user's callbacks are the log \<^verbatim>\<open>m_out\<close>.
\<close>

section \<open>Data\<close>

record Options =
  o_clientName :: string
  o_certificateFile :: path
  o_privateKeyFile :: path
  o_host :: string
  o_apiPort :: "16 word"
  o_pairingPort :: "16 word"
  o_enableIme :: bool
  o_enableVoice :: bool
  o_autoReconnect :: bool

definition defaultOptions :: Options where
  "defaultOptions = \<lparr>o_clientName = ''Android TV Remote'', o_certificateFile = [], o_privateKeyFile = [],
     o_host = [], o_apiPort = 6466, o_pairingPort = 6467, o_enableIme = True, o_enableVoice = False,
     o_autoReconnect = True\<rparr>"

text \<open>Which of the \<^verbatim>\<open>std::function\<close> members are set.\<close>

record Callbacks =
  onConnectionState :: bool
  onPowerChanged :: bool
  onCurrentAppChanged :: bool
  onVolumeChanged :: bool
  onDeviceInfoChanged :: bool
  onAvailabilityChanged :: bool
  onAuthenticationRequired :: bool
  onVoiceStarted :: bool
  onVoiceStopped :: bool
  onError :: bool

definition noCallbacks :: Callbacks where
  "noCallbacks = \<lparr>onConnectionState = False, onPowerChanged = False, onCurrentAppChanged = False,
     onVolumeChanged = False, onDeviceInfoChanged = False, onAvailabilityChanged = False,
     onAuthenticationRequired = False, onVoiceStarted = False, onVoiceStopped = False, onError = False\<rparr>"

text \<open>A call of a callback.\<close>

datatype callback_call =
    ConnectionStateIs ConnectionState
  | PowerChanged bool
  | CurrentAppChanged string
  | VolumeChanged VolumeInfo
  | DeviceInfoChanged DeviceInfo
  | AvailabilityChanged bool
  | AuthenticationRequired
  | VoiceStarted i32
  | VoiceStopped
  | ErrorReported string

datatype timer = ReconnectTimer | IdleTimer | VoiceTimer

text \<open>Completion handlers with what they capture; a write also has the buffer it refers to.\<close>

datatype handler =
    ResolveH u64
  | ConnectH u64
  | HandshakeH u64
  | ReadByteH u64
  | ReadBodyH u64
  | WriteH u64 bytes
  | ReconnectH
  | IdleH u64
  | VoiceH

datatype wait = Waiting | Fired | Aborted

fun timer_of :: "handler \<Rightarrow> timer option" where
  "timer_of ReconnectH = Some ReconnectTimer"
| "timer_of (IdleH _) = Some IdleTimer"
| "timer_of VoiceH = Some VoiceTimer"
| "timer_of _ = None"

text \<open>The tasks the public operations post.\<close>

datatype task =
    ConnectT
  | DisconnectT
  | DisconnectAndWaitT
  | MessageT bytes
  | TextT string
  | StartVoiceT
  | VoiceDataT bytes
  | StopVoiceT
  | ShutdownT

text \<open>
  \<^verbatim>\<open>m_files\<close> and \<^verbatim>\<open>m_numbers\<close> are the world the certificate code works on. Ghost fields:
  \<^verbatim>\<open>m_queued\<close> and \<^verbatim>\<open>m_written\<close> are the frames accepted and completely written since the stream was
  last closed, \<^verbatim>\<open>m_received\<close> and \<^verbatim>\<open>m_handled\<close> the bytes read and the messages handled since then, \<^verbatim>\<open>m_undefined\<close> is set by a call through a null \<^verbatim>\<open>stream_\<close> or \<^verbatim>\<open>sslContext_\<close>.
\<close>

record Impl =
  m_options :: Options
  m_callbacks :: Callbacks
  m_deviceInfo :: DeviceInfo
  m_volumeInfo :: VolumeInfo
  m_currentApp :: string
  m_isOn :: bool
  m_voiceEnabled :: bool
  m_state :: ConnectionState
  m_shuttingDown :: bool
  m_pairing :: "PairingSession option"
  m_work :: bool
  m_sslContext :: "ssl_context option"
  m_stream :: "ssl_context option"
  m_expiry :: "timer \<Rightarrow> nat"
  m_userDisconnect :: bool
  m_reconnectDelay :: nat
  m_activeFeatures :: i32
  m_supportedFeatures :: i32
  m_imeCounter :: i32
  m_imeFieldCounter :: i32
  m_voiceStarting :: bool
  m_voiceSessionId :: "i32 option"
  m_generation :: u64
  m_lengthByte :: byte
  m_readLength :: u64
  m_readShift :: nat
  m_readBody :: bytes
  m_writeQueue :: "bytes list"
  m_writeInProgress :: bool
  m_pending :: "(handler \<times> wait) list"
  m_tasks :: "task list"
  m_promises :: nat
  m_out :: "callback_call list"
  m_files :: filesystem
  m_numbers :: bn_store
  m_queued :: "bytes list"
  m_written :: "bytes list"
  m_received :: bytes
  m_handled :: "bytes list"
  m_undefined :: bool

definition MaxFrameSize :: u64 where "MaxFrameSize = 4 * 1024 * 1024"
definition VoiceChunkSize :: nat where "VoiceChunkSize = 20 * 1024"
definition VoiceMinimumChunkSize :: nat where "VoiceMinimumChunkSize = 8 * 1024"
definition VoiceStartTimeout :: nat where "VoiceStartTimeout = 2000"
definition IdleTimeout :: nat where "IdleTimeout = 16000"

definition initialFeatures :: "Options \<Rightarrow> i32" where
  "initialFeatures options =
     (let f = FeaturePing OR FeatureKey OR FeaturePower OR FeatureVolume OR FeatureAppLink;
          f = (if o_enableIme options then f OR FeatureIme else f);
          f = (if o_enableVoice options then f OR FeatureVoice else f)
      in f)"

definition newImpl :: "Options \<Rightarrow> filesystem \<Rightarrow> bn_store \<Rightarrow> Impl" where
  "newImpl options fs bns =
     \<lparr>m_options = options, m_callbacks = noCallbacks, m_deviceInfo = emptyDeviceInfo,
      m_volumeInfo = emptyVolumeInfo, m_currentApp = [], m_isOn = False, m_voiceEnabled = False,
      m_state = Disconnected, m_shuttingDown = False, m_pairing = None, m_work = True,
      m_sslContext = None, m_stream = None, m_expiry = (\<lambda>_. 0), m_userDisconnect = True,
      m_reconnectDelay = 100, m_activeFeatures = initialFeatures options, m_supportedFeatures = 0,
      m_imeCounter = 0, m_imeFieldCounter = 0, m_voiceStarting = False, m_voiceSessionId = None,
      m_generation = 0, m_lengthByte = 0, m_readLength = 0, m_readShift = 0, m_readBody = [],
      m_writeQueue = [], m_writeInProgress = False, m_pending = [], m_tasks = [], m_promises = 0,
      m_out = [], m_files = fs, m_numbers = bns, m_queued = [], m_written = [],
      m_received = [], m_handled = [], m_undefined = False\<rparr>"

section \<open>The environment's operations\<close>

definition undefined_behaviour :: "Impl \<Rightarrow> Impl" where
  "undefined_behaviour s = s\<lparr>m_undefined := True\<rparr>"

definition async :: "handler \<Rightarrow> Impl \<Rightarrow> Impl" where
  "async h s = s\<lparr>m_pending := m_pending s @ [(h, Waiting)]\<rparr>"

definition cancel :: "timer \<Rightarrow> Impl \<Rightarrow> Impl" where
  "cancel t s = s\<lparr>m_pending :=
     map (\<lambda>(h, w). (h, if timer_of h = Some t \<and> w = Waiting then Aborted else w)) (m_pending s)\<rparr>"

definition expires_after :: "timer \<Rightarrow> nat \<Rightarrow> Impl \<Rightarrow> Impl" where
  "expires_after t d s = (cancel t s)\<lparr>m_expiry := (m_expiry s)(t := d)\<rparr>"

definition post :: "task \<Rightarrow> Impl \<Rightarrow> Impl" where
  "post t s = s\<lparr>m_tasks := m_tasks s @ [t]\<rparr>"

text \<open>\<^verbatim>\<open>withCallbacks\<close>: a callback is called if it is set.\<close>

definition withCallbacks :: "(Callbacks \<Rightarrow> bool) \<Rightarrow> callback_call \<Rightarrow> Impl \<Rightarrow> Impl" where
  "withCallbacks isSet call s = (if isSet (m_callbacks s) then s\<lparr>m_out := m_out s @ [call]\<rparr> else s)"

section \<open>Methods\<close>

definition Impl_setCallbacks :: "Callbacks \<Rightarrow> Impl \<Rightarrow> Impl" where
  "Impl_setCallbacks callbacks s = s\<lparr>m_callbacks := callbacks\<rparr>"

definition emitError :: "string \<Rightarrow> Impl \<Rightarrow> Impl" where
  "emitError message = withCallbacks onError (ErrorReported message)"

definition emitAvailability :: "bool \<Rightarrow> Impl \<Rightarrow> Impl" where
  "emitAvailability available = withCallbacks onAvailabilityChanged (AvailabilityChanged available)"

definition emitVoiceStopped :: "Impl \<Rightarrow> Impl" where
  "emitVoiceStopped = withCallbacks onVoiceStopped VoiceStopped"

definition setState :: "ConnectionState \<Rightarrow> Impl \<Rightarrow> Impl" where
  "setState st s = withCallbacks onConnectionState (ConnectionStateIs st) (s\<lparr>m_state := st\<rparr>)"

definition closeStream :: "Impl \<Rightarrow> Impl" where
  "closeStream s = s\<lparr>m_generation := m_generation s + 1, m_voiceStarting := False,
     m_voiceSessionId := None, m_writeQueue := [], m_writeInProgress := False, m_readLength := 0,
     m_readShift := 0, m_stream := None, m_queued := [], m_written := [],
     m_received := [], m_handled := []\<rparr>"

definition resetIdleTimer :: "Impl \<Rightarrow> Impl" where
  "resetIdleTimer s = async (IdleH (m_generation s)) (expires_after IdleTimer IdleTimeout s)"

subsection \<open>Writing\<close>

definition beginWrite :: "Impl \<Rightarrow> Impl" where
  "beginWrite s =
     (if m_stream s = None \<or> m_writeQueue s = [] then s\<lparr>m_writeInProgress := False\<rparr>
      else async (WriteH (m_generation s) (hd (m_writeQueue s))) (s\<lparr>m_writeInProgress := True\<rparr>))"

definition queueMessage :: "bytes \<Rightarrow> Impl \<Rightarrow> Impl" where
  "queueMessage payload s =
     (if m_stream s = None then s
      else let s = resetIdleTimer s;
               s = s\<lparr>m_writeQueue := m_writeQueue s @ [frame payload], m_queued := m_queued s @ [frame payload]\<rparr>
           in if \<not> m_writeInProgress s then beginWrite s else s)"

definition postMessage :: "bytes \<Rightarrow> Impl \<Rightarrow> Impl" where
  "postMessage payload = post (MessageT payload)"

subsection \<open>Losing the connection\<close>

definition handleConnectionLoss :: "u64 \<Rightarrow> Impl \<Rightarrow> Impl" where
  "handleConnectionLoss generation s =
     (if generation \<noteq> m_generation s then s
      else let wasConnected = (m_state s = Connected);
               s = closeStream s;
               s = (if wasConnected then emitAvailability False s else s)
           in if o_autoReconnect (m_options s) \<and> \<not> m_userDisconnect s \<and> \<not> m_shuttingDown s
              then let s = setState Reconnecting s;
                       s = expires_after ReconnectTimer (m_reconnectDelay s) s;
                       s = async ReconnectH s
                   in s\<lparr>m_reconnectDelay := min (m_reconnectDelay s * 2) 30000\<rparr>
              else setState Disconnected s)"

definition connectionFailed :: "string \<Rightarrow> string \<Rightarrow> u64 \<Rightarrow> Impl \<Rightarrow> Impl" where
  "connectionFailed pre error generation s =
     (if generation \<noteq> m_generation s \<or> m_userDisconnect s \<or> m_shuttingDown s then s
      else handleConnectionLoss generation (emitError (pre @ '': '' @ error) s))"

definition authenticationFailed :: "string \<Rightarrow> u64 \<Rightarrow> Impl \<Rightarrow> Impl" where
  "authenticationFailed error generation s =
     (if generation \<noteq> m_generation s \<or> m_userDisconnect s \<or> m_shuttingDown s then s
      else let s = emitError (''TLS authentication failed; pairing is required: '' @ error) s;
               wasConnected = (m_state s = Connected);
               s = closeStream s;
               s = setState Disconnected s;
               s = (if wasConnected then emitAvailability False s else s)
           in withCallbacks onAuthenticationRequired AuthenticationRequired s)"

subsection \<open>Messages of the TV\<close>

definition handleMessage :: "bytes \<Rightarrow> Impl \<Rightarrow> Impl" where
  "handleMessage message s =
     (let s = s\<lparr>m_handled := m_handled s @ [message]\<rparr>;
          incoming = parseRemote message in
      case kind incoming of
        Configure \<Rightarrow>
          (let s = s\<lparr>m_supportedFeatures := supportedFeatures incoming\<rparr>;
               s = s\<lparr>m_activeFeatures := m_activeFeatures s AND m_supportedFeatures s\<rparr>;
               s = s\<lparr>m_voiceEnabled := (m_activeFeatures s AND FeatureVoice \<noteq> 0)\<rparr>;
               s = s\<lparr>m_deviceInfo := deviceInfo incoming\<rparr>;
               s = withCallbacks onDeviceInfoChanged (DeviceInfoChanged (deviceInfo incoming)) s
           in queueMessage (remoteConfigureResponse (m_activeFeatures s)) s)
      | SetActive \<Rightarrow> queueMessage (remoteSetActiveResponse (m_activeFeatures s)) s
      | ImeKeyInject \<Rightarrow>
          withCallbacks onCurrentAppChanged (CurrentAppChanged (currentApp incoming))
            (s\<lparr>m_currentApp := currentApp incoming\<rparr>)
      | ImeBatchEdit \<Rightarrow>
          s\<lparr>m_imeCounter := imeCounter incoming, m_imeFieldCounter := fieldCounter incoming\<rparr>
      | Volume \<Rightarrow>
          withCallbacks onVolumeChanged (VolumeChanged (volume incoming))
            (s\<lparr>m_volumeInfo := volume incoming\<rparr>)
      | Start \<Rightarrow>
          (let s = s\<lparr>m_isOn := started incoming\<rparr>;
               s = setState Connected s;
               s = emitAvailability True s
           in withCallbacks onPowerChanged (PowerChanged (started incoming)) s)
      | Ping \<Rightarrow> queueMessage (remotePingResponse (pingValue incoming)) s
      | ErrorKind \<Rightarrow> emitError ''Android TV reported a remote protocol error'' s
      | VoiceBegin \<Rightarrow>
          if m_voiceStarting s
          then let s = s\<lparr>m_voiceStarting := False\<rparr>;
                   s = cancel VoiceTimer s;
                   s = s\<lparr>m_voiceSessionId := Some (voiceSessionId incoming)\<rparr>;
                   s = queueMessage (remoteVoiceBegin (voiceSessionId incoming)) s
               in withCallbacks onVoiceStarted (VoiceStarted (voiceSessionId incoming)) s
          else s
      | UnknownKind \<Rightarrow> s)"

subsection \<open>Reading\<close>

definition readOneLengthByte :: "u64 \<Rightarrow> Impl \<Rightarrow> Impl" where
  "readOneLengthByte generation s =
     (if m_stream s = None \<or> generation \<noteq> m_generation s then s
      else async (ReadByteH generation) s)"

definition beginReadLength :: "u64 \<Rightarrow> Impl \<Rightarrow> Impl" where
  "beginReadLength generation s =
     (if m_stream s = None \<or> generation \<noteq> m_generation s then s
      else readOneLengthByte generation (s\<lparr>m_readLength := 0, m_readShift := 0\<rparr>))"

text \<open>
  A completion reports an error message or none. A read that completes without an error has
  put its bytes into the buffer before the handler runs.
\<close>

definition onReadByte :: "u64 \<Rightarrow> string option \<Rightarrow> byte \<Rightarrow> Impl \<Rightarrow> Impl" where
  "onReadByte generation err byte s =
     (let s = (if err = None then s\<lparr>m_lengthByte := byte\<rparr> else s) in
      if generation \<noteq> m_generation s then s
      else case err of
        Some error \<Rightarrow> connectionFailed ''read failed'' error generation s
      | None \<Rightarrow>
          (let s = s\<lparr>m_received := m_received s @ [m_lengthByte s], m_readLength :=
                 m_readLength s OR push_bit (m_readShift s) (ucast (m_lengthByte s AND 0x7f))\<rparr> in
           if m_lengthByte s AND 0x80 \<noteq> 0
           then let s = s\<lparr>m_readShift := m_readShift s + 7\<rparr>
                in if 63 < m_readShift s
                   then handleConnectionLoss generation (emitError ''invalid protobuf frame length'' s)
                   else readOneLengthByte generation s
           else if MaxFrameSize < m_readLength s
           then handleConnectionLoss generation (emitError ''protobuf frame exceeds 4 MiB safety limit'' s)
           else let s = s\<lparr>m_readBody := replicate (unat (m_readLength s)) 0\<rparr>
                in if m_readBody s = [] then beginReadLength generation (handleMessage [] s)
                   else if m_stream s = None then undefined_behaviour s
                   else async (ReadBodyH generation) s))"

definition onReadBody :: "u64 \<Rightarrow> string option \<Rightarrow> bytes \<Rightarrow> Impl \<Rightarrow> Impl" where
  "onReadBody generation err body s =
     (let s = (if err = None then s\<lparr>m_readBody := body\<rparr> else s) in
      if generation \<noteq> m_generation s then s
      else case err of
        Some error \<Rightarrow> connectionFailed ''read failed'' error generation s
      | None \<Rightarrow>
          (let s = s\<lparr>m_received := m_received s @ m_readBody s\<rparr>;
               s = resetIdleTimer s;
               s = handleMessage (m_readBody s) s
           in beginReadLength generation s))"

definition onWrite :: "u64 \<Rightarrow> string option \<Rightarrow> Impl \<Rightarrow> Impl" where
  "onWrite generation err s =
     (if generation \<noteq> m_generation s then s
      else case err of
        Some error \<Rightarrow> connectionFailed ''write failed'' error generation (s\<lparr>m_writeInProgress := False\<rparr>)
      | None \<Rightarrow>
          (if m_writeQueue s = [] then undefined_behaviour s
           else beginWrite (s\<lparr>m_written := m_written s @ [hd (m_writeQueue s)], m_writeQueue := tl (m_writeQueue s)\<rparr>)))"

definition onIdle :: "u64 \<Rightarrow> bool \<Rightarrow> Impl \<Rightarrow> Impl" where
  "onIdle generation error s =
     (if \<not> error \<and> \<not> m_userDisconnect s \<and> generation = m_generation s
      then handleConnectionLoss generation
        (emitError ''closing idle Android TV connection after 16 seconds without traffic'' s)
      else s)"

subsection \<open>Connecting\<close>

text \<open>
  \<^verbatim>\<open>ensureSslContext\<close>: the context is stored before the identity is loaded into it, and stays
  stored when loading throws.
\<close>

definition ensureSslContext :: "'md ossl \<Rightarrow> (Impl, unit) io" where
  "ensureSslContext os s =
     (case m_sslContext s of
        Some _ \<Rightarrow> (Inr (), s)
      | None \<Rightarrow>
          (let ctx = newSslContext\<lparr>verifyNone := True\<rparr> in
           case loadClientIdentity os (m_files s) (o_certificateFile (m_options s))
                  (o_privateKeyFile (m_options s)) (Some ctx) of
             (r, ctx) \<Rightarrow> (r, s\<lparr>m_sslContext := ctx\<rparr>)))"

text \<open>\<^verbatim>\<open>std::exception::what()\<close>.\<close>

fun exn_what :: "exn \<Rightarrow> string" where
  "exn_what (Runtime_error m) = m"
| "exn_what (Invalid_argument m) = m"
| "exn_what (System_error m) = m"
| "exn_what Filesystem_error = ''filesystem error''"
| "exn_what Undefined_behaviour = []"

definition beginConnect :: "'md ossl \<Rightarrow> bool \<Rightarrow> Impl \<Rightarrow> Impl" where
  "beginConnect os reconnecting s =
     (if m_shuttingDown s \<or> m_userDisconnect s then s
      else let s = closeStream s; generation = m_generation s in
        case ensureSslContext os s of
          (Inl error, s) \<Rightarrow>
            setState Disconnected (emitError (''unable to load TLS certificate/key: '' @ exn_what error) s)
        | (Inr _, s) \<Rightarrow>
            (let s = setState (if reconnecting then Reconnecting else Connecting) s in
             case m_sslContext s of
               None \<Rightarrow> undefined_behaviour s
             | Some ctx \<Rightarrow> async (ResolveH generation) (s\<lparr>m_stream := Some ctx\<rparr>)))"

definition onResolve :: "u64 \<Rightarrow> string option \<Rightarrow> Impl \<Rightarrow> Impl" where
  "onResolve generation err s =
     (if generation \<noteq> m_generation s then s
      else case err of
        Some error \<Rightarrow> connectionFailed ''DNS/host resolution failed'' error generation s
      | None \<Rightarrow> if m_stream s = None then undefined_behaviour s else async (ConnectH generation) s)"

definition onConnect :: "u64 \<Rightarrow> string option \<Rightarrow> Impl \<Rightarrow> Impl" where
  "onConnect generation err s =
     (if generation \<noteq> m_generation s then s
      else case err of
        Some error \<Rightarrow> connectionFailed ''TCP connection failed'' error generation s
      | None \<Rightarrow> if m_stream s = None then undefined_behaviour s else async (HandshakeH generation) s)"

definition onHandshake :: "u64 \<Rightarrow> string option \<Rightarrow> Impl \<Rightarrow> Impl" where
  "onHandshake generation err s =
     (if generation \<noteq> m_generation s then s
      else case err of
        Some error \<Rightarrow> authenticationFailed error generation s
      | None \<Rightarrow>
          (let s = s\<lparr>m_reconnectDelay := 100\<rparr>;
               s = beginReadLength generation s
           in resetIdleTimer s))"

definition onReconnect :: "'md ossl \<Rightarrow> bool \<Rightarrow> Impl \<Rightarrow> Impl" where
  "onReconnect os error s = (if \<not> error \<and> \<not> m_userDisconnect s then beginConnect os True s else s)"

definition onVoiceTimeout :: "bool \<Rightarrow> Impl \<Rightarrow> Impl" where
  "onVoiceTimeout error s =
     (if \<not> error \<and> m_voiceStarting s
      then emitError ''Android TV did not start a voice session within 2 seconds'' (s\<lparr>m_voiceStarting := False\<rparr>)
      else s)"

section \<open>Posted tasks\<close>

definition connect_task :: "'md ossl \<Rightarrow> Impl \<Rightarrow> Impl" where
  "connect_task os s =
     (let s = s\<lparr>m_userDisconnect := False\<rparr>;
          s = cancel ReconnectTimer s;
          s = s\<lparr>m_reconnectDelay := 100\<rparr>
      in beginConnect os False s)"

definition disconnect_task :: "Impl \<Rightarrow> Impl" where
  "disconnect_task s =
     (let s = s\<lparr>m_userDisconnect := True\<rparr>;
          s = cancel ReconnectTimer s;
          s = cancel VoiceTimer s;
          s = cancel IdleTimer s;
          s = closeStream s;
          s = setState Disconnected s
      in emitAvailability False s)"

definition disconnectAndWait_task :: "Impl \<Rightarrow> Impl" where
  "disconnectAndWait_task s =
     (let s = s\<lparr>m_userDisconnect := True\<rparr>;
          s = cancel ReconnectTimer s;
          s = cancel IdleTimer s;
          s = cancel VoiceTimer s;
          s = closeStream s;
          s = setState Disconnected s
      in s\<lparr>m_promises := m_promises s + 1\<rparr>)"

definition sendText_task :: "string \<Rightarrow> Impl \<Rightarrow> Impl" where
  "sendText_task txt s = queueMessage (remoteText txt (m_imeCounter s) (m_imeFieldCounter s)) s"

definition startVoice_task :: "Impl \<Rightarrow> Impl" where
  "startVoice_task s =
     (if \<not> m_voiceEnabled s
      then emitError ''voice is not enabled or not supported by the Android TV'' s
      else if m_voiceStarting s \<or> m_voiceSessionId s \<noteq> None
      then emitError ''voice session already in progress'' s
      else if m_state s \<noteq> Connected
      then emitError ''cannot start voice while disconnected'' s
      else let s = s\<lparr>m_voiceStarting := True\<rparr>;
               s = queueMessage (remoteKey (keyCode Search) Short) s;
               s = expires_after VoiceTimer VoiceStartTimeout s
           in async VoiceH s)"

text \<open>The loop of \<^verbatim>\<open>sendVoiceData\<close>: the argument is what is left of the data from the offset on.\<close>

definition voice_chunk :: "bytes \<Rightarrow> bytes" where
  "voice_chunk rest =
     (let chunk = take (min VoiceChunkSize (length rest)) rest
      in if length chunk < VoiceMinimumChunkSize
         then chunk @ replicate (VoiceMinimumChunkSize - length chunk) 0 else chunk)"

function voice_chunks :: "bytes \<Rightarrow> bytes list" where
  "voice_chunks rest =
     (if rest = [] then [] else voice_chunk rest # voice_chunks (drop VoiceChunkSize rest))"
  by pat_completeness auto
termination
  by (relation "measure length") (auto simp: VoiceChunkSize_def)

declare voice_chunks.simps [simp del]

definition sendVoiceData_task :: "bytes \<Rightarrow> Impl \<Rightarrow> Impl" where
  "sendVoiceData_task bs s =
     (case m_voiceSessionId s of
        None \<Rightarrow> s
      | Some sid \<Rightarrow> fold (\<lambda>chunk. queueMessage (remoteVoicePayload sid chunk)) (voice_chunks bs) s)"

definition stopVoice_task :: "Impl \<Rightarrow> Impl" where
  "stopVoice_task s =
     (let s = cancel VoiceTimer s;
          s = s\<lparr>m_voiceStarting := False\<rparr>
      in case m_voiceSessionId s of
           None \<Rightarrow> s
         | Some sid \<Rightarrow>
             emitVoiceStopped ((queueMessage (remoteVoiceEnd sid) s)\<lparr>m_voiceSessionId := None\<rparr>))"

definition shutdown_task :: "Impl \<Rightarrow> Impl" where
  "shutdown_task s =
     (let s = s\<lparr>m_userDisconnect := True\<rparr>;
          s = closeStream s;
          s = cancel ReconnectTimer s;
          s = cancel IdleTimer s;
          s = cancel VoiceTimer s
      in s\<lparr>m_work := False\<rparr>)"

fun run_task :: "'md ossl \<Rightarrow> task \<Rightarrow> Impl \<Rightarrow> Impl" where
  "run_task os ConnectT = connect_task os"
| "run_task os DisconnectT = disconnect_task"
| "run_task os DisconnectAndWaitT = disconnectAndWait_task"
| "run_task os (MessageT payload) = queueMessage payload"
| "run_task os (TextT txt) = sendText_task txt"
| "run_task os StartVoiceT = startVoice_task"
| "run_task os (VoiceDataT bs) = sendVoiceData_task bs"
| "run_task os StopVoiceT = stopVoice_task"
| "run_task os ShutdownT = shutdown_task"

section \<open>Public operations\<close>

definition Impl_connect :: "Impl \<Rightarrow> Impl" where "Impl_connect = post ConnectT"
definition Impl_disconnect :: "Impl \<Rightarrow> Impl" where "Impl_disconnect = post DisconnectT"
definition Impl_startVoice :: "Impl \<Rightarrow> Impl" where "Impl_startVoice = post StartVoiceT"
definition Impl_sendVoiceData :: "bytes \<Rightarrow> Impl \<Rightarrow> Impl" where "Impl_sendVoiceData pcm = post (VoiceDataT pcm)"
definition Impl_stopVoice :: "Impl \<Rightarrow> Impl" where "Impl_stopVoice = post StopVoiceT"

definition Impl_sendKey :: "i32 \<Rightarrow> Direction \<Rightarrow> Impl \<Rightarrow> Impl" where
  "Impl_sendKey key direction = postMessage (remoteKey key direction)"

definition Impl_launchApp :: "string \<Rightarrow> Impl \<Rightarrow> Impl" where
  "Impl_launchApp appLink = postMessage (remoteAppLink appLink)"

definition Impl_sendText :: "string \<Rightarrow> (Impl, unit) io" where
  "Impl_sendText txt s =
     (if txt = [] then (Inl (Invalid_argument ''text cannot be empty''), s)
      else (Inr (), post (TextT txt) s))"

text \<open>The overload of \<^verbatim>\<open>AndroidTvRemote::sendKey\<close> for key names.\<close>

definition sendKeyName :: "string \<Rightarrow> Direction \<Rightarrow> (Impl, unit) io" where
  "sendKeyName keyName direction s =
     (case keyCodeFromName keyName of
        None \<Rightarrow> (Inl (Invalid_argument (''unknown Android key name: '' @ keyName)), s)
      | Some key \<Rightarrow> (Inr (), Impl_sendKey key direction s))"

text \<open>The destructor up to \<^verbatim>\<open>io_.stop()\<close>.\<close>

definition Impl_shutdown :: "Impl \<Rightarrow> Impl" where
  "Impl_shutdown s = post ShutdownT (s\<lparr>m_shuttingDown := True\<rparr>)"

definition Impl_generateCertificateIfMissing :: "'md ossl \<Rightarrow> (Impl, bool) io" where
  "Impl_generateCertificateIfMissing os s =
     (case generateCertificateIfMissing os (o_certificateFile (m_options s)) (o_privateKeyFile (m_options s))
             (o_clientName (m_options s)) (m_files s) of
        (r, fs) \<Rightarrow> (r, s\<lparr>m_files := fs\<rparr>))"

text \<open>
  \<^verbatim>\<open>startPairing\<close> posts a task, waits for its promise and then works on the caller's thread: these are
  the two halves. The network the session will meet is an argument.
\<close>

definition Impl_startPairing_wait :: "Impl \<Rightarrow> Impl" where
  "Impl_startPairing_wait = post DisconnectAndWaitT"

definition newSession :: "(string \<Rightarrow> 16 word \<Rightarrow> nat \<Rightarrow> tls_peer) \<Rightarrow> Impl \<Rightarrow> PairingSession" where
  "newSession peers s = newPairingSession (o_clientName (m_options s)) (o_certificateFile (m_options s))
     (o_privateKeyFile (m_options s)) (o_host (m_options s)) (o_pairingPort (m_options s))
     (m_files s) (m_numbers s) peers"

definition Impl_startPairing ::
    "'md ossl \<Rightarrow> (string \<Rightarrow> 16 word \<Rightarrow> nat \<Rightarrow> tls_peer) \<Rightarrow> (Impl, unit) io" where
  "Impl_startPairing os peers s =
     (let s = s\<lparr>m_promises := m_promises s - 1\<rparr> in
      case PairingSession_start os (newSession peers s) of
        (Inl e, session) \<Rightarrow> (Inl e, s\<lparr>m_numbers := m_bns session\<rparr>)
      | (Inr _, session) \<Rightarrow> (Inr (), s\<lparr>m_numbers := m_bns session, m_pairing := Some session\<rparr>))"

definition Impl_finishPairing :: "'md ossl \<Rightarrow> string \<Rightarrow> (Impl, unit) io" where
  "Impl_finishPairing os code s =
     (case m_pairing s of
        None \<Rightarrow> (Inl (Runtime_error ''finishPairing called before startPairing''), s)
      | Some session \<Rightarrow>
          (case PairingSession_finish os code (session\<lparr>m_fs := m_files s, m_bns := m_numbers s\<rparr>) of
             (Inl e, session') \<Rightarrow> (Inl e, s\<lparr>m_numbers := m_bns session', m_pairing := Some session'\<rparr>)
           | (Inr _, session') \<Rightarrow> (Inr (), s\<lparr>m_numbers := m_bns session', m_pairing := None\<rparr>)))"

definition Impl_getNameAndMac ::
    "'md ossl \<Rightarrow> (string \<Rightarrow> 16 word \<Rightarrow> nat \<Rightarrow> tls_peer) \<Rightarrow> Impl \<Rightarrow> (exn, DeviceIdentity) result" where
  "Impl_getNameAndMac os peers s = fst (PairingSession_getNameAndMac os (newSession peers s))"

end
