(* ===== verification/Remote_Steps.thy ===== *)
theory Remote_Steps
  imports Remote_Impl
begin

text \<open>
  The remote as a transition system: public calls from any thread, posted tasks in order, timers
  that fire, and completions of asynchronous operations in any order and with any result; and the
  invariant of the reachable states, one lemma per handler and task. The theory
  \<^verbatim>\<open>Remote_Properties\<close> states what follows from it.
\<close>

section \<open>Steps\<close>

text \<open>What a completed operation reports.\<close>

record completion =
  failure :: "string option"
  gotByte :: byte
  gotBody :: bytes

fun run_handler :: "'md ossl \<Rightarrow> handler \<Rightarrow> completion \<Rightarrow> Impl \<Rightarrow> Impl" where
  "run_handler os (ResolveH g) c = onResolve g (failure c)"
| "run_handler os (ConnectH g) c = onConnect g (failure c)"
| "run_handler os (HandshakeH g) c = onHandshake g (failure c)"
| "run_handler os (ReadByteH g) c = onReadByte g (failure c) (gotByte c)"
| "run_handler os (ReadBodyH g) c = onReadBody g (failure c) (gotBody c)"
| "run_handler os (WriteH g b) c = onWrite g (failure c)"
| "run_handler os ReconnectH c = onReconnect os (failure c \<noteq> None)"
| "run_handler os (IdleH g) c = onIdle g (failure c \<noteq> None)"
| "run_handler os VoiceH c = onVoiceTimeout (failure c \<noteq> None)"

text \<open>The public calls; errors they throw concern the caller only.\<close>

datatype api_call =
    CallSetCallbacks Callbacks
  | CallConnect
  | CallDisconnect
  | CallSendKey i32 Direction
  | CallSendKeyName string Direction
  | CallSendText string
  | CallLaunchApp string
  | CallStartVoice
  | CallSendVoiceData bytes
  | CallStopVoice
  | CallGenerateCertificate
  | CallStartPairing
  | CallResumePairing "string \<Rightarrow> 16 word \<Rightarrow> nat \<Rightarrow> tls_peer"
  | CallFinishPairing string
  | CallDestroy

fun run_call :: "'md ossl \<Rightarrow> api_call \<Rightarrow> Impl \<Rightarrow> Impl" where
  "run_call os (CallSetCallbacks cs) s = Impl_setCallbacks cs s"
| "run_call os CallConnect s = Impl_connect s"
| "run_call os CallDisconnect s = Impl_disconnect s"
| "run_call os (CallSendKey k d) s = Impl_sendKey k d s"
| "run_call os (CallSendKeyName k d) s = snd (sendKeyName k d s)"
| "run_call os (CallSendText t) s = snd (Impl_sendText t s)"
| "run_call os (CallLaunchApp a) s = Impl_launchApp a s"
| "run_call os CallStartVoice s = Impl_startVoice s"
| "run_call os (CallSendVoiceData bs) s = Impl_sendVoiceData bs s"
| "run_call os CallStopVoice s = Impl_stopVoice s"
| "run_call os CallGenerateCertificate s = snd (Impl_generateCertificateIfMissing os s)"
| "run_call os CallStartPairing s = Impl_startPairing_wait s"
| "run_call os (CallResumePairing peers) s = (if 0 < m_promises s then snd (Impl_startPairing os peers s) else s)"
| "run_call os (CallFinishPairing code) s = snd (Impl_finishPairing os code s)"
| "run_call os CallDestroy s = Impl_shutdown s"

definition remove_nth :: "nat \<Rightarrow> 'a list \<Rightarrow> 'a list" where
  "remove_nth i xs = take i xs @ drop (Suc i) xs"

definition take_handler :: "nat \<Rightarrow> Impl \<Rightarrow> Impl" where
  "take_handler i s = s\<lparr>m_pending := remove_nth i (m_pending s)\<rparr>"

text \<open>
  Which results an operation can have: a timer's wait that fired has no error, an aborted one has; a read
  without error has filled its buffer.
\<close>

definition possible :: "handler \<Rightarrow> wait \<Rightarrow> completion \<Rightarrow> Impl \<Rightarrow> bool" where
  "possible h w c s \<longleftrightarrow>
     (timer_of h \<noteq> None \<longrightarrow> w = Fired \<and> failure c = None \<or> w = Aborted \<and> failure c \<noteq> None) \<and>
     length (gotBody c) = length (m_readBody s)"

inductive step :: "'md ossl \<Rightarrow> Impl \<Rightarrow> Impl \<Rightarrow> bool" for os where
  step_call: "step os s (run_call os c s)"
| step_task: "m_tasks s = t # ts \<Longrightarrow> step os s (run_task os t (s\<lparr>m_tasks := ts\<rparr>))"
| step_fire: "i < length (m_pending s) \<Longrightarrow> m_pending s ! i = (h, Waiting) \<Longrightarrow> timer_of h \<noteq> None \<Longrightarrow>
    step os s (s\<lparr>m_pending := (m_pending s)[i := (h, Fired)]\<rparr>)"
| step_complete: "i < length (m_pending s) \<Longrightarrow> m_pending s ! i = (h, w) \<Longrightarrow> possible h w c s \<Longrightarrow>
    step os s (run_handler os h c (take_handler i s))"
| step_files: "step os s (s\<lparr>m_files := fs\<rparr>)"

inductive_cases step_elim: "step os s s'"

text \<open>The definitions behind a call, a task and a completion.\<close>

lemmas call_defs = Impl_setCallbacks_def Impl_connect_def Impl_disconnect_def Impl_sendKey_def postMessage_def sendKeyName_def
  Impl_sendText_def Impl_launchApp_def Impl_startVoice_def Impl_sendVoiceData_def Impl_stopVoice_def
  Impl_generateCertificateIfMissing_def Impl_startPairing_wait_def Impl_startPairing_def Impl_finishPairing_def
  Impl_shutdown_def

lemmas task_defs = connect_task_def disconnect_task_def disconnectAndWait_task_def sendText_task_def startVoice_task_def
  sendVoiceData_task_def stopVoice_task_def shutdown_task_def

lemmas handler_defs = onResolve_def onConnect_def onHandshake_def onReadByte_def onReadBody_def onWrite_def onReconnect_def
  onIdle_def onVoiceTimeout_def

text \<open>Reachability in a number of steps.\<close>

inductive reach :: "'md ossl \<Rightarrow> Options \<Rightarrow> nat \<Rightarrow> Impl \<Rightarrow> bool" for os opts where
  reach_new: "reach os opts 0 (newImpl opts fs bns)"
| reach_step: "reach os opts n s \<Longrightarrow> step os s s' \<Longrightarrow> reach os opts (Suc n) s'"

section \<open>What the environment's operations leave alone\<close>

lemma withCallbacks_sel [simp]:
  "m_options (withCallbacks f c s) = m_options s"
  "m_callbacks (withCallbacks f c s) = m_callbacks s"
  "m_deviceInfo (withCallbacks f c s) = m_deviceInfo s"
  "m_volumeInfo (withCallbacks f c s) = m_volumeInfo s"
  "m_currentApp (withCallbacks f c s) = m_currentApp s" "m_isOn (withCallbacks f c s) = m_isOn s"
  "m_voiceEnabled (withCallbacks f c s) = m_voiceEnabled s"
  "m_state (withCallbacks f c s) = m_state s"
  "m_shuttingDown (withCallbacks f c s) = m_shuttingDown s"
  "m_pairing (withCallbacks f c s) = m_pairing s"
  "m_sslContext (withCallbacks f c s) = m_sslContext s"
  "m_stream (withCallbacks f c s) = m_stream s"
  "m_userDisconnect (withCallbacks f c s) = m_userDisconnect s"
  "m_reconnectDelay (withCallbacks f c s) = m_reconnectDelay s"
  "m_activeFeatures (withCallbacks f c s) = m_activeFeatures s"
  "m_supportedFeatures (withCallbacks f c s) = m_supportedFeatures s"
  "m_voiceStarting (withCallbacks f c s) = m_voiceStarting s"
  "m_voiceSessionId (withCallbacks f c s) = m_voiceSessionId s"
  "m_generation (withCallbacks f c s) = m_generation s"
  "m_readLength (withCallbacks f c s) = m_readLength s"
  "m_readShift (withCallbacks f c s) = m_readShift s"
  "m_readBody (withCallbacks f c s) = m_readBody s"
  "m_writeQueue (withCallbacks f c s) = m_writeQueue s"
  "m_writeInProgress (withCallbacks f c s) = m_writeInProgress s"
  "m_pending (withCallbacks f c s) = m_pending s" "m_tasks (withCallbacks f c s) = m_tasks s"
  "m_queued (withCallbacks f c s) = m_queued s" "m_written (withCallbacks f c s) = m_written s"
  "m_received (withCallbacks f c s) = m_received s" "m_handled (withCallbacks f c s) = m_handled s"
  "m_undefined (withCallbacks f c s) = m_undefined s"
  by (simp_all add: withCallbacks_def)

lemma emitError_sel [simp]:
  "m_options (emitError x s) = m_options s" "m_callbacks (emitError x s) = m_callbacks s"
  "m_deviceInfo (emitError x s) = m_deviceInfo s" "m_volumeInfo (emitError x s) = m_volumeInfo s"
  "m_currentApp (emitError x s) = m_currentApp s" "m_isOn (emitError x s) = m_isOn s"
  "m_voiceEnabled (emitError x s) = m_voiceEnabled s" "m_state (emitError x s) = m_state s"
  "m_shuttingDown (emitError x s) = m_shuttingDown s" "m_pairing (emitError x s) = m_pairing s"
  "m_sslContext (emitError x s) = m_sslContext s" "m_stream (emitError x s) = m_stream s"
  "m_userDisconnect (emitError x s) = m_userDisconnect s"
  "m_reconnectDelay (emitError x s) = m_reconnectDelay s"
  "m_activeFeatures (emitError x s) = m_activeFeatures s"
  "m_supportedFeatures (emitError x s) = m_supportedFeatures s"
  "m_voiceStarting (emitError x s) = m_voiceStarting s"
  "m_voiceSessionId (emitError x s) = m_voiceSessionId s"
  "m_generation (emitError x s) = m_generation s" "m_readLength (emitError x s) = m_readLength s"
  "m_readShift (emitError x s) = m_readShift s" "m_readBody (emitError x s) = m_readBody s"
  "m_writeQueue (emitError x s) = m_writeQueue s"
  "m_writeInProgress (emitError x s) = m_writeInProgress s"
  "m_pending (emitError x s) = m_pending s" "m_tasks (emitError x s) = m_tasks s"
  "m_queued (emitError x s) = m_queued s" "m_written (emitError x s) = m_written s"
  "m_received (emitError x s) = m_received s" "m_handled (emitError x s) = m_handled s"
  "m_undefined (emitError x s) = m_undefined s"
  by (simp_all add: emitError_def)

lemma emitAvailability_sel [simp]:
  "m_options (emitAvailability b s) = m_options s"
  "m_callbacks (emitAvailability b s) = m_callbacks s"
  "m_deviceInfo (emitAvailability b s) = m_deviceInfo s"
  "m_volumeInfo (emitAvailability b s) = m_volumeInfo s"
  "m_currentApp (emitAvailability b s) = m_currentApp s" "m_isOn (emitAvailability b s) = m_isOn s"
  "m_voiceEnabled (emitAvailability b s) = m_voiceEnabled s"
  "m_state (emitAvailability b s) = m_state s"
  "m_shuttingDown (emitAvailability b s) = m_shuttingDown s"
  "m_pairing (emitAvailability b s) = m_pairing s"
  "m_sslContext (emitAvailability b s) = m_sslContext s"
  "m_stream (emitAvailability b s) = m_stream s"
  "m_userDisconnect (emitAvailability b s) = m_userDisconnect s"
  "m_reconnectDelay (emitAvailability b s) = m_reconnectDelay s"
  "m_activeFeatures (emitAvailability b s) = m_activeFeatures s"
  "m_supportedFeatures (emitAvailability b s) = m_supportedFeatures s"
  "m_voiceStarting (emitAvailability b s) = m_voiceStarting s"
  "m_voiceSessionId (emitAvailability b s) = m_voiceSessionId s"
  "m_generation (emitAvailability b s) = m_generation s"
  "m_readLength (emitAvailability b s) = m_readLength s"
  "m_readShift (emitAvailability b s) = m_readShift s"
  "m_readBody (emitAvailability b s) = m_readBody s"
  "m_writeQueue (emitAvailability b s) = m_writeQueue s"
  "m_writeInProgress (emitAvailability b s) = m_writeInProgress s"
  "m_pending (emitAvailability b s) = m_pending s" "m_tasks (emitAvailability b s) = m_tasks s"
  "m_queued (emitAvailability b s) = m_queued s" "m_written (emitAvailability b s) = m_written s"
  "m_received (emitAvailability b s) = m_received s" "m_handled (emitAvailability b s) = m_handled s"
  "m_undefined (emitAvailability b s) = m_undefined s"
  by (simp_all add: emitAvailability_def)

lemma emitVoiceStopped_sel [simp]:
  "m_options (emitVoiceStopped s) = m_options s" "m_callbacks (emitVoiceStopped s) = m_callbacks s"
  "m_deviceInfo (emitVoiceStopped s) = m_deviceInfo s"
  "m_volumeInfo (emitVoiceStopped s) = m_volumeInfo s"
  "m_currentApp (emitVoiceStopped s) = m_currentApp s" "m_isOn (emitVoiceStopped s) = m_isOn s"
  "m_voiceEnabled (emitVoiceStopped s) = m_voiceEnabled s"
  "m_state (emitVoiceStopped s) = m_state s"
  "m_shuttingDown (emitVoiceStopped s) = m_shuttingDown s"
  "m_pairing (emitVoiceStopped s) = m_pairing s"
  "m_sslContext (emitVoiceStopped s) = m_sslContext s" "m_stream (emitVoiceStopped s) = m_stream s"
  "m_userDisconnect (emitVoiceStopped s) = m_userDisconnect s"
  "m_reconnectDelay (emitVoiceStopped s) = m_reconnectDelay s"
  "m_activeFeatures (emitVoiceStopped s) = m_activeFeatures s"
  "m_supportedFeatures (emitVoiceStopped s) = m_supportedFeatures s"
  "m_voiceStarting (emitVoiceStopped s) = m_voiceStarting s"
  "m_voiceSessionId (emitVoiceStopped s) = m_voiceSessionId s"
  "m_generation (emitVoiceStopped s) = m_generation s"
  "m_readLength (emitVoiceStopped s) = m_readLength s"
  "m_readShift (emitVoiceStopped s) = m_readShift s"
  "m_readBody (emitVoiceStopped s) = m_readBody s"
  "m_writeQueue (emitVoiceStopped s) = m_writeQueue s"
  "m_writeInProgress (emitVoiceStopped s) = m_writeInProgress s"
  "m_pending (emitVoiceStopped s) = m_pending s" "m_tasks (emitVoiceStopped s) = m_tasks s"
  "m_queued (emitVoiceStopped s) = m_queued s" "m_written (emitVoiceStopped s) = m_written s"
  "m_received (emitVoiceStopped s) = m_received s" "m_handled (emitVoiceStopped s) = m_handled s"
  "m_undefined (emitVoiceStopped s) = m_undefined s"
  by (simp_all add: emitVoiceStopped_def)

lemma setState_sel [simp]:
  "m_options (setState st s) = m_options s" "m_callbacks (setState st s) = m_callbacks s"
  "m_deviceInfo (setState st s) = m_deviceInfo s" "m_volumeInfo (setState st s) = m_volumeInfo s"
  "m_currentApp (setState st s) = m_currentApp s" "m_isOn (setState st s) = m_isOn s"
  "m_voiceEnabled (setState st s) = m_voiceEnabled s"
  "m_shuttingDown (setState st s) = m_shuttingDown s" "m_pairing (setState st s) = m_pairing s"
  "m_sslContext (setState st s) = m_sslContext s" "m_stream (setState st s) = m_stream s"
  "m_userDisconnect (setState st s) = m_userDisconnect s"
  "m_reconnectDelay (setState st s) = m_reconnectDelay s"
  "m_activeFeatures (setState st s) = m_activeFeatures s"
  "m_supportedFeatures (setState st s) = m_supportedFeatures s"
  "m_voiceStarting (setState st s) = m_voiceStarting s"
  "m_voiceSessionId (setState st s) = m_voiceSessionId s"
  "m_generation (setState st s) = m_generation s" "m_readLength (setState st s) = m_readLength s"
  "m_readShift (setState st s) = m_readShift s" "m_readBody (setState st s) = m_readBody s"
  "m_writeQueue (setState st s) = m_writeQueue s"
  "m_writeInProgress (setState st s) = m_writeInProgress s"
  "m_pending (setState st s) = m_pending s" "m_tasks (setState st s) = m_tasks s"
  "m_queued (setState st s) = m_queued s" "m_written (setState st s) = m_written s"
  "m_received (setState st s) = m_received s" "m_handled (setState st s) = m_handled s"
  "m_undefined (setState st s) = m_undefined s"
  by (simp_all add: setState_def)

lemma async_sel [simp]:
  "m_options (async h s) = m_options s" "m_callbacks (async h s) = m_callbacks s"
  "m_deviceInfo (async h s) = m_deviceInfo s" "m_volumeInfo (async h s) = m_volumeInfo s"
  "m_currentApp (async h s) = m_currentApp s" "m_isOn (async h s) = m_isOn s"
  "m_voiceEnabled (async h s) = m_voiceEnabled s" "m_state (async h s) = m_state s"
  "m_shuttingDown (async h s) = m_shuttingDown s" "m_pairing (async h s) = m_pairing s"
  "m_sslContext (async h s) = m_sslContext s" "m_stream (async h s) = m_stream s"
  "m_userDisconnect (async h s) = m_userDisconnect s"
  "m_reconnectDelay (async h s) = m_reconnectDelay s"
  "m_activeFeatures (async h s) = m_activeFeatures s"
  "m_supportedFeatures (async h s) = m_supportedFeatures s"
  "m_voiceStarting (async h s) = m_voiceStarting s"
  "m_voiceSessionId (async h s) = m_voiceSessionId s" "m_generation (async h s) = m_generation s"
  "m_readLength (async h s) = m_readLength s" "m_readShift (async h s) = m_readShift s"
  "m_readBody (async h s) = m_readBody s" "m_writeQueue (async h s) = m_writeQueue s"
  "m_writeInProgress (async h s) = m_writeInProgress s" "m_tasks (async h s) = m_tasks s"
  "m_out (async h s) = m_out s" "m_queued (async h s) = m_queued s"
  "m_written (async h s) = m_written s"
  "m_received (async h s) = m_received s" "m_handled (async h s) = m_handled s"
  "m_undefined (async h s) = m_undefined s"
  by (simp_all add: async_def)

lemma cancel_sel [simp]:
  "m_options (cancel t s) = m_options s" "m_callbacks (cancel t s) = m_callbacks s"
  "m_deviceInfo (cancel t s) = m_deviceInfo s" "m_volumeInfo (cancel t s) = m_volumeInfo s"
  "m_currentApp (cancel t s) = m_currentApp s" "m_isOn (cancel t s) = m_isOn s"
  "m_voiceEnabled (cancel t s) = m_voiceEnabled s" "m_state (cancel t s) = m_state s"
  "m_shuttingDown (cancel t s) = m_shuttingDown s" "m_pairing (cancel t s) = m_pairing s"
  "m_sslContext (cancel t s) = m_sslContext s" "m_stream (cancel t s) = m_stream s"
  "m_userDisconnect (cancel t s) = m_userDisconnect s"
  "m_reconnectDelay (cancel t s) = m_reconnectDelay s"
  "m_activeFeatures (cancel t s) = m_activeFeatures s"
  "m_supportedFeatures (cancel t s) = m_supportedFeatures s"
  "m_voiceStarting (cancel t s) = m_voiceStarting s"
  "m_voiceSessionId (cancel t s) = m_voiceSessionId s" "m_generation (cancel t s) = m_generation s"
  "m_readLength (cancel t s) = m_readLength s" "m_readShift (cancel t s) = m_readShift s"
  "m_readBody (cancel t s) = m_readBody s" "m_writeQueue (cancel t s) = m_writeQueue s"
  "m_writeInProgress (cancel t s) = m_writeInProgress s" "m_tasks (cancel t s) = m_tasks s"
  "m_out (cancel t s) = m_out s" "m_queued (cancel t s) = m_queued s"
  "m_written (cancel t s) = m_written s"
  "m_received (cancel t s) = m_received s" "m_handled (cancel t s) = m_handled s"
  "m_undefined (cancel t s) = m_undefined s"
  by (simp_all add: cancel_def)

lemma expires_after_sel [simp]:
  "m_options (expires_after t d s) = m_options s"
  "m_callbacks (expires_after t d s) = m_callbacks s"
  "m_deviceInfo (expires_after t d s) = m_deviceInfo s"
  "m_volumeInfo (expires_after t d s) = m_volumeInfo s"
  "m_currentApp (expires_after t d s) = m_currentApp s" "m_isOn (expires_after t d s) = m_isOn s"
  "m_voiceEnabled (expires_after t d s) = m_voiceEnabled s"
  "m_state (expires_after t d s) = m_state s"
  "m_shuttingDown (expires_after t d s) = m_shuttingDown s"
  "m_pairing (expires_after t d s) = m_pairing s"
  "m_sslContext (expires_after t d s) = m_sslContext s"
  "m_stream (expires_after t d s) = m_stream s"
  "m_userDisconnect (expires_after t d s) = m_userDisconnect s"
  "m_reconnectDelay (expires_after t d s) = m_reconnectDelay s"
  "m_activeFeatures (expires_after t d s) = m_activeFeatures s"
  "m_supportedFeatures (expires_after t d s) = m_supportedFeatures s"
  "m_voiceStarting (expires_after t d s) = m_voiceStarting s"
  "m_voiceSessionId (expires_after t d s) = m_voiceSessionId s"
  "m_generation (expires_after t d s) = m_generation s"
  "m_readLength (expires_after t d s) = m_readLength s"
  "m_readShift (expires_after t d s) = m_readShift s"
  "m_readBody (expires_after t d s) = m_readBody s"
  "m_writeQueue (expires_after t d s) = m_writeQueue s"
  "m_writeInProgress (expires_after t d s) = m_writeInProgress s"
  "m_tasks (expires_after t d s) = m_tasks s" "m_out (expires_after t d s) = m_out s"
  "m_queued (expires_after t d s) = m_queued s" "m_written (expires_after t d s) = m_written s"
  "m_received (expires_after t d s) = m_received s" "m_handled (expires_after t d s) = m_handled s"
  "m_undefined (expires_after t d s) = m_undefined s"
  by (simp_all add: expires_after_def)

lemma resetIdleTimer_sel [simp]:
  "m_options (resetIdleTimer s) = m_options s" "m_callbacks (resetIdleTimer s) = m_callbacks s"
  "m_deviceInfo (resetIdleTimer s) = m_deviceInfo s"
  "m_volumeInfo (resetIdleTimer s) = m_volumeInfo s"
  "m_currentApp (resetIdleTimer s) = m_currentApp s" "m_isOn (resetIdleTimer s) = m_isOn s"
  "m_voiceEnabled (resetIdleTimer s) = m_voiceEnabled s" "m_state (resetIdleTimer s) = m_state s"
  "m_shuttingDown (resetIdleTimer s) = m_shuttingDown s"
  "m_pairing (resetIdleTimer s) = m_pairing s" "m_sslContext (resetIdleTimer s) = m_sslContext s"
  "m_stream (resetIdleTimer s) = m_stream s"
  "m_userDisconnect (resetIdleTimer s) = m_userDisconnect s"
  "m_reconnectDelay (resetIdleTimer s) = m_reconnectDelay s"
  "m_activeFeatures (resetIdleTimer s) = m_activeFeatures s"
  "m_supportedFeatures (resetIdleTimer s) = m_supportedFeatures s"
  "m_voiceStarting (resetIdleTimer s) = m_voiceStarting s"
  "m_voiceSessionId (resetIdleTimer s) = m_voiceSessionId s"
  "m_generation (resetIdleTimer s) = m_generation s"
  "m_readLength (resetIdleTimer s) = m_readLength s"
  "m_readShift (resetIdleTimer s) = m_readShift s" "m_readBody (resetIdleTimer s) = m_readBody s"
  "m_writeQueue (resetIdleTimer s) = m_writeQueue s"
  "m_writeInProgress (resetIdleTimer s) = m_writeInProgress s"
  "m_tasks (resetIdleTimer s) = m_tasks s" "m_out (resetIdleTimer s) = m_out s"
  "m_queued (resetIdleTimer s) = m_queued s" "m_written (resetIdleTimer s) = m_written s"
  "m_received (resetIdleTimer s) = m_received s" "m_handled (resetIdleTimer s) = m_handled s"
  "m_undefined (resetIdleTimer s) = m_undefined s"
  by (simp_all add: resetIdleTimer_def)

section \<open>Outstanding operations\<close>

text \<open>
  The operations of one connection form a chain (resolve, connect, handshake, then reads) of which one at a
  time is outstanding; beside it there is at most one write. Both are told apart from operations
  of earlier connections by the generation.
\<close>

fun chain_gen :: "handler \<Rightarrow> u64 option" where
  "chain_gen (ResolveH g) = Some g"
| "chain_gen (ConnectH g) = Some g"
| "chain_gen (HandshakeH g) = Some g"
| "chain_gen (ReadByteH g) = Some g"
| "chain_gen (ReadBodyH g) = Some g"
| "chain_gen _ = None"

fun write_of :: "handler \<Rightarrow> (u64 \<times> bytes) option" where
  "write_of (WriteH g b) = Some (g, b)"
| "write_of _ = None"

definition gen_of :: "handler \<Rightarrow> u64 option" where
  "gen_of h = (case chain_gen h of Some g \<Rightarrow> Some g | None \<Rightarrow> map_option fst (write_of h))"

definition chain :: "u64 \<Rightarrow> (handler \<times> wait) list \<Rightarrow> nat" where
  "chain g ps = length (filter (\<lambda>p. chain_gen (fst p) = Some g) ps)"

definition writes :: "u64 \<Rightarrow> (handler \<times> wait) list \<Rightarrow> bytes list" where
  "writes g ps = map snd (filter (\<lambda>p. fst p = g) (List.map_filter (\<lambda>p. write_of (fst p)) ps))"

definition gens_le :: "u64 \<Rightarrow> (handler \<times> wait) list \<Rightarrow> bool" where
  "gens_le g ps \<longleftrightarrow> (\<forall>p\<in>set ps. \<forall>g'. gen_of (fst p) = Some g' \<longrightarrow> g' \<le> g)"

text \<open>They look at the handlers only, so changing the state of a wait changes nothing.\<close>

lemma chain_fst: "map fst ps = map fst qs \<Longrightarrow> chain g ps = chain g qs"
proof -
  have "chain g ps = length (filter (\<lambda>h. chain_gen h = Some g) (map fst ps))" for ps
    by (simp add: chain_def filter_map comp_def)
  then show "map fst ps = map fst qs \<Longrightarrow> chain g ps = chain g qs"
    by metis
qed

lemma writes_fst: "map fst ps = map fst qs \<Longrightarrow> writes g ps = writes g qs"
proof -
  have "writes g ps = map snd (filter (\<lambda>p. fst p = g) (List.map_filter write_of (map fst ps)))" for ps
    by (simp add: writes_def List.map_filter_def filter_map comp_def)
  then show "map fst ps = map fst qs \<Longrightarrow> writes g ps = writes g qs"
    by metis
qed

lemma gens_le_fst: "map fst ps = map fst qs \<Longrightarrow> gens_le g ps = gens_le g qs"
proof -
  have "gens_le g ps \<longleftrightarrow> (\<forall>h\<in>set (map fst ps). \<forall>g'. gen_of h = Some g' \<longrightarrow> g' \<le> g)" for ps
    by (simp add: gens_le_def)
  then show "map fst ps = map fst qs \<Longrightarrow> gens_le g ps = gens_le g qs"
    by metis
qed

lemma cancel_fst: "map fst (m_pending (cancel t s)) = map fst (m_pending s)"
  by (simp add: cancel_def comp_def case_prod_beta)

lemma outstanding_append [simp]:
  "chain g (ps @ qs) = chain g ps + chain g qs"
  "writes g (ps @ qs) = writes g ps @ writes g qs"
  "gens_le g (ps @ qs) \<longleftrightarrow> gens_le g ps \<and> gens_le g qs"
  by (auto simp: chain_def writes_def gens_le_def List.map_filter_def)

lemma outstanding_Cons [simp]:
  "chain g ((h, w) # ps) = (if chain_gen h = Some g then 1 else 0) + chain g ps"
  "writes g ((h, w) # ps) = (case write_of h of None \<Rightarrow> [] | Some (g', b) \<Rightarrow> if g' = g then [b] else []) @ writes g ps"
  "gens_le g ((h, w) # ps) \<longleftrightarrow> (\<forall>g'. gen_of h = Some g' \<longrightarrow> g' \<le> g) \<and> gens_le g ps"
  by (auto simp: chain_def writes_def gens_le_def List.map_filter_def split: option.splits)

lemma outstanding_Nil [simp]: "chain g [] = 0" "writes g [] = []" "gens_le g []"
  by (simp_all add: chain_def writes_def gens_le_def List.map_filter_def)

lemma pending_ops [simp]:
  "chain g (m_pending (async h s)) = chain g (m_pending s) + (if chain_gen h = Some g then 1 else 0)"
  "writes g (m_pending (async h s)) = writes g (m_pending s) @
     (case write_of h of None \<Rightarrow> [] | Some (g', b) \<Rightarrow> if g' = g then [b] else [])"
  "gens_le g (m_pending (async h s)) \<longleftrightarrow> gens_le g (m_pending s) \<and> (\<forall>g'. gen_of h = Some g' \<longrightarrow> g' \<le> g)"
  "chain g (m_pending (cancel t s)) = chain g (m_pending s)"
  "writes g (m_pending (cancel t s)) = writes g (m_pending s)"
  "gens_le g (m_pending (cancel t s)) \<longleftrightarrow> gens_le g (m_pending s)"
  "chain g (m_pending (expires_after t d s)) = chain g (m_pending s)"
  "writes g (m_pending (expires_after t d s)) = writes g (m_pending s)"
  "gens_le g (m_pending (expires_after t d s)) \<longleftrightarrow> gens_le g (m_pending s)"
  using chain_fst [OF cancel_fst] writes_fst [OF cancel_fst] gens_le_fst [OF cancel_fst]
  by (simp_all add: async_def expires_after_def)

lemma pending_resetIdleTimer [simp]:
  "chain g (m_pending (resetIdleTimer s)) = chain g (m_pending s)"
  "writes g (m_pending (resetIdleTimer s)) = writes g (m_pending s)"
  "gens_le g (m_pending (resetIdleTimer s)) \<longleftrightarrow> gens_le g (m_pending s)"
  by (simp_all add: resetIdleTimer_def gen_of_def)

text \<open>No operation belongs to a generation that has not begun.\<close>

lemma outstanding_fresh:
  assumes "gens_le g ps" and "g < g'"
  shows "chain g' ps = 0 \<and> writes g' ps = [] \<and> gens_le g' ps"
proof -
  have "chain_gen h = Some g' \<Longrightarrow> gen_of h = Some g'" and "write_of h = Some (g', b) \<Longrightarrow> gen_of h = Some g'" for h b
    by (cases h; simp add: gen_of_def)+
  with assms show ?thesis
    by (fastforce simp: gens_le_def chain_def writes_def List.map_filter_def filter_empty_conv)
qed

lemma next_generation: "unat (g::u64) < 2 ^ 64 - 1 \<Longrightarrow> g < g + 1 \<and> unat (g + 1) = Suc (unat g)"
  by (simp add: word_less_nat_alt unat_word_ariths)

section \<open>The invariant\<close>

text \<open>
  The parameters say what is running: \<open>k\<close> is the number of handlers of the chain that have been taken
  out and not yet replaced, \<open>j\<close> that the handler of the write has been taken out, \<open>n\<close> bounds the
  number of generations so far.
\<close>

definition generations_ok :: "nat \<Rightarrow> Impl \<Rightarrow> bool" where
  "generations_ok n s \<longleftrightarrow> unat (m_generation s) \<le> n \<and> gens_le (m_generation s) (m_pending s)"

definition connection_ok :: "nat \<Rightarrow> Impl \<Rightarrow> bool" where
  "connection_ok k s \<longleftrightarrow>
     (m_stream s = None \<longrightarrow> chain (m_generation s) (m_pending s) + k = 0) \<and>
     (m_stream s \<noteq> None \<longrightarrow> chain (m_generation s) (m_pending s) + k \<le> 1) \<and>
     (m_stream s \<noteq> None \<longrightarrow> \<not> m_shuttingDown s \<longrightarrow> chain (m_generation s) (m_pending s) + k = 1)"

definition writer_ok :: "bool \<Rightarrow> Impl \<Rightarrow> bool" where
  "writer_ok j s \<longleftrightarrow>
     (m_writeInProgress s \<longrightarrow> m_stream s \<noteq> None \<and> m_writeQueue s \<noteq> [] \<and>
        writes (m_generation s) (m_pending s) = (if j then [] else [hd (m_writeQueue s)])) \<and>
     (\<not> m_writeInProgress s \<longrightarrow> \<not> j \<and> writes (m_generation s) (m_pending s) = [] \<and>
        (m_writeQueue s = [] \<or> m_shuttingDown s)) \<and>
     (m_stream s = None \<longrightarrow> m_writeQueue s = []) \<and> m_queued s = m_written s @ m_writeQueue s"

definition data_ok :: "Options \<Rightarrow> Impl \<Rightarrow> bool" where
  "data_ok opts s \<longleftrightarrow> m_options s = opts \<and> \<not> m_undefined s \<and>
     (m_userDisconnect s \<longrightarrow> m_stream s = None) \<and> (m_stream s \<noteq> None \<longrightarrow> m_stream s = m_sslContext s) \<and>
     100 \<le> m_reconnectDelay s \<and> m_reconnectDelay s \<le> 30000 \<and> m_readShift s \<le> 63 \<and>
     m_activeFeatures s AND initialFeatures opts = m_activeFeatures s \<and>
     (m_voiceEnabled s \<longrightarrow> m_activeFeatures s AND FeatureVoice \<noteq> 0)"

definition voice_ok :: "Impl \<Rightarrow> bool" where
  "voice_ok s \<longleftrightarrow> (m_voiceStarting s \<longrightarrow> m_voiceSessionId s = None) \<and>
     (m_stream s = None \<longrightarrow> \<not> m_shuttingDown s \<longrightarrow> \<not> m_voiceStarting s \<and> m_voiceSessionId s = None)"

definition state_ok :: "Impl \<Rightarrow> bool" where
  "state_ok s \<longleftrightarrow> (m_state s = Connected \<longrightarrow> m_stream s \<noteq> None \<or> m_shuttingDown s)"

definition remote_inv :: "Options \<Rightarrow> nat \<Rightarrow> nat \<Rightarrow> bool \<Rightarrow> Impl \<Rightarrow> bool" where
  "remote_inv opts n k j s \<longleftrightarrow>
     generations_ok n s \<and> connection_ok k s \<and> writer_ok j s \<and> data_ok opts s \<and> voice_ok s \<and> state_ok s"

lemmas inv_defs = remote_inv_def generations_ok_def connection_ok_def writer_ok_def data_ok_def voice_ok_def state_ok_def

lemma inv_Suc: "remote_inv opts n k j s \<Longrightarrow> remote_inv opts (Suc n) k j s"
  by (auto simp: remote_inv_def generations_ok_def)

subsection \<open>Operations that do not close the stream\<close>

lemma inv_callbacks [simp]:
  "remote_inv opts n k j (withCallbacks f c s) = remote_inv opts n k j s"
  "remote_inv opts n k j (emitError x s) = remote_inv opts n k j s"
  "remote_inv opts n k j (emitAvailability b s) = remote_inv opts n k j s"
  "remote_inv opts n k j (emitVoiceStopped s) = remote_inv opts n k j s"
  by (simp_all add: inv_defs)

lemma inv_timers [simp]:
  "remote_inv opts n k j (cancel t s) = remote_inv opts n k j s"
  "remote_inv opts n k j (expires_after t d s) = remote_inv opts n k j s"
  "remote_inv opts n k j (resetIdleTimer s) = remote_inv opts n k j s"
  by (simp_all add: inv_defs)

lemma inv_async_timer [simp]:
  "chain_gen h = None \<Longrightarrow> write_of h = None \<Longrightarrow> remote_inv opts n k j (async h s) = remote_inv opts n k j s"
  by (simp add: inv_defs gen_of_def)

lemma inv_unused [simp]:
  "remote_inv opts n k j (s\<lparr>m_tasks := ts\<rparr>) = remote_inv opts n k j s"
  "remote_inv opts n k j (s\<lparr>m_files := fs\<rparr>) = remote_inv opts n k j s"
  "remote_inv opts n k j (s\<lparr>m_callbacks := cs\<rparr>) = remote_inv opts n k j s"
  "remote_inv opts n k j (s\<lparr>m_lengthByte := b\<rparr>) = remote_inv opts n k j s"
  "remote_inv opts n k j (s\<lparr>m_readBody := bs\<rparr>) = remote_inv opts n k j s"
  "remote_inv opts n k j (s\<lparr>m_readLength := l\<rparr>) = remote_inv opts n k j s"
  "remote_inv opts n k j (s\<lparr>m_currentApp := a\<rparr>) = remote_inv opts n k j s"
  "remote_inv opts n k j (s\<lparr>m_deviceInfo := di\<rparr>) = remote_inv opts n k j s"
  "remote_inv opts n k j (s\<lparr>m_volumeInfo := vi\<rparr>) = remote_inv opts n k j s"
  "remote_inv opts n k j (s\<lparr>m_isOn := b'\<rparr>) = remote_inv opts n k j s"
  "remote_inv opts n k j (s\<lparr>m_supportedFeatures := sf\<rparr>) = remote_inv opts n k j s"
  "remote_inv opts n k j (s\<lparr>m_imeCounter := ic, m_imeFieldCounter := fc\<rparr>) = remote_inv opts n k j s"
  "remote_inv opts n k j (s\<lparr>m_promises := pr\<rparr>) = remote_inv opts n k j s"
  "remote_inv opts n k j (s\<lparr>m_pairing := pa\<rparr>) = remote_inv opts n k j s"
  "remote_inv opts n k j (s\<lparr>m_numbers := nu\<rparr>) = remote_inv opts n k j s"
  "remote_inv opts n k j (s\<lparr>m_work := wo\<rparr>) = remote_inv opts n k j s"
  "remote_inv opts n k j (s\<lparr>m_received := bs\<rparr>) = remote_inv opts n k j s"
  "remote_inv opts n k j (s\<lparr>m_handled := ms\<rparr>) = remote_inv opts n k j s"
  by (simp_all add: inv_defs)

text \<open>Each part of the invariant mentions few fields.\<close>

lemma parts_unused [simp]:
  "generations_ok n (s\<lparr>m_activeFeatures := af\<rparr>) = generations_ok n s"
  "generations_ok n (s\<lparr>m_voiceEnabled := ve\<rparr>) = generations_ok n s"
  "generations_ok n (s\<lparr>m_voiceStarting := vs\<rparr>) = generations_ok n s"
  "generations_ok n (s\<lparr>m_voiceSessionId := vi\<rparr>) = generations_ok n s"
  "generations_ok n (s\<lparr>m_readShift := rs\<rparr>) = generations_ok n s"
  "generations_ok n (s\<lparr>m_reconnectDelay := rd\<rparr>) = generations_ok n s"
  "generations_ok n (s\<lparr>m_userDisconnect := ud\<rparr>) = generations_ok n s"
  "generations_ok n (s\<lparr>m_sslContext := sc\<rparr>) = generations_ok n s"
  "connection_ok k (s\<lparr>m_activeFeatures := af\<rparr>) = connection_ok k s"
  "connection_ok k (s\<lparr>m_voiceEnabled := ve\<rparr>) = connection_ok k s"
  "connection_ok k (s\<lparr>m_voiceStarting := vs\<rparr>) = connection_ok k s"
  "connection_ok k (s\<lparr>m_voiceSessionId := vi\<rparr>) = connection_ok k s"
  "connection_ok k (s\<lparr>m_readShift := rs\<rparr>) = connection_ok k s"
  "connection_ok k (s\<lparr>m_reconnectDelay := rd\<rparr>) = connection_ok k s"
  "connection_ok k (s\<lparr>m_userDisconnect := ud\<rparr>) = connection_ok k s"
  "connection_ok k (s\<lparr>m_sslContext := sc\<rparr>) = connection_ok k s"
  "writer_ok j (s\<lparr>m_activeFeatures := af\<rparr>) = writer_ok j s"
  "writer_ok j (s\<lparr>m_voiceEnabled := ve\<rparr>) = writer_ok j s"
  "writer_ok j (s\<lparr>m_voiceStarting := vs\<rparr>) = writer_ok j s"
  "writer_ok j (s\<lparr>m_voiceSessionId := vi\<rparr>) = writer_ok j s"
  "writer_ok j (s\<lparr>m_readShift := rs\<rparr>) = writer_ok j s"
  "writer_ok j (s\<lparr>m_reconnectDelay := rd\<rparr>) = writer_ok j s"
  "writer_ok j (s\<lparr>m_userDisconnect := ud\<rparr>) = writer_ok j s"
  "writer_ok j (s\<lparr>m_sslContext := sc\<rparr>) = writer_ok j s"
  "data_ok opts (s\<lparr>m_voiceStarting := vs\<rparr>) = data_ok opts s"
  "data_ok opts (s\<lparr>m_voiceSessionId := vi\<rparr>) = data_ok opts s"
  "voice_ok (s\<lparr>m_activeFeatures := af\<rparr>) = voice_ok s"
  "voice_ok (s\<lparr>m_voiceEnabled := ve\<rparr>) = voice_ok s"
  "voice_ok (s\<lparr>m_readShift := rs\<rparr>) = voice_ok s"
  "voice_ok (s\<lparr>m_reconnectDelay := rd\<rparr>) = voice_ok s"
  "voice_ok (s\<lparr>m_userDisconnect := ud\<rparr>) = voice_ok s"
  "voice_ok (s\<lparr>m_sslContext := sc\<rparr>) = voice_ok s"
  "state_ok (s\<lparr>m_activeFeatures := af\<rparr>) = state_ok s"
  "state_ok (s\<lparr>m_voiceEnabled := ve\<rparr>) = state_ok s"
  "state_ok (s\<lparr>m_voiceStarting := vs\<rparr>) = state_ok s"
  "state_ok (s\<lparr>m_voiceSessionId := vi\<rparr>) = state_ok s"
  "state_ok (s\<lparr>m_readShift := rs\<rparr>) = state_ok s"
  "state_ok (s\<lparr>m_reconnectDelay := rd\<rparr>) = state_ok s"
  "state_ok (s\<lparr>m_userDisconnect := ud\<rparr>) = state_ok s"
  "state_ok (s\<lparr>m_sslContext := sc\<rparr>) = state_ok s"
  by (simp_all add: generations_ok_def connection_ok_def writer_ok_def data_ok_def voice_ok_def state_ok_def)

lemma setState_parts [simp]:
  "generations_ok n (setState st s) = generations_ok n s"
  "connection_ok k (setState st s) = connection_ok k s"
  "writer_ok j (setState st s) = writer_ok j s"
  "data_ok opts (setState st s) = data_ok opts s"
  "voice_ok (setState st s) = voice_ok s"
  "state_ok (setState st s) \<longleftrightarrow> (st = Connected \<longrightarrow> m_stream s \<noteq> None \<or> m_shuttingDown s)"
  by (simp_all add: generations_ok_def connection_ok_def writer_ok_def data_ok_def voice_ok_def state_ok_def setState_def)

lemma beginWrite_sel [simp]:
  "m_options (beginWrite s) = m_options s" "m_callbacks (beginWrite s) = m_callbacks s"
  "m_deviceInfo (beginWrite s) = m_deviceInfo s" "m_volumeInfo (beginWrite s) = m_volumeInfo s"
  "m_currentApp (beginWrite s) = m_currentApp s" "m_isOn (beginWrite s) = m_isOn s"
  "m_voiceEnabled (beginWrite s) = m_voiceEnabled s" "m_state (beginWrite s) = m_state s"
  "m_shuttingDown (beginWrite s) = m_shuttingDown s" "m_pairing (beginWrite s) = m_pairing s"
  "m_sslContext (beginWrite s) = m_sslContext s" "m_stream (beginWrite s) = m_stream s"
  "m_userDisconnect (beginWrite s) = m_userDisconnect s"
  "m_reconnectDelay (beginWrite s) = m_reconnectDelay s"
  "m_activeFeatures (beginWrite s) = m_activeFeatures s"
  "m_supportedFeatures (beginWrite s) = m_supportedFeatures s"
  "m_voiceStarting (beginWrite s) = m_voiceStarting s"
  "m_voiceSessionId (beginWrite s) = m_voiceSessionId s"
  "m_generation (beginWrite s) = m_generation s" "m_readLength (beginWrite s) = m_readLength s"
  "m_readShift (beginWrite s) = m_readShift s" "m_readBody (beginWrite s) = m_readBody s"
  "m_tasks (beginWrite s) = m_tasks s" "m_out (beginWrite s) = m_out s"
  "m_undefined (beginWrite s) = m_undefined s"
  "m_received (beginWrite s) = m_received s" "m_handled (beginWrite s) = m_handled s"
  by (simp_all add: beginWrite_def)

lemma queueMessage_sel [simp]:
  "m_options (queueMessage p s) = m_options s" "m_callbacks (queueMessage p s) = m_callbacks s"
  "m_deviceInfo (queueMessage p s) = m_deviceInfo s"
  "m_volumeInfo (queueMessage p s) = m_volumeInfo s"
  "m_currentApp (queueMessage p s) = m_currentApp s" "m_isOn (queueMessage p s) = m_isOn s"
  "m_voiceEnabled (queueMessage p s) = m_voiceEnabled s" "m_state (queueMessage p s) = m_state s"
  "m_shuttingDown (queueMessage p s) = m_shuttingDown s"
  "m_pairing (queueMessage p s) = m_pairing s" "m_sslContext (queueMessage p s) = m_sslContext s"
  "m_stream (queueMessage p s) = m_stream s"
  "m_userDisconnect (queueMessage p s) = m_userDisconnect s"
  "m_reconnectDelay (queueMessage p s) = m_reconnectDelay s"
  "m_activeFeatures (queueMessage p s) = m_activeFeatures s"
  "m_supportedFeatures (queueMessage p s) = m_supportedFeatures s"
  "m_voiceStarting (queueMessage p s) = m_voiceStarting s"
  "m_voiceSessionId (queueMessage p s) = m_voiceSessionId s"
  "m_generation (queueMessage p s) = m_generation s"
  "m_readLength (queueMessage p s) = m_readLength s"
  "m_readShift (queueMessage p s) = m_readShift s" "m_readBody (queueMessage p s) = m_readBody s"
  "m_tasks (queueMessage p s) = m_tasks s" "m_out (queueMessage p s) = m_out s"
  "m_undefined (queueMessage p s) = m_undefined s"
  "m_received (queueMessage p s) = m_received s" "m_handled (queueMessage p s) = m_handled s"
  by (simp_all add: queueMessage_def Let_def)

lemma pending_beginWrite [simp]:
  "chain g (m_pending (beginWrite s)) = chain g (m_pending s)"
  "g = m_generation s \<Longrightarrow> gens_le g (m_pending (beginWrite s)) \<longleftrightarrow> gens_le g (m_pending s)"
  by (simp_all add: beginWrite_def gen_of_def)

lemma pending_queueMessage [simp]:
  "chain g (m_pending (queueMessage p s)) = chain g (m_pending s)"
  "gens_le (m_generation s) (m_pending (queueMessage p s)) \<longleftrightarrow> gens_le (m_generation s) (m_pending s)"
  by (simp_all add: queueMessage_def beginWrite_def Let_def gen_of_def)

lemma queueMessage_parts [simp]:
  "generations_ok n (queueMessage p s) = generations_ok n s"
  "connection_ok k (queueMessage p s) = connection_ok k s"
  "data_ok opts (queueMessage p s) = data_ok opts s"
  "voice_ok (queueMessage p s) = voice_ok s"
  "state_ok (queueMessage p s) = state_ok s"
  by (simp_all add: generations_ok_def connection_ok_def data_ok_def voice_ok_def state_ok_def)

lemma queueMessage_writer: "writer_ok False s \<Longrightarrow> writer_ok False (queueMessage p s)"
  by (cases "m_stream s"; cases "m_writeInProgress s"; cases "m_writeQueue s")
     (simp_all add: queueMessage_def beginWrite_def Let_def writer_ok_def)

lemma queueMessage_inv: "remote_inv opts n k False s \<Longrightarrow> remote_inv opts n k False (queueMessage p s)"
  by (simp add: remote_inv_def queueMessage_writer)

lemma inv_setState:
  "remote_inv opts n k j s \<Longrightarrow> m_stream s \<noteq> None \<Longrightarrow> remote_inv opts n k j (setState st s)"
  by (simp add: remote_inv_def)

lemma handleMessage_stream [simp]:
  "m_stream (handleMessage m s) = m_stream s" "m_generation (handleMessage m s) = m_generation s"
  by (simp_all add: handleMessage_def Let_def split: Kind.split)

lemma data_configure:
  assumes "data_ok opts s"
  shows "data_ok opts (s\<lparr>m_activeFeatures := m_activeFeatures s AND f,
      m_voiceEnabled := (m_activeFeatures s AND f AND FeatureVoice \<noteq> 0)\<rparr>)"
proof -
  have "m_activeFeatures s AND f AND initialFeatures opts = m_activeFeatures s AND f"
    if "m_activeFeatures s AND initialFeatures opts = m_activeFeatures s"
    using that by (metis and.commute and.left_commute)
  with assms show ?thesis
    by (simp add: data_ok_def and.assoc)
qed

lemma inv_configure:
  "remote_inv opts n k j s \<Longrightarrow> remote_inv opts n k j (s\<lparr>m_activeFeatures := m_activeFeatures s AND f,
      m_voiceEnabled := (m_activeFeatures s AND f AND FeatureVoice \<noteq> 0)\<rparr>)"
  using data_configure by (simp add: remote_inv_def)

lemma inv_voice_begin:
  "remote_inv opts n k j s \<Longrightarrow> m_stream s \<noteq> None \<Longrightarrow> remote_inv opts n k j (s\<lparr>m_voiceStarting := False, m_voiceSessionId := x\<rparr>)"
  by (simp add: remote_inv_def) (auto simp: voice_ok_def)

lemma cancel_voiceStarting: "cancel t (s\<lparr>m_voiceStarting := b\<rparr>) = (cancel t s)\<lparr>m_voiceStarting := b\<rparr>"
  by (simp add: cancel_def)

lemma handleMessage_inv:
  assumes "remote_inv opts n k False s" and "m_stream s \<noteq> None"
  shows "remote_inv opts n k False (handleMessage m s)"
proof (cases "kind (parseRemote m)")
  case Configure
  with assms show ?thesis
    using inv_configure [of opts n k False "s\<lparr>m_handled := m_handled s @ [m], m_supportedFeatures := supportedFeatures (parseRemote m)\<rparr>"]
    by (simp add: handleMessage_def Let_def queueMessage_inv and.assoc)
next
  case Start
  with assms show ?thesis
    by (simp add: handleMessage_def Let_def inv_setState)
next
  case VoiceBegin
  with assms show ?thesis
    using inv_voice_begin [of opts n k False "cancel VoiceTimer (s\<lparr>m_handled := m_handled s @ [m]\<rparr>)"]
    by (simp add: handleMessage_def Let_def queueMessage_inv cancel_voiceStarting)
qed (use assms in \<open>simp_all add: handleMessage_def queueMessage_inv Let_def\<close>)

subsection \<open>Closing the stream\<close>

text \<open>What holds between closing the stream and announcing the new state.\<close>

definition closed_inv :: "Options \<Rightarrow> nat \<Rightarrow> Impl \<Rightarrow> bool" where
  "closed_inv opts n s \<longleftrightarrow> generations_ok n s \<and> connection_ok 0 s \<and> writer_ok False s \<and> data_ok opts s \<and>
     voice_ok s \<and> m_stream s = None"

lemma closeStream_sel [simp]:
  "m_pending (closeStream s) = m_pending s" "m_options (closeStream s) = m_options s"
  "m_userDisconnect (closeStream s) = m_userDisconnect s" "m_shuttingDown (closeStream s) = m_shuttingDown s"
  "m_reconnectDelay (closeStream s) = m_reconnectDelay s" "m_sslContext (closeStream s) = m_sslContext s"
  "m_state (closeStream s) = m_state s" "m_stream (closeStream s) = None" "m_out (closeStream s) = m_out s"
  "m_generation (closeStream s) = m_generation s + 1" "m_tasks (closeStream s) = m_tasks s"
  "m_callbacks (closeStream s) = m_callbacks s" "m_files (closeStream s) = m_files s"
  by (simp_all add: closeStream_def)

lemma closeStream_closed:
  assumes "generations_ok n s" and "data_ok opts s" and "n < 2 ^ 64 - 1"
  shows "closed_inv opts (Suc n) (closeStream s)"
proof -
  let ?g = "m_generation s"
  have "unat ?g < 2 ^ 64 - 1" and le: "gens_le ?g (m_pending s)"
    using assms(1,3) by (auto simp: generations_ok_def)
  then have g: "?g < ?g + 1" "unat (?g + 1) = Suc (unat ?g)"
    using next_generation by blast+
  note fresh = outstanding_fresh [OF le g(1)]
  have "generations_ok (Suc n) (closeStream s)"
    using fresh g(2) assms(1) by (simp add: generations_ok_def)
  moreover have "connection_ok 0 (closeStream s)" and "writer_ok False (closeStream s)" and "voice_ok (closeStream s)"
    using fresh by (simp_all add: connection_ok_def writer_ok_def voice_ok_def closeStream_def)
  moreover have "data_ok opts (closeStream s)"
    using assms(2) by (simp add: data_ok_def closeStream_def)
  ultimately show ?thesis
    by (simp add: closed_inv_def)
qed

lemma closed_ops [simp]:
  "closed_inv opts n (withCallbacks f c s) = closed_inv opts n s"
  "closed_inv opts n (emitError x s) = closed_inv opts n s"
  "closed_inv opts n (emitAvailability b s) = closed_inv opts n s"
  "closed_inv opts n (cancel t s) = closed_inv opts n s"
  "closed_inv opts n (expires_after t d s) = closed_inv opts n s"
  "closed_inv opts n (s\<lparr>m_work := w\<rparr>) = closed_inv opts n s"
  by (simp_all add: closed_inv_def generations_ok_def connection_ok_def writer_ok_def data_ok_def voice_ok_def)

lemma closed_setState: "closed_inv opts n s \<Longrightarrow> st \<noteq> Connected \<Longrightarrow> remote_inv opts n 0 False (setState st s)"
  by (simp add: closed_inv_def remote_inv_def)

lemma closed_shutdown: "closed_inv opts n s \<Longrightarrow> m_shuttingDown s \<Longrightarrow> remote_inv opts n 0 False s"
  by (simp add: closed_inv_def remote_inv_def state_ok_def)

lemma inv_reconnectDelay:
  "remote_inv opts n k j s \<Longrightarrow> 100 \<le> d \<Longrightarrow> d \<le> 30000 \<Longrightarrow> remote_inv opts n k j (s\<lparr>m_reconnectDelay := d\<rparr>)"
  by (simp add: remote_inv_def data_ok_def)

lemma handleConnectionLoss_inv:
  assumes "generations_ok n s" and "data_ok opts s" and "n < 2 ^ 64 - 1" and "g = m_generation s"
  shows "remote_inv opts (Suc n) 0 False (handleConnectionLoss g s)"
proof -
  note closed = closeStream_closed [OF assms(1-3)]
  have delay: "100 \<le> m_reconnectDelay s" "m_reconnectDelay s \<le> 30000"
    using assms(2) by (simp_all add: data_ok_def)
  with closed assms(4) show ?thesis
    by (auto simp: handleConnectionLoss_def Let_def intro!: inv_reconnectDelay closed_setState)
qed

lemma emitError_parts [simp]:
  "generations_ok n (emitError x s) = generations_ok n s" "data_ok opts (emitError x s) = data_ok opts s"
  by (simp_all add: generations_ok_def data_ok_def)

lemma connectionFailed_inv:
  assumes "generations_ok n s" and "data_ok opts s" and "n < 2 ^ 64 - 1" and "m_stream s \<noteq> None"
    and "m_shuttingDown s \<Longrightarrow> remote_inv opts n 0 False s" and "g = m_generation s"
  shows "remote_inv opts (Suc n) 0 False (connectionFailed p e g s)"
proof (cases "m_shuttingDown s")
  case True
  with assms(5) show ?thesis
    by (simp add: connectionFailed_def inv_Suc)
next
  case False
  have "\<not> m_userDisconnect s"
    using assms(2,4) by (auto simp: data_ok_def)
  with False assms show ?thesis
    by (simp add: connectionFailed_def handleConnectionLoss_inv)
qed

lemma authenticationFailed_inv:
  assumes "generations_ok n s" and "data_ok opts s" and "n < 2 ^ 64 - 1" and "m_stream s \<noteq> None"
    and "m_shuttingDown s \<Longrightarrow> remote_inv opts n 0 False s" and "g = m_generation s"
  shows "remote_inv opts (Suc n) 0 False (authenticationFailed e g s)"
proof (cases "m_shuttingDown s")
  case True
  with assms(5) show ?thesis
    by (simp add: authenticationFailed_def inv_Suc)
next
  case False
  have "\<not> m_userDisconnect s"
    using assms(2,4) by (auto simp: data_ok_def)
  with False assms closeStream_closed [of n "emitError x s" opts for x] show ?thesis
    by (auto simp: authenticationFailed_def Let_def intro!: closed_setState)
qed

subsection \<open>Handlers of the chain\<close>

lemma inv_stream: "remote_inv opts n (Suc k) j s \<Longrightarrow> m_stream s \<noteq> None"
  by (auto simp: remote_inv_def connection_ok_def split: if_splits)

lemma inv_readShift: "remote_inv opts n k j s \<Longrightarrow> r \<le> 63 \<Longrightarrow> remote_inv opts n k j (s\<lparr>m_readShift := r\<rparr>)"
  by (simp add: remote_inv_def data_ok_def)

lemma inv_drop: "remote_inv opts n (Suc 0) j s \<Longrightarrow> m_shuttingDown s \<Longrightarrow> remote_inv opts n 0 j s"
  by (auto simp: remote_inv_def connection_ok_def split: if_splits)

lemma inv_async_chain:
  "remote_inv opts n (Suc 0) j s \<Longrightarrow> chain_gen h = Some (m_generation s) \<Longrightarrow> remote_inv opts n 0 j (async h s)"
proof -
  assume *: "remote_inv opts n (Suc 0) j s" "chain_gen h = Some (m_generation s)"
  then have "write_of h = None" and "gen_of h = Some (m_generation s)"
    by (cases h; simp add: gen_of_def)+
  moreover have "data_ok opts (async h s) = data_ok opts s" "voice_ok (async h s) = voice_ok s" "state_ok (async h s) = state_ok s"
    by (simp_all add: data_ok_def voice_ok_def state_ok_def)
  ultimately show ?thesis
    using * by (simp add: remote_inv_def) (simp add: generations_ok_def connection_ok_def writer_ok_def split: if_splits)
qed

lemma readOneLengthByte_inv:
  assumes "remote_inv opts n (Suc 0) j s" and "g = m_generation s"
  shows "remote_inv opts n 0 j (readOneLengthByte g s)"
  using assms inv_stream [OF assms(1)] by (auto simp: readOneLengthByte_def intro!: inv_async_chain)

lemma beginReadLength_inv:
  assumes "remote_inv opts n (Suc 0) j s" and "g = m_generation s"
  shows "remote_inv opts n 0 j (beginReadLength g s)"
proof -
  have "remote_inv opts n (Suc 0) j (s\<lparr>m_readLength := 0, m_readShift := 0\<rparr>)"
    using assms(1) by (simp add: inv_readShift)
  with assms inv_stream [OF assms(1)] show ?thesis
    by (auto simp: beginReadLength_def intro!: readOneLengthByte_inv)
qed

lemma inv_parts: "remote_inv opts n k j s \<Longrightarrow> generations_ok n s \<and> data_ok opts s"
  by (simp add: remote_inv_def)

lemma connectionFailed_chain:
  assumes "remote_inv opts n (Suc 0) False s" and "n < 2 ^ 64 - 1" and "g = m_generation s"
  shows "remote_inv opts (Suc n) 0 False (connectionFailed p e g s)"
  using assms inv_parts [OF assms(1)] inv_stream [OF assms(1)] inv_drop [OF assms(1)]
  by (intro connectionFailed_inv) auto

lemma handleConnectionLoss_readShift:
  assumes "g = m_generation s"
  shows "handleConnectionLoss g (emitError x (s\<lparr>m_readShift := r\<rparr>)) = handleConnectionLoss g (emitError x s)"
proof -
  have "emitError x (s\<lparr>m_readShift := r\<rparr>) = (emitError x s)\<lparr>m_readShift := r\<rparr>"
    by (simp add: emitError_def withCallbacks_def)
  moreover have "closeStream (t\<lparr>m_readShift := r\<rparr>) = closeStream t" for t
    by (simp add: closeStream_def)
  ultimately show ?thesis
    using assms by (simp add: handleConnectionLoss_def)
qed

text \<open>A length byte without error, on the current connection.\<close>

definition take_byte :: "byte \<Rightarrow> Impl \<Rightarrow> Impl" where
  "take_byte b s = s\<lparr>m_lengthByte := b, m_received := m_received s @ [b],
     m_readLength := m_readLength s OR push_bit (m_readShift s) (ucast (b AND 0x7f))\<rparr>"

lemma onReadByte_eq:
  assumes "g = m_generation s" and "m_stream s \<noteq> None"
  shows "onReadByte g None b s =
     (let t = take_byte b s; body = t\<lparr>m_readBody := replicate (unat (m_readLength t)) 0\<rparr> in
      if b AND 0x80 \<noteq> 0
      then if 63 < m_readShift s + 7
           then handleConnectionLoss g (emitError ''invalid protobuf frame length'' (t\<lparr>m_readShift := m_readShift s + 7\<rparr>))
           else readOneLengthByte g (t\<lparr>m_readShift := m_readShift s + 7\<rparr>)
      else if MaxFrameSize < m_readLength t
      then handleConnectionLoss g (emitError ''protobuf frame exceeds 4 MiB safety limit'' t)
      else if unat (m_readLength t) = 0 then beginReadLength g (handleMessage [] body)
      else async (ReadBodyH g) body)"
  using assms by (auto simp: onReadByte_def Let_def take_byte_def)

lemma onReadByte_inv:
  assumes inv: "remote_inv opts n (Suc 0) False s" and n: "n < 2 ^ 64 - 1" and g: "g = m_generation s"
  shows "remote_inv opts (Suc n) 0 False (onReadByte g err b s)"
proof (cases err)
  case (Some e)
  with assms connectionFailed_chain show ?thesis
    by (simp add: onReadByte_def)
next
  case None
  let ?t = "take_byte b s"
  have t: "remote_inv opts n (Suc 0) False ?t" and stream: "m_stream ?t \<noteq> None"
    and gt: "m_generation ?t = g"
    using inv inv_stream [OF inv] g by (simp_all add: take_byte_def)
  have loss: "remote_inv opts (Suc n) 0 False (handleConnectionLoss g (emitError x ?t))" for x
    using inv_parts [OF t] n gt by (intro handleConnectionLoss_inv) auto
  have shift: "r \<le> 63 \<Longrightarrow> remote_inv opts n (Suc 0) False (?t\<lparr>m_readShift := r\<rparr>)" for r
    using t by (rule inv_readShift)
  let ?body = "?t\<lparr>m_readBody := replicate (unat (m_readLength ?t)) 0\<rparr>"
  have "remote_inv opts n 0 False (beginReadLength g (handleMessage [] ?body))"
    using t stream gt by (intro beginReadLength_inv handleMessage_inv) auto
  moreover have "remote_inv opts n 0 False (async (ReadBodyH g) ?body)"
    using t gt by (intro inv_async_chain) auto
  moreover have "r \<le> 63 \<Longrightarrow> remote_inv opts n 0 False (readOneLengthByte g (?t\<lparr>m_readShift := r\<rparr>))" for r
    using shift gt by (intro readOneLengthByte_inv) auto
  ultimately show ?thesis
    using loss gt None onReadByte_eq [OF g inv_stream [OF inv], of b]
    by (auto simp: handleConnectionLoss_readShift Let_def intro: inv_Suc)
qed

lemma onReadBody_inv:
  assumes inv: "remote_inv opts n (Suc 0) False s" and n: "n < 2 ^ 64 - 1" and g: "g = m_generation s"
  shows "remote_inv opts (Suc n) 0 False (onReadBody g err bs s)"
proof (cases err)
  case None
  have "remote_inv opts n 0 False (beginReadLength g (handleMessage bs
      (resetIdleTimer (s\<lparr>m_readBody := bs, m_received := m_received s @ bs\<rparr>))))"
    using assms inv_stream [OF inv] by (intro beginReadLength_inv handleMessage_inv) auto
  with None g show ?thesis
    by (simp add: onReadBody_def inv_Suc)
qed (use assms connectionFailed_chain in \<open>simp add: onReadBody_def\<close>)

lemma onResolve_inv:
  assumes inv: "remote_inv opts n (Suc 0) False s" and "n < 2 ^ 64 - 1" and "g = m_generation s"
  shows "remote_inv opts (Suc n) 0 False (onResolve g err s)"
  using assms connectionFailed_chain [OF assms] inv_stream [OF inv]
  by (cases err) (auto simp: onResolve_def intro!: inv_Suc inv_async_chain)

lemma onConnect_inv:
  assumes inv: "remote_inv opts n (Suc 0) False s" and "n < 2 ^ 64 - 1" and "g = m_generation s"
  shows "remote_inv opts (Suc n) 0 False (onConnect g err s)"
  using assms connectionFailed_chain [OF assms] inv_stream [OF inv]
  by (cases err) (auto simp: onConnect_def intro!: inv_Suc inv_async_chain)

lemma onHandshake_inv:
  assumes inv: "remote_inv opts n (Suc 0) False s" and "n < 2 ^ 64 - 1" and "g = m_generation s"
  shows "remote_inv opts (Suc n) 0 False (onHandshake g err s)"
proof (cases err)
  case None
  have "remote_inv opts n 0 False (beginReadLength g (s\<lparr>m_reconnectDelay := 100\<rparr>))"
    using assms by (intro beginReadLength_inv inv_reconnectDelay) auto
  with None assms show ?thesis
    by (simp add: onHandshake_def inv_Suc)
next
  case (Some e)
  have "remote_inv opts (Suc n) 0 False (authenticationFailed e g s)"
    using assms inv_parts [OF inv] inv_stream [OF inv] inv_drop [OF inv] by (intro authenticationFailed_inv) auto
  with Some assms show ?thesis
    by (simp add: onHandshake_def)
qed

subsection \<open>The write handler\<close>

lemma onWrite_inv:
  assumes inv: "remote_inv opts n 0 True s" and n: "n < 2 ^ 64 - 1" and g: "g = m_generation s"
  shows "remote_inv opts (Suc n) 0 False (onWrite g err s)"
proof -
  from inv have w: "m_writeInProgress s" "m_stream s \<noteq> None" "m_writeQueue s \<noteq> []"
      "writes (m_generation s) (m_pending s) = []" "m_queued s = m_written s @ m_writeQueue s"
    by (auto simp: remote_inv_def writer_ok_def split: if_splits)
  show ?thesis
  proof (cases err)
    case None
    let ?t = "s\<lparr>m_written := m_written s @ [hd (m_writeQueue s)], m_writeQueue := tl (m_writeQueue s)\<rparr>"
    have "writer_ok False (beginWrite ?t)"
      using w by (cases "tl (m_writeQueue s)"; cases "m_writeQueue s") (simp_all add: writer_ok_def beginWrite_def)
    moreover have "generations_ok n (beginWrite ?t) = generations_ok n s"
      "connection_ok 0 (beginWrite ?t) = connection_ok 0 s" "data_ok opts (beginWrite ?t) = data_ok opts s"
      "voice_ok (beginWrite ?t) = voice_ok s" "state_ok (beginWrite ?t) = state_ok s"
      by (simp_all add: generations_ok_def connection_ok_def data_ok_def voice_ok_def state_ok_def)
    ultimately have "remote_inv opts n 0 False (beginWrite ?t)"
      using inv by (simp add: remote_inv_def)
    with None w g show ?thesis
      by (simp add: onWrite_def inv_Suc)
  next
    case (Some e)
    let ?t = "s\<lparr>m_writeInProgress := False\<rparr>"
    have "generations_ok n ?t" and "data_ok opts ?t" and "connection_ok 0 ?t" and "voice_ok ?t" and "state_ok ?t"
      using inv unfolding remote_inv_def
      by (simp_all add: generations_ok_def connection_ok_def data_ok_def voice_ok_def state_ok_def)
    moreover have "m_shuttingDown s \<Longrightarrow> writer_ok False ?t"
      using w by (simp add: writer_ok_def)
    ultimately have "remote_inv opts (Suc n) 0 False (connectionFailed ''write failed'' e g ?t)"
      using n w g by (intro connectionFailed_inv) (auto simp: remote_inv_def)
    with Some g show ?thesis
      by (simp add: onWrite_def)
  qed
qed

subsection \<open>Timers and tasks\<close>

lemma ensureSslContext_eq:
  "ensureSslContext os s =
     (case m_sslContext s of
        Some _ \<Rightarrow> (Inr (), s)
      | None \<Rightarrow>
          (case loadIdentity os (m_files s) (o_certificateFile (m_options s)) (o_privateKeyFile (m_options s))
                  (newSslContext\<lparr>verifyNone := True\<rparr>) of
             (r, ctx) \<Rightarrow> (r, s\<lparr>m_sslContext := Some ctx\<rparr>)))"
  by (simp add: ensureSslContext_def loadClientIdentity_def case_prod_beta Let_def split: option.split)

lemma ensureSslContext_inv:
  assumes "closed_inv opts n s" and "ensureSslContext os s = (r, s')"
  shows "closed_inv opts n s' \<and> m_sslContext s' \<noteq> None \<and> m_generation s' = m_generation s"
  using assms
  by (cases "m_sslContext s")
     (auto simp: ensureSslContext_eq closed_inv_def generations_ok_def connection_ok_def writer_ok_def data_ok_def
       voice_ok_def Let_def split: prod.splits)

lemma closed_open:
  assumes "closed_inv opts n s" and "m_sslContext s = Some ctx" and "\<not> m_userDisconnect s"
    and "g = m_generation s" and "m_state s \<noteq> Connected"
  shows "remote_inv opts n 0 False (async (ResolveH g) (s\<lparr>m_stream := Some ctx\<rparr>))"
proof (rule inv_async_chain)
  have "\<not> m_writeInProgress s" and "m_writeQueue s = []"
    using assms(1) by (auto simp: closed_inv_def writer_ok_def)
  with assms show "remote_inv opts n (Suc 0) False (s\<lparr>m_stream := Some ctx\<rparr>)"
    unfolding remote_inv_def closed_inv_def
    by (simp add: generations_ok_def connection_ok_def writer_ok_def data_ok_def voice_ok_def state_ok_def)
qed (simp add: assms(4))

lemma beginConnect_inv:
  assumes "generations_ok n s" and "data_ok opts s" and "remote_inv opts n 0 False s \<or> (\<not> m_shuttingDown s \<and> \<not> m_userDisconnect s)"
    and "n < 2 ^ 64 - 1"
  shows "remote_inv opts (Suc n) 0 False (beginConnect os reconnecting s)"
proof (cases "m_shuttingDown s \<or> m_userDisconnect s")
  case True
  with assms(3) show ?thesis
    by (auto simp: beginConnect_def inv_Suc)
next
  case False
  obtain r t where run: "ensureSslContext os (closeStream s) = (r, t)" by fastforce
  from ensureSslContext_inv [OF closeStream_closed [OF assms(1,2,4)] run]
  have t: "closed_inv opts (Suc n) t" "m_generation t = m_generation (closeStream s)" and "m_sslContext t \<noteq> None"
    by simp_all
  then obtain ctx where ctx: "m_sslContext t = Some ctx" by blast
  have ud: "\<not> m_userDisconnect t"
    using run False by (auto simp: ensureSslContext_eq Let_def split: option.splits prod.splits)
  have closed: "closed_inv opts (Suc n) (setState st t)" for st
    using t by (simp add: closed_inv_def)
  show ?thesis
  proof (cases r)
    case (Inl e)
    with False run t show ?thesis
      by (simp add: beginConnect_def Let_def closed_setState)
  next
    case (Inr u)
    let ?st = "if reconnecting then Reconnecting else Connecting"
    have "remote_inv opts (Suc n) 0 False (async (ResolveH (m_generation (closeStream s))) ((setState ?st t)\<lparr>m_stream := Some ctx\<rparr>))"
      using closed ctx ud t(2) by (intro closed_open) (auto simp: setState_def)
    with Inr False run ctx show ?thesis
      by (simp add: beginConnect_def Let_def)
  qed
qed

lemma onReconnect_inv:
  assumes "remote_inv opts n 0 False s" and "n < 2 ^ 64 - 1"
  shows "remote_inv opts (Suc n) 0 False (onReconnect os err s)"
  using assms inv_parts [OF assms(1)] beginConnect_inv [of n s opts os True] by (simp add: onReconnect_def inv_Suc)

lemma onIdle_inv:
  assumes "remote_inv opts n 0 False s" and "n < 2 ^ 64 - 1"
  shows "remote_inv opts (Suc n) 0 False (onIdle g err s)"
  using assms inv_parts [OF assms(1)] by (auto simp: onIdle_def inv_Suc intro!: handleConnectionLoss_inv)

lemma inv_voiceStarting_False: "remote_inv opts n k j s \<Longrightarrow> remote_inv opts n k j (s\<lparr>m_voiceStarting := False\<rparr>)"
  by (simp add: remote_inv_def voice_ok_def)

lemma onVoiceTimeout_inv: "remote_inv opts n k j s \<Longrightarrow> remote_inv opts n k j (onVoiceTimeout err s)"
  by (simp add: onVoiceTimeout_def inv_voiceStarting_False)

lemma inv_connectable: "remote_inv opts n k j s \<Longrightarrow> remote_inv opts n k j (s\<lparr>m_userDisconnect := False\<rparr>)"
  by (simp add: remote_inv_def data_ok_def)

lemma connect_task_inv:
  assumes "remote_inv opts n 0 False s" and "n < 2 ^ 64 - 1"
  shows "remote_inv opts (Suc n) 0 False (connect_task os s)"
proof -
  let ?s = "(cancel ReconnectTimer (s\<lparr>m_userDisconnect := False\<rparr>))\<lparr>m_reconnectDelay := 100\<rparr>"
  have inv: "remote_inv opts n 0 False ?s"
    using assms(1) by (intro inv_reconnectDelay) (simp_all add: inv_connectable)
  from beginConnect_inv [OF _ _ disjI1 [OF inv] assms(2)] inv_parts [OF inv] show ?thesis
    by (simp add: connect_task_def)
qed

lemma closeStream_userDisconnect:
  assumes "remote_inv opts n 0 False s" and "n < 2 ^ 64 - 1"
  shows "closed_inv opts (Suc n) (closeStream (s\<lparr>m_userDisconnect := True\<rparr>))"
proof -
  have "closed_inv opts (Suc n) (closeStream s)"
    using inv_parts [OF assms(1)] assms(2) by (intro closeStream_closed) auto
  moreover have "closeStream (s\<lparr>m_userDisconnect := True\<rparr>) = (closeStream s)\<lparr>m_userDisconnect := True\<rparr>"
    by (simp add: closeStream_def)
  ultimately show ?thesis
    by (simp add: closed_inv_def) (simp add: data_ok_def)
qed

lemma cancel_update: "cancel t (s\<lparr>m_userDisconnect := b\<rparr>) = (cancel t s)\<lparr>m_userDisconnect := b\<rparr>"
  by (simp add: cancel_def)

lemma disconnect_task_inv:
  assumes "remote_inv opts n 0 False s" and "n < 2 ^ 64 - 1"
  shows "remote_inv opts (Suc n) 0 False (disconnect_task s)"
  using assms by (auto simp: disconnect_task_def Let_def cancel_update intro!: closed_setState closeStream_userDisconnect)

lemma disconnectAndWait_task_inv:
  assumes "remote_inv opts n 0 False s" and "n < 2 ^ 64 - 1"
  shows "remote_inv opts (Suc n) 0 False (disconnectAndWait_task s)"
  using assms by (auto simp: disconnectAndWait_task_def Let_def cancel_update intro!: closed_setState closeStream_userDisconnect)

lemma startVoice_task_inv:
  assumes "remote_inv opts n 0 False s"
  shows "remote_inv opts n 0 False (startVoice_task s)"
proof -
  have "m_voiceSessionId s = None \<Longrightarrow> m_state s = Connected \<Longrightarrow> remote_inv opts n 0 False (s\<lparr>m_voiceStarting := True\<rparr>)"
    using assms by (auto simp: remote_inv_def voice_ok_def state_ok_def)
  with assms show ?thesis
    by (auto simp: startVoice_task_def Let_def intro!: queueMessage_inv)
qed

lemma sendVoiceData_task_inv:
  assumes "remote_inv opts n 0 False s"
  shows "remote_inv opts n 0 False (sendVoiceData_task bs s)"
proof -
  have "remote_inv opts n 0 False t \<Longrightarrow>
      remote_inv opts n 0 False (fold (\<lambda>chunk. queueMessage (remoteVoicePayload sid chunk)) cs t)" for sid cs t
    by (induction cs arbitrary: t) (simp_all add: queueMessage_inv)
  with assms show ?thesis
    by (simp add: sendVoiceData_task_def split: option.split)
qed

lemma stopVoice_task_inv:
  assumes "remote_inv opts n 0 False s"
  shows "remote_inv opts n 0 False (stopVoice_task s)"
proof -
  have "remote_inv opts n 0 False (queueMessage p ((cancel VoiceTimer s)\<lparr>m_voiceStarting := False\<rparr>))" for p
    using assms by (intro queueMessage_inv inv_voiceStarting_False) simp
  then have "remote_inv opts n 0 False
      ((queueMessage p ((cancel VoiceTimer s)\<lparr>m_voiceStarting := False\<rparr>))\<lparr>m_voiceSessionId := None\<rparr>)" for p
    by (simp add: remote_inv_def voice_ok_def)
  with assms show ?thesis
    by (auto simp: stopVoice_task_def Let_def inv_voiceStarting_False split: option.split)
qed

lemma shutdown_task_inv:
  assumes "remote_inv opts n 0 False s" and "n < 2 ^ 64 - 1" and "m_shuttingDown s"
  shows "remote_inv opts (Suc n) 0 False (shutdown_task s)"
  using assms closeStream_userDisconnect [OF assms(1,2)]
  by (auto simp: shutdown_task_def Let_def intro!: closed_shutdown)

subsection \<open>All steps\<close>

text \<open>Handlers and tasks neither post nor start the shutdown.\<close>

lemma handleMessage_tasks [simp]:
  "m_tasks (handleMessage m s) = m_tasks s" "m_shuttingDown (handleMessage m s) = m_shuttingDown s"
  by (auto simp: handleMessage_def Let_def split: Kind.splits)

lemma handleConnectionLoss_tasks [simp]:
  "m_tasks (handleConnectionLoss g s) = m_tasks s" "m_shuttingDown (handleConnectionLoss g s) = m_shuttingDown s"
  by (auto simp: handleConnectionLoss_def Let_def)

lemma connectionFailed_tasks [simp]:
  "m_tasks (connectionFailed p e g s) = m_tasks s" "m_shuttingDown (connectionFailed p e g s) = m_shuttingDown s"
  by (auto simp: connectionFailed_def)

lemma authenticationFailed_tasks [simp]:
  "m_tasks (authenticationFailed e g s) = m_tasks s" "m_shuttingDown (authenticationFailed e g s) = m_shuttingDown s"
  by (auto simp: authenticationFailed_def Let_def)

lemma readOneLengthByte_tasks [simp]:
  "m_tasks (readOneLengthByte g s) = m_tasks s" "m_shuttingDown (readOneLengthByte g s) = m_shuttingDown s"
  by (auto simp: readOneLengthByte_def)

lemma beginReadLength_tasks [simp]:
  "m_tasks (beginReadLength g s) = m_tasks s" "m_shuttingDown (beginReadLength g s) = m_shuttingDown s"
  by (auto simp: beginReadLength_def)

lemma beginConnect_tasks [simp]:
  "m_tasks (beginConnect os r s) = m_tasks s" "m_shuttingDown (beginConnect os r s) = m_shuttingDown s"
  by (auto simp: beginConnect_def ensureSslContext_eq undefined_behaviour_def Let_def split: option.splits prod.splits sum.splits)

lemma fold_queue_tasks [simp]:
  "m_tasks (fold (\<lambda>c. queueMessage (f c)) cs s) = m_tasks s" "m_shuttingDown (fold (\<lambda>c. queueMessage (f c)) cs s) = m_shuttingDown s"
  by (induction cs arbitrary: s) simp_all

lemma run_handler_tasks [simp]:
  "m_tasks (run_handler os h c s) = m_tasks s" "m_shuttingDown (run_handler os h c s) = m_shuttingDown s"
  by (cases h; auto simp: handler_defs undefined_behaviour_def Let_def split: option.splits)+

lemma run_task_tasks [simp]:
  "m_tasks (run_task os t s) = m_tasks s" "m_shuttingDown (run_task os t s) = m_shuttingDown s"
  by (cases t; auto simp: task_defs Let_def split: option.splits)+

lemma remove_nth_split:
  assumes "i < length ps"
  shows "\<exists>as bs. ps = as @ ps ! i # bs \<and> remove_nth i ps = as @ bs"
  using assms by (intro exI [of _ "take i ps"] exI [of _ "drop (Suc i) ps"]) (simp add: remove_nth_def id_take_nth_drop)

lemma take_handler_inv:
  assumes inv: "remote_inv opts n 0 False s" and i: "i < length (m_pending s)" "m_pending s ! i = (h, w)"
  shows "remote_inv opts n (if chain_gen h = Some (m_generation s) then Suc 0 else 0)
     (\<exists>b. write_of h = Some (m_generation s, b)) (take_handler i s)"
proof -
  obtain as bs where ps: "m_pending s = as @ [(h, w)] @ bs" "remove_nth i (m_pending s) = as @ bs"
    using remove_nth_split [OF i(1)] i(2) by auto
  let ?t = "take_handler i s"
  have t: "m_pending ?t = as @ bs"
    using ps by (simp add: take_handler_def)
  have other: "m_generation ?t = m_generation s" "m_stream ?t = m_stream s" "m_shuttingDown ?t = m_shuttingDown s"
    "m_writeInProgress ?t = m_writeInProgress s" "m_writeQueue ?t = m_writeQueue s" "m_queued ?t = m_queued s"
    "m_written ?t = m_written s"
    by (simp_all add: take_handler_def)
  have "data_ok opts ?t = data_ok opts s" "voice_ok ?t = voice_ok s" "state_ok ?t = state_ok s"
    by (simp_all add: take_handler_def data_ok_def voice_ok_def state_ok_def)
  moreover have "generations_ok n ?t"
    using inv by (simp add: remote_inv_def generations_ok_def other t ps)
  moreover have "connection_ok (if chain_gen h = Some (m_generation s) then Suc 0 else 0) ?t"
    using inv by (cases "m_stream s"; cases "chain_gen h = Some (m_generation s)")
      (auto simp: remote_inv_def connection_ok_def other t ps)
  moreover have "writer_ok (\<exists>b. write_of h = Some (m_generation s, b)) ?t"
    using inv by (auto simp: remote_inv_def writer_ok_def other t ps append_eq_Cons_conv split: option.splits if_splits)
  ultimately show ?thesis
    using inv by (simp add: remote_inv_def)
qed

text \<open>A handler of an earlier connection leaves nothing behind but what its own read put into the buffer.\<close>

fun buffer_filled :: "handler \<Rightarrow> completion \<Rightarrow> Impl \<Rightarrow> Impl" where
  "buffer_filled (ReadByteH g) c s = (if failure c = None then s\<lparr>m_lengthByte := gotByte c\<rparr> else s)"
| "buffer_filled (ReadBodyH g) c s = (if failure c = None then s\<lparr>m_readBody := gotBody c\<rparr> else s)"
| "buffer_filled h c s = s"

lemma stale_handler:
  "gen_of h = Some g \<Longrightarrow> g \<noteq> m_generation s \<Longrightarrow> run_handler os h c s = buffer_filled h c s"
  by (cases h; cases "failure c")
     (simp_all add: gen_of_def onResolve_def onConnect_def onHandshake_def onReadByte_def onReadBody_def onWrite_def)

lemma buffer_filled_inv [simp]: "remote_inv opts n k j (buffer_filled h c s) = remote_inv opts n k j s"
  by (cases h) simp_all

lemma run_handler_inv:
  assumes inv: "remote_inv opts n 0 False s" and n: "n < 2 ^ 64 - 1"
    and i: "i < length (m_pending s)" "m_pending s ! i = (h, w)"
  shows "remote_inv opts (Suc n) 0 False (run_handler os h c (take_handler i s))"
proof -
  let ?t = "take_handler i s"
  note t = take_handler_inv [OF inv i]
  have g: "m_generation ?t = m_generation s"
    by (simp add: take_handler_def)
  consider "chain_gen h = Some (m_generation s)" | b where "write_of h = Some (m_generation s, b)"
    | g' where "gen_of h = Some g'" "g' \<noteq> m_generation s" | "gen_of h = None"
    by (cases h) (auto simp: gen_of_def)
  then show ?thesis
  proof cases
    case 1
    then have "write_of h = None" by (cases h) auto
    with 1 t have "remote_inv opts n (Suc 0) False ?t" by simp
    with 1 n g show ?thesis
      by (cases h) (auto intro: onResolve_inv onConnect_inv onHandshake_inv onReadByte_inv onReadBody_inv)
  next
    case (2 b)
    then have h: "h = WriteH (m_generation s) b" by (cases h) auto
    with t have "remote_inv opts n 0 True ?t" by simp
    with h n g show ?thesis
      by (auto intro: onWrite_inv)
  next
    case (3 g')
    then have run: "run_handler os h c ?t = buffer_filled h c ?t"
      using stale_handler g by metis
    from 3 have "chain_gen h \<noteq> Some (m_generation s)" and "\<nexists>b. write_of h = Some (m_generation s, b)"
      by (cases h; auto simp: gen_of_def)+
    with t have "remote_inv opts n 0 False ?t" by simp
    with run show ?thesis
      by (simp add: inv_Suc)
  next
    case 4
    then have "chain_gen h = None" and "write_of h = None"
      by (cases h; simp add: gen_of_def)+
    with t have "remote_inv opts n 0 False ?t" by simp
    with 4 n show ?thesis
      by (cases h) (auto simp: gen_of_def inv_Suc onVoiceTimeout_inv intro: onReconnect_inv onIdle_inv)
  qed
qed

lemma run_task_inv:
  assumes "remote_inv opts n 0 False s" and "n < 2 ^ 64 - 1" and "t = ShutdownT \<longrightarrow> m_shuttingDown s"
  shows "remote_inv opts (Suc n) 0 False (run_task os t s)"
  using assms
  by (cases t) (auto simp: inv_Suc sendText_task_def queueMessage_inv startVoice_task_inv sendVoiceData_task_inv
      stopVoice_task_inv connect_task_inv disconnect_task_inv disconnectAndWait_task_inv shutdown_task_inv)

lemma inv_shuttingDown: "remote_inv opts n k j s \<Longrightarrow> remote_inv opts n k j (s\<lparr>m_shuttingDown := True\<rparr>)"
  by (auto simp: remote_inv_def generations_ok_def connection_ok_def writer_ok_def data_ok_def voice_ok_def state_ok_def)

lemma inv_post [simp]: "remote_inv opts n k j (post t s) = remote_inv opts n k j s"
  by (simp add: post_def)

lemma run_call_inv:
  "remote_inv opts n 0 False s \<Longrightarrow> remote_inv opts n 0 False (run_call os c s)"
  by (cases c)
     (auto simp: call_defs inv_shuttingDown Let_def
       split: option.splits prod.splits sum.splits)

text \<open>The shutdown task is only posted after the flag is set.\<close>

definition tasks_ok :: "Impl \<Rightarrow> bool" where
  "tasks_ok s \<longleftrightarrow> (ShutdownT \<in> set (m_tasks s) \<longrightarrow> m_shuttingDown s)"

lemma run_call_tasks: "tasks_ok s \<Longrightarrow> tasks_ok (run_call os c s)"
  by (cases c)
     (auto simp: tasks_ok_def call_defs post_def Let_def
       split: option.splits prod.splits sum.splits)

lemma step_inv:
  assumes "step os s s'" and "remote_inv opts n 0 False s \<and> tasks_ok s" and "n < 2 ^ 64 - 1"
  shows "remote_inv opts (Suc n) 0 False s' \<and> tasks_ok s'"
  using assms
proof (cases rule: step.cases)
  case (step_call c)
  with assms show ?thesis
    by (simp add: run_call_inv run_call_tasks inv_Suc)
next
  case (step_task t ts)
  with assms show ?thesis
    by (auto simp: tasks_ok_def intro: run_task_inv)
next
  case (step_fire i h)
  have fst: "map fst ((m_pending s)[i := (h, Fired)]) = map fst (m_pending s)"
    using step_fire by (simp add: map_update list_update_same_conv)
  note * = chain_fst [OF fst] writes_fst [OF fst] gens_le_fst [OF fst]
  have "remote_inv opts n 0 False s'"
    using assms(2) unfolding step_fire(1)
    by (simp add: remote_inv_def generations_ok_def connection_ok_def writer_ok_def data_ok_def voice_ok_def state_ok_def *)
  with step_fire assms(2) show ?thesis
    by (simp add: inv_Suc tasks_ok_def)
next
  case (step_complete i h w c)
  with assms run_handler_inv show ?thesis
    by (auto simp: tasks_ok_def take_handler_def)
next
  case (step_files fs)
  with assms show ?thesis
    by (simp add: inv_Suc tasks_ok_def)
qed

interpretation remote: counted_invariant "step os" "\<lambda>n s. remote_inv opts n 0 False s \<and> tasks_ok s" "2 ^ 64 - 1"
  for os opts
  by unfold_locales (rule step_inv)

lemma new_inv: "remote_inv opts 0 0 False (newImpl opts fs bns) \<and> tasks_ok (newImpl opts fs bns)"
  by (simp add: remote_inv_def generations_ok_def connection_ok_def writer_ok_def data_ok_def voice_ok_def state_ok_def
      tasks_ok_def newImpl_def)

lemma reach_run: "reach os opts n s \<Longrightarrow> \<exists>fs bns. (step os ^^ n) (newImpl opts fs bns) s"
proof (induction rule: reach.induct)
  case (reach_new fs bns)
  show ?case
    by (intro exI [of _ fs] exI [of _ bns]) simp
next
  case (reach_step n s s')
  then show ?case
    by (meson relcompp.relcompI relpowp_Suc_I)
qed

lemma reach_inv:
  assumes "reach os opts n s" and "n < 2 ^ 64"
  shows "remote_inv opts n 0 False s \<and> tasks_ok s"
proof -
  obtain fs bns where "(step os ^^ n) (newImpl opts fs bns) s"
    using reach_run assms(1) by blast
  from remote.run_keeps [OF this new_inv] assms(2) show ?thesis
    by simp
qed

end
