(* ===== verification/Remote_Properties.thy ===== *)
theory Remote_Properties
  imports Remote_Steps
begin

text \<open>
  Properties of the remote: of its reachable states, of its handlers, and of runs of the transition
  system of \<^verbatim>\<open>Remote_Steps\<close>.
\<close>

section \<open>A concrete run\<close>

definition sample_options :: Options where
  "sample_options = defaultOptions\<lparr>o_certificateFile := [''d'', ''c''], o_privateKeyFile := [''d'', ''k''],
     o_host := ''tv'', o_enableVoice := True\<rparr>"

definition sample_new :: Impl where
  "sample_new = newImpl sample_options sample_files emptyStore"

text \<open>After \<^verbatim>\<open>connect()\<close> has been called and its task has run.\<close>

definition sample_resolving :: Impl where
  "sample_resolving = run_task sample_ossl ConnectT ((run_call sample_ossl CallConnect sample_new)\<lparr>m_tasks := []\<rparr>)"

lemma sample_resolving_reach: "reach sample_ossl sample_options 2 sample_resolving"
proof -
  have "reach sample_ossl sample_options 0 sample_new"
    unfolding sample_new_def by (rule reach_new)
  then have "reach sample_ossl sample_options (Suc 0) (run_call sample_ossl CallConnect sample_new)"
    by (rule reach_step) (rule step_call)
  then have "reach sample_ossl sample_options (Suc (Suc 0)) sample_resolving"
    unfolding sample_resolving_def
    by (rule reach_step) (rule step_task, simp add: Impl_connect_def post_def sample_new_def newImpl_def)
  then show ?thesis
    by (simp add: numeral_2_eq_2)
qed

lemma sample_load:
  "\<exists>ctx. loadClientIdentity sample_ossl sample_files [''d'', ''c''] [''d'', ''k''] (Some ctx0) = (Inr (), Some ctx)"
  by (simp add: sample_files_def loadClientIdentity_def loadIdentity_def installIdentity_def readFile_def sample_ossl_def sample_pem_def
      sample_unpem_def emptyFilesystem_def Let_def)

lemma sample_resolving_facts:
  "m_stream sample_resolving \<noteq> None" "m_pending sample_resolving = [(ResolveH 1, Waiting)]"
  "m_shuttingDown sample_resolving = False" "m_generation sample_resolving = 1" "m_tasks sample_resolving = []"
  "m_reconnectDelay sample_resolving = 100" "m_state sample_resolving = Connecting" "\<not> m_userDisconnect sample_resolving"
  "m_writeQueue sample_resolving = []" "m_received sample_resolving = []" "m_queued sample_resolving = []"
proof -
  obtain ctx where "loadClientIdentity sample_ossl sample_files [''d'', ''c''] [''d'', ''k'']
      (Some (newSslContext\<lparr>verifyNone := True\<rparr>)) = (Inr (), Some ctx)"
    using sample_load by blast
  then show "m_stream sample_resolving \<noteq> None" "m_pending sample_resolving = [(ResolveH 1, Waiting)]"
    "m_shuttingDown sample_resolving = False" "m_generation sample_resolving = 1" "m_tasks sample_resolving = []"
    "m_reconnectDelay sample_resolving = 100" "m_state sample_resolving = Connecting" "\<not> m_userDisconnect sample_resolving"
  "m_writeQueue sample_resolving = []" "m_received sample_resolving = []" "m_queued sample_resolving = []"
    by (simp_all add: sample_resolving_def Impl_connect_def post_def connect_task_def beginConnect_def Let_def
        ensureSslContext_def sample_new_def newImpl_def sample_options_def closeStream_def cancel_def setState_def
        withCallbacks_def async_def noCallbacks_def)
qed

text \<open>The connection of the sample run, when name resolution, TCP and the handshake have succeeded.\<close>

definition sample_open :: Impl where
  "sample_open = onHandshake 1 None (onConnect 1 None (onResolve 1 None (sample_resolving\<lparr>m_pending := []\<rparr>)
     \<lparr>m_pending := []\<rparr>)\<lparr>m_pending := []\<rparr>)"

lemma only_step:
  assumes "m_pending s = [(h, Waiting)]" and "timer_of h = None"
  shows "step os s (run_handler os h \<lparr>failure = None, gotByte = 0, gotBody = m_readBody s\<rparr> (s\<lparr>m_pending := []\<rparr>))"
  using step_complete [of 0 s h Waiting "\<lparr>failure = None, gotByte = 0, gotBody = m_readBody s\<rparr>" os] assms
  by (simp add: possible_def take_handler_def remove_nth_def)

lemma sample_open_reach: "reach sample_ossl sample_options (Suc (Suc (Suc 2))) sample_open"
proof -
  let ?a = sample_resolving
  let ?b = "onResolve 1 None (?a\<lparr>m_pending := []\<rparr>)"
  let ?c = "onConnect 1 None (?b\<lparr>m_pending := []\<rparr>)"
  have b: "m_pending ?b = [(ConnectH 1, Waiting)]" "m_generation ?b = 1" "m_stream ?b \<noteq> None"
    using sample_resolving_facts by (auto simp: onResolve_def async_def)
  have c: "m_pending ?c = [(HandshakeH 1, Waiting)]"
    using b by (auto simp: onConnect_def async_def)
  have "step sample_ossl ?a ?b" "step sample_ossl ?b ?c" "step sample_ossl ?c sample_open"
    using only_step [OF sample_resolving_facts(2), of sample_ossl] only_step [OF b(1), of sample_ossl]
      only_step [OF c, of sample_ossl] by (simp_all add: sample_open_def)
  with sample_resolving_reach show ?thesis
    by (blast intro: reach_step)
qed

lemma sample_open_facts:
  "m_stream sample_open \<noteq> None" "m_pending sample_open = [(ReadByteH 1, Waiting), (IdleH 1, Waiting)]"
  "\<not> m_shuttingDown sample_open" "m_tasks sample_open = []"
  using sample_resolving_facts
  by (auto simp: sample_open_def onHandshake_def onConnect_def onResolve_def async_def Let_def beginReadLength_def
      readOneLengthByte_def resetIdleTimer_def expires_after_def cancel_def)

section \<open>Properties of the reachable states\<close>

text \<open>
  (C3) At most one operation of the connection chain and one write are outstanding for the current connection,
  as Boost.Asio demands of a stream, and only while there is a stream. No null pointer is ever
  followed. This holds in any interleaving of calls, completions, errors and timers, as long as fewer
  than \<open>2 ^ 64\<close> steps have been taken (the generation counter has 64 bits).
\<close>

theorem one_operation_at_a_time:
  assumes "reach os opts n s" and "n < 2 ^ 64"
  shows "chain (m_generation s) (m_pending s) \<le> 1 \<and> length (writes (m_generation s) (m_pending s)) \<le> 1 \<and>
     (0 < chain (m_generation s) (m_pending s) \<or> writes (m_generation s) (m_pending s) \<noteq> [] \<longrightarrow> m_stream s \<noteq> None) \<and>
     \<not> m_undefined s"
proof -
  have "connection_ok 0 s" and "writer_ok False s" and "data_ok opts s"
    using reach_inv [OF assms] by (simp_all add: remote_inv_def)
  then show ?thesis
    by (cases "m_stream s"; cases "m_writeInProgress s") (auto simp: connection_ok_def writer_ok_def data_ok_def)
qed

theorem one_operation_at_a_time_witness:
  "reach sample_ossl sample_options 2 sample_resolving \<and> m_stream sample_resolving \<noteq> None \<and>
   chain (m_generation sample_resolving) (m_pending sample_resolving) \<le> 1"
  using one_operation_at_a_time [OF sample_resolving_reach] sample_resolving_reach sample_resolving_facts by simp

text \<open>
  (C4) The write queue is a queue: what was accepted since the connection began is what was written, in that order,
  followed by what is queued; the outstanding write is the front of the queue. Until shutdown a
  non-empty queue always has its write outstanding and an open stream its chain operation, so that neither
  sending nor receiving can stall inside the library.
\<close>

theorem writes_are_fifo_and_never_stall:
  assumes "reach os opts n s" and "n < 2 ^ 64"
  shows "m_queued s = m_written s @ m_writeQueue s \<and>
     (\<forall>b. b \<in> set (writes (m_generation s) (m_pending s)) \<longrightarrow> m_writeQueue s \<noteq> [] \<and> b = hd (m_writeQueue s)) \<and>
     (\<not> m_shuttingDown s \<longrightarrow>
        (m_writeQueue s \<noteq> [] \<longrightarrow> writes (m_generation s) (m_pending s) = [hd (m_writeQueue s)]) \<and>
        (m_stream s \<noteq> None \<longrightarrow> chain (m_generation s) (m_pending s) = 1))"
proof -
  have "connection_ok 0 s" and "writer_ok False s"
    using reach_inv [OF assms] by (simp_all add: remote_inv_def)
  then show ?thesis
    by (cases "m_stream s"; cases "m_writeInProgress s") (auto simp: connection_ok_def writer_ok_def)
qed

theorem writes_are_fifo_and_never_stall_witness:
  "reach sample_ossl sample_options 2 sample_resolving \<and> m_stream sample_resolving \<noteq> None \<and>
   chain (m_generation sample_resolving) (m_pending sample_resolving) = 1"
  using writes_are_fifo_and_never_stall [OF sample_resolving_reach] sample_resolving_reach sample_resolving_facts by simp

text \<open>
  (C15) A completion that belongs to an earlier connection changes nothing: whatever it reports, the handler
  returns with the state it found, but for the buffer its own read has filled.
\<close>

theorem stale_completions_are_ignored:
  assumes "gen_of h = Some g" and "g \<noteq> m_generation s"
  shows "run_handler os h c s = buffer_filled h c s"
  using assms by (rule stale_handler)

theorem stale_completions_are_ignored_witness:
  "run_handler sample_ossl (WriteH 7 [1]) \<lparr>failure = Some ''reset'', gotByte = 0, gotBody = []\<rparr> sample_new = sample_new"
  using stale_completions_are_ignored [of "WriteH 7 [1]" 7 sample_new sample_ossl
    "\<lparr>failure = Some ''reset'', gotByte = 0, gotBody = []\<rparr>"]
  by (simp add: gen_of_def sample_new_def newImpl_def)

section \<open>Staying disconnected\<close>

definition disconnected :: "Impl \<Rightarrow> bool" where
  "disconnected s \<longleftrightarrow> m_userDisconnect s \<and> m_stream s = None \<and> m_state s = Disconnected \<and> ConnectT \<notin> set (m_tasks s)"

text \<open>A step after which no connect is waiting to be run.\<close>

definition quiet_step :: "'md ossl \<Rightarrow> Impl \<Rightarrow> Impl \<Rightarrow> bool" where
  "quiet_step os s s' \<longleftrightarrow> step os s s' \<and> ConnectT \<notin> set (m_tasks s')"

lemma run_call_connection [simp]:
  "m_userDisconnect (run_call os c s) = m_userDisconnect s" "m_stream (run_call os c s) = m_stream s"
  "m_state (run_call os c s) = m_state s"
  by (cases c; auto simp: call_defs post_def Let_def split: option.splits prod.splits sum.splits)+

lemma fold_queue_none: "m_stream s = None \<Longrightarrow> fold (\<lambda>c. queueMessage (f c)) cs s = s"
  by (induction cs) (simp_all add: queueMessage_def)

lemma queueMessage_none: "m_stream s = None \<Longrightarrow> queueMessage p s = s"
  by (simp add: queueMessage_def)

lemma run_task_disconnected:
  assumes "m_userDisconnect s" and "m_stream s = None" and "m_state s = Disconnected" and "t \<noteq> ConnectT"
  shows "m_userDisconnect (run_task os t s) \<and> m_stream (run_task os t s) = None \<and> m_state (run_task os t s) = Disconnected"
  using assms
  by (cases t)
     (auto simp: disconnect_task_def disconnectAndWait_task_def sendText_task_def startVoice_task_def sendVoiceData_task_def
       stopVoice_task_def shutdown_task_def queueMessage_none fold_queue_none Let_def setState_def split: option.splits)

lemma run_handler_disconnected:
  assumes inv: "remote_inv opts n 0 False s" and s: "m_userDisconnect s" "m_stream s = None" "m_state s = Disconnected"
    and i: "i < length (m_pending s)" "m_pending s ! i = (h, w)"
  shows "let t = run_handler os h c (take_handler i s)
     in m_userDisconnect t \<and> m_stream t = None \<and> m_state t = Disconnected"
proof -
  let ?g = "m_generation s"
  have none: "chain ?g (m_pending s) = 0" "writes ?g (m_pending s) = []"
    using inv s(2) by (auto simp: remote_inv_def connection_ok_def writer_ok_def)
  obtain as bs where "m_pending s = as @ (h, w) # bs"
    using remove_nth_split [OF i(1)] i(2) by auto
  with none have h: "chain_gen h \<noteq> Some ?g" "\<nexists>b. write_of h = Some (?g, b)"
    by (auto split: option.splits)
  then consider g' where "gen_of h = Some g'" "g' \<noteq> m_generation (take_handler i s)" | "gen_of h = None"
    by (cases h) (auto simp: gen_of_def take_handler_def)
  then show ?thesis
  proof cases
    case (1 g')
    then have "run_handler os h c (take_handler i s) = buffer_filled h c (take_handler i s)"
      by (rule stale_handler)
    with s show ?thesis
      by (cases h) (simp_all add: Let_def take_handler_def)
  next
    case 2
    with s show ?thesis
      by (cases h) (auto simp: gen_of_def Let_def take_handler_def onReconnect_def onIdle_def onVoiceTimeout_def)
  qed
qed

lemma quiet_step_disconnected:
  assumes "quiet_step os s s'" and "remote_inv opts n 0 False s" and d: "disconnected s"
  shows "disconnected s'"
proof -
  have quiet: "ConnectT \<notin> set (m_tasks s')" and "step os s s'"
    using assms(1) by (simp_all add: quiet_step_def)
  from this(2) have "m_userDisconnect s' \<and> m_stream s' = None \<and> m_state s' = Disconnected"
  proof (cases rule: step.cases)
    case (step_task t ts)
    with d have "t \<noteq> ConnectT"
      by (auto simp: disconnected_def)
    with run_task_disconnected [of "s\<lparr>m_tasks := ts\<rparr>" t os] step_task d show ?thesis
      by (simp add: disconnected_def)
  next
    case (step_complete i h w c)
    with run_handler_disconnected [OF assms(2), of i h w os c] d show ?thesis
      by (simp add: disconnected_def Let_def)
  qed (use d in \<open>simp_all add: disconnected_def\<close>)
  with quiet show ?thesis
    by (simp add: disconnected_def)
qed

interpretation quiet: counted_invariant "quiet_step os"
  "\<lambda>n s. (remote_inv opts n 0 False s \<and> tasks_ok s) \<and> disconnected s" "2 ^ 64 - 1"
  for os opts
proof unfold_locales
  fix s s' n
  assume q: "quiet_step os s s'" and I: "(remote_inv opts n 0 False s \<and> tasks_ok s) \<and> disconnected s"
    and n: "n < (2 ^ 64 - 1 :: nat)"
  have "step os s s'"
    using q by (simp add: quiet_step_def)
  from step_inv [OF this conjunct1 [OF I] n] quiet_step_disconnected [OF q] I
  show "(remote_inv opts (Suc n) 0 False s' \<and> tasks_ok s') \<and> disconnected s'"
    by blast
qed

text \<open>
  (C8) A disconnect is final: once its task has run, and as long as the user does not ask for a connection, no timer, late
  completion, error or other call brings the connection back. The state stays disconnected and there is
  neither a stream nor an outstanding operation on one.
\<close>

theorem disconnect_is_final:
  assumes reach: "reach os opts n s" and task: "m_tasks s = DisconnectT # ts" "ConnectT \<notin> set ts"
    and run: "(quiet_step os ^^ k) (run_task os DisconnectT (s\<lparr>m_tasks := ts\<rparr>)) t" and bound: "n + k < 2 ^ 64 - 1"
  shows "m_state t = Disconnected \<and> m_stream t = None \<and> m_userDisconnect t \<and>
     chain (m_generation t) (m_pending t) = 0 \<and> writes (m_generation t) (m_pending t) = []"
proof -
  let ?s = "run_task os DisconnectT (s\<lparr>m_tasks := ts\<rparr>)"
  have inv: "remote_inv opts n 0 False s \<and> tasks_ok s"
    using reach_inv [OF reach] bound by simp
  have "remote_inv opts (Suc n) 0 False ?s \<and> tasks_ok ?s"
    using step_inv [OF step_task [OF task(1)] inv] bound by simp
  moreover have "disconnected ?s"
    using task(2) by (simp add: disconnected_def disconnect_task_def Let_def setState_def)
  ultimately have "(remote_inv opts (Suc n + k) 0 False t \<and> tasks_ok t) \<and> disconnected t"
    using quiet.run_keeps [OF run, of opts "Suc n"] bound by simp
  then show ?thesis
    by (auto simp: disconnected_def remote_inv_def connection_ok_def writer_ok_def)
qed

theorem disconnect_is_final_witness:
  "\<exists>t. (quiet_step sample_ossl ^^ 1) (run_task sample_ossl DisconnectT sample_new) t \<and> m_stream t = None"
proof -
  let ?s = "run_call sample_ossl CallDisconnect sample_new"
  let ?t = "run_task sample_ossl DisconnectT sample_new"
  have "reach sample_ossl sample_options 0 sample_new"
    unfolding sample_new_def by (rule reach_new)
  then have reach: "reach sample_ossl sample_options (Suc 0) ?s"
    by (rule reach_step) (rule step_call)
  have tasks: "m_tasks ?s = [DisconnectT]" "?s\<lparr>m_tasks := []\<rparr> = sample_new"
    by (simp_all add: Impl_disconnect_def post_def sample_new_def newImpl_def)
  have "step sample_ossl ?t (run_call sample_ossl CallStartVoice ?t)"
    by (rule step_call)
  then have "quiet_step sample_ossl ?t (run_call sample_ossl CallStartVoice ?t)"
    by (simp add: quiet_step_def Impl_startVoice_def post_def disconnect_task_def Let_def sample_new_def newImpl_def)
  then have run: "(quiet_step sample_ossl ^^ 1) ?t (run_call sample_ossl CallStartVoice ?t)"
    by (simp only: relpowp_1)
  then have "(quiet_step sample_ossl ^^ 1) (run_task sample_ossl DisconnectT (?s\<lparr>m_tasks := []\<rparr>))
      (run_call sample_ossl CallStartVoice ?t)"
    by (simp only: tasks(2))
  from disconnect_is_final [OF reach tasks(1) _ this] have "m_stream (run_call sample_ossl CallStartVoice ?t) = None"
    by simp
  with run show ?thesis
    by blast
qed

section \<open>Reading frames\<close>

text \<open>
  Bytes that arrive from the TV while a read is outstanding, wherever it stands among the pending operations: a read of
  a length byte takes one byte, a read of a body as many as its buffer has.
\<close>

inductive arrives :: "bytes \<Rightarrow> Impl \<Rightarrow> Impl \<Rightarrow> bool" where
  arrives_none: "arrives [] s s"
| arrives_byte: "m_pending s = ps @ (ReadByteH g, Waiting) # qs \<Longrightarrow>
     arrives bs (onReadByte g None b (s\<lparr>m_pending := ps @ qs\<rparr>)) t \<Longrightarrow> arrives (b # bs) s t"
| arrives_body: "m_pending s = ps @ (ReadBodyH g, Waiting) # qs \<Longrightarrow> length body = length (m_readBody s) \<Longrightarrow>
     arrives bs (onReadBody g None body (s\<lparr>m_pending := ps @ qs\<rparr>)) t \<Longrightarrow> arrives (body @ bs) s t"

lemma arrives_append: "arrives bs s t \<Longrightarrow> arrives cs t u \<Longrightarrow> arrives (bs @ cs) s u"
  by (induction rule: arrives.induct) (auto intro: arrives_byte arrives_body)

text \<open>Arriving bytes are completions, so they make a run.\<close>

lemma byte_step:
  assumes "m_pending s = ps @ (ReadByteH g, Waiting) # qs"
  shows "step os s (onReadByte g None b (s\<lparr>m_pending := ps @ qs\<rparr>))"
proof -
  have "step os s (run_handler os (ReadByteH g) \<lparr>failure = None, gotByte = b, gotBody = m_readBody s\<rparr> (take_handler (length ps) s))"
    using assms by (intro step_complete [of _ _ _ Waiting]) (simp_all add: possible_def)
  then show ?thesis
    using assms by (simp add: take_handler_def remove_nth_def)
qed

lemma body_step:
  assumes "m_pending s = ps @ (ReadBodyH g, Waiting) # qs" and "length bs = length (m_readBody s)"
  shows "step os s (onReadBody g None bs (s\<lparr>m_pending := ps @ qs\<rparr>))"
proof -
  have "step os s (run_handler os (ReadBodyH g) \<lparr>failure = None, gotByte = 0, gotBody = bs\<rparr> (take_handler (length ps) s))"
    using assms by (intro step_complete [of _ _ _ Waiting]) (simp_all add: possible_def)
  then show ?thesis
    using assms by (simp add: take_handler_def remove_nth_def)
qed

lemma arrives_run: "arrives bs s t \<Longrightarrow> (step os)\<^sup>*\<^sup>* s t"
  by (induction rule: arrives.induct) (auto intro: converse_rtranclp_into_rtranclp byte_step body_step)

text \<open>The length prefix, byte by byte, computes what the reference decoder does.\<close>

lemma prefix_arrives:
  assumes "varint_decode bs (m_readLength s) (m_readShift s) = Some (v, [])" and "m_stream s \<noteq> None"
    and "m_pending s = ps @ (ReadByteH (m_generation s), Waiting) # qs" and "m_readShift s \<le> 63"
    and "v \<noteq> 0" and "v \<le> MaxFrameSize"
  shows "\<exists>b r. arrives bs s (s\<lparr>m_pending := ps @ qs @ [(ReadBodyH (m_generation s), Waiting)],
     m_lengthByte := b, m_readLength := v, m_readShift := r, m_readBody := replicate (unat v) 0,
     m_received := m_received s @ bs\<rparr>)"
  using assms
proof (induction bs arbitrary: s ps qs)
  case (Cons b bs)
  let ?g = "m_generation s"
  let ?len = "m_readLength s OR push_bit (m_readShift s) (ucast (b AND 0x7f))"
  show ?case
  proof (cases "b AND 0x80 = 0")
    case True
    with Cons.prems have "v = ?len" and "bs = []"
      by (auto split: if_splits)
    moreover have "unat v \<noteq> 0"
      using Cons.prems(5) by (simp add: unat_eq_0)
    ultimately have "onReadByte ?g None b (s\<lparr>m_pending := ps @ qs\<rparr>) =
        s\<lparr>m_pending := ps @ qs @ [(ReadBodyH ?g, Waiting)], m_lengthByte := b, m_readLength := v,
          m_readShift := m_readShift s, m_readBody := replicate (unat v) 0, m_received := m_received s @ [b]\<rparr>"
      using True Cons.prems(2,6) by (auto simp: onReadByte_def Let_def async_def not_less)
    with arrives_byte [OF Cons.prems(3) arrives_none, of b] \<open>bs = []\<close> show ?thesis
      by (intro exI [of _ b] exI [of _ "m_readShift s"]) simp
  next
    case False
    with Cons.prems(1) have dec: "varint_decode bs ?len (m_readShift s + 7) = Some (v, [])"
      by (auto split: if_splits)
    then have shift: "m_readShift s + 7 \<le> 63"
      by (cases bs) (auto split: if_splits)
    let ?t = "s\<lparr>m_pending := (ps @ qs) @ [(ReadByteH ?g, Waiting)], m_lengthByte := b, m_readLength := ?len,
      m_readShift := m_readShift s + 7, m_received := m_received s @ [b]\<rparr>"
    have first: "onReadByte ?g None b (s\<lparr>m_pending := ps @ qs\<rparr>) = ?t"
      using False shift Cons.prems(2) by (simp add: onReadByte_def Let_def readOneLengthByte_def async_def)
    have "\<exists>b' r. arrives bs ?t (?t\<lparr>m_pending := (ps @ qs) @ [] @ [(ReadBodyH (m_generation ?t), Waiting)],
        m_lengthByte := b', m_readLength := v, m_readShift := r, m_readBody := replicate (unat v) 0,
        m_received := m_received ?t @ bs\<rparr>)"
      using dec shift Cons.prems by (intro Cons.IH) auto
    then show ?thesis
      using arrives_byte [OF Cons.prems(3), of bs b] first by auto
  qed
qed simp

text \<open>
  A frame that arrives byte by byte is handled as one message: when the bytes of a non-empty frame of up to four
  megabytes arrive at a remote that waits for a length prefix, it handles exactly this payload and waits for the
  next prefix.
\<close>

lemma frame_arrives:
  assumes "m_stream s \<noteq> None" and "m_pending s = ps @ (ReadByteH (m_generation s), Waiting) # qs"
    and "m_readLength s = 0" and "m_readShift s = 0" and "p \<noteq> []" and "length p \<le> 4 * 1024 * 1024"
  shows "\<exists>b l r. arrives (frame p) s
     (beginReadLength (m_generation s) (handleMessage p (resetIdleTimer
       (s\<lparr>m_lengthByte := b, m_readLength := l, m_readShift := r, m_pending := ps @ qs, m_readBody := p,
        m_received := m_received s @ frame p\<rparr>))))"
proof -
  let ?v = "word_of_nat (length p) :: u64"
  have v: "unat ?v = length p"
    using assms(6) by (simp add: unat_of_nat take_bit_nat_eq_self)
  then have "?v \<noteq> 0" and "?v \<le> MaxFrameSize"
    using assms(5,6) by (auto simp: MaxFrameSize_def word_le_nat_alt)
  then obtain b r where run: "arrives (varint_bytes ?v) s
      (s\<lparr>m_pending := ps @ qs @ [(ReadBodyH (m_generation s), Waiting)], m_lengthByte := b, m_readLength := ?v,
        m_readShift := r, m_readBody := replicate (length p) 0,
        m_received := m_received s @ varint_bytes ?v\<rparr>)" (is "arrives _ _ ?t")
    using prefix_arrives [of "varint_bytes ?v" s ?v ps qs] varint_decode_bytes [of ?v "[]"] assms v by auto
  have "arrives (p @ []) ?t (onReadBody (m_generation s) None p (?t\<lparr>m_pending := (ps @ qs) @ []\<rparr>))"
    by (rule arrives_body [OF _ _ arrives_none]) simp_all
  moreover have "onReadBody (m_generation s) None p (?t\<lparr>m_pending := (ps @ qs) @ []\<rparr>) =
      beginReadLength (m_generation s) (handleMessage p (resetIdleTimer
        (s\<lparr>m_lengthByte := b, m_readLength := ?v, m_readShift := r, m_pending := ps @ qs, m_readBody := p,
        m_received := m_received s @ frame p\<rparr>)))"
    by (simp add: onReadBody_def frame_eq)
  moreover have "frame p = varint_bytes ?v @ p @ []"
    by (simp add: frame_eq)
  ultimately show ?thesis
    using arrives_append [OF run] by metis
qed

text \<open>A remote that waits for a length prefix.\<close>

definition sample_reading :: Impl where
  "sample_reading = sample_new\<lparr>m_stream := Some newSslContext, m_userDisconnect := False, m_state := Connected,
     m_pending := [(ReadByteH 0, Waiting)]\<rparr>"

text \<open>
  (C16) A length prefix that does not end within ten bytes, or announces more than four megabytes, closes the connection:
  nothing is read or handled any more, and the remote reconnects or gives up as after any other loss.
\<close>

theorem bad_length_closes_connection:
  assumes "g = m_generation s"
    and "if b AND 0x80 \<noteq> 0 then 56 < m_readShift s
         else MaxFrameSize < m_readLength s OR push_bit (m_readShift s) (ucast (b AND 0x7f))"
  shows "let t = onReadByte g None b s in
     m_stream t = None \<and> m_generation t = g + 1 \<and> m_writeQueue t = [] \<and> m_readLength t = 0 \<and> m_readShift t = 0 \<and>
     m_voiceSessionId t = None \<and> m_deviceInfo t = m_deviceInfo s \<and> m_readBody t = m_readBody s \<and>
     m_state t = (if o_autoReconnect (m_options s) \<and> \<not> m_userDisconnect s \<and> \<not> m_shuttingDown s
                  then Reconnecting else Disconnected)"
  using assms
  by (auto simp: onReadByte_def Let_def handleConnectionLoss_def setState_def closeStream_def split: if_splits)

theorem bad_length_closes_connection_witness:
  "m_state (onReadByte 0 None 0xFF (sample_reading\<lparr>m_readShift := 63\<rparr>)) = Reconnecting"
  using bad_length_closes_connection [of 0 "sample_reading\<lparr>m_readShift := 63\<rparr>" "0xFF"]
  by (simp add: Let_def sample_reading_def sample_new_def newImpl_def sample_options_def defaultOptions_def)

section \<open>Reconnecting\<close>

text \<open>
  (C17) Back-off: in every reachable state the delay lies between 100 milliseconds and thirty seconds. If automatic reconnection is asked
  for, the user has not disconnected and the object is not being destroyed, a loss of the current connection arms the reconnect
  timer with the present delay and doubles the delay up to thirty seconds; otherwise a loss leaves the remote disconnected,
  with the timer and the delay as they were.
\<close>

theorem reconnect_delay_backs_off:
  assumes "reach os opts n s" and "n < 2 ^ 64"
  shows "100 \<le> m_reconnectDelay s \<and> m_reconnectDelay s \<le> 30000 \<and>
     (let t = handleConnectionLoss (m_generation s) s in
      m_stream t = None \<and>
      (if o_autoReconnect opts \<and> \<not> m_userDisconnect s \<and> \<not> m_shuttingDown s
       then m_expiry t ReconnectTimer = m_reconnectDelay s \<and> last (m_pending t) = (ReconnectH, Waiting) \<and>
         m_reconnectDelay t = min (2 * m_reconnectDelay s) 30000 \<and> m_state t = Reconnecting
       else m_expiry t = m_expiry s \<and> m_pending t = m_pending s \<and>
         m_reconnectDelay t = m_reconnectDelay s \<and> m_state t = Disconnected))"
proof -
  have "data_ok opts s"
    using reach_inv [OF assms] by (simp add: remote_inv_def)
  then have delay: "m_options s = opts" "100 \<le> m_reconnectDelay s" "m_reconnectDelay s \<le> 30000"
    by (simp_all add: data_ok_def)
  then show ?thesis
    by (cases "m_state s = Connected")
       (simp_all add: handleConnectionLoss_def Let_def setState_def async_def expires_after_def withCallbacks_def
          emitAvailability_def cancel_def closeStream_def mult.commute)
qed

theorem reconnect_delay_backs_off_witness:
  "m_reconnectDelay (handleConnectionLoss 1 sample_resolving) = 200 \<and> m_state (handleConnectionLoss 1 sample_resolving) = Reconnecting"
  using reconnect_delay_backs_off [OF sample_resolving_reach] sample_resolving_facts
  by (simp add: Let_def sample_options_def defaultOptions_def)

section \<open>Features and voice\<close>

text \<open>
  (C18) Negotiation: the active features are always among those the options ask for; voice is enabled only if the
  options enable it and the feature is active. A voice session is never both being started and running, and
  before shutdown neither exists without a stream.
\<close>

theorem features_and_voice_invariant:
  assumes "reach os opts n s" and "n < 2 ^ 64"
  shows "m_activeFeatures s AND initialFeatures opts = m_activeFeatures s \<and>
     (m_voiceEnabled s \<longrightarrow> m_activeFeatures s AND FeatureVoice \<noteq> 0 \<and> o_enableVoice opts) \<and>
     \<not> (m_voiceStarting s \<and> m_voiceSessionId s \<noteq> None) \<and>
     (m_voiceStarting s \<or> m_voiceSessionId s \<noteq> None \<longrightarrow> m_stream s \<noteq> None \<or> m_shuttingDown s) \<and>
     (m_state s = Connected \<longrightarrow> m_stream s \<noteq> None \<or> m_shuttingDown s)"
proof -
  have "data_ok opts s" "voice_ok s" "state_ok s"
    using reach_inv [OF assms] by (simp_all add: remote_inv_def)
  moreover have "o_enableVoice opts" if "f AND initialFeatures opts = f" "f AND FeatureVoice \<noteq> 0" for f
  proof (rule ccontr)
    assume "\<not> o_enableVoice opts"
    then have "initialFeatures opts AND FeatureVoice = 0"
      by (simp add: initialFeatures_def Let_def FeaturePing_def FeatureKey_def FeatureIme_def FeatureVoice_def
          FeaturePower_def FeatureVolume_def FeatureAppLink_def)
    with that show False
      by (metis and.assoc and_zero_eq)
  qed
  ultimately show ?thesis
    by (auto simp: data_ok_def voice_ok_def state_ok_def)
qed

theorem features_and_voice_invariant_witness:
  "m_activeFeatures sample_resolving AND initialFeatures sample_options = m_activeFeatures sample_resolving"
  using features_and_voice_invariant [OF sample_resolving_reach] by simp

text \<open>Frames accepted by a series of messages, on an open stream.\<close>

lemma queueMessage_queued: "m_stream s \<noteq> None \<Longrightarrow> m_queued (queueMessage p s) = m_queued s @ [frame p]"
  by (auto simp: queueMessage_def Let_def beginWrite_def)

lemma fold_queued:
  "m_stream s \<noteq> None \<Longrightarrow> m_queued (fold (\<lambda>c. queueMessage (f c)) cs s) = m_queued s @ map (\<lambda>c. frame (f c)) cs"
  by (induction cs arbitrary: s) (simp_all add: queueMessage_queued)

lemma length_voice_chunk: "rest \<noteq> [] \<Longrightarrow> length (voice_chunk rest) \<in> {VoiceMinimumChunkSize..VoiceChunkSize}"
  by (auto simp: voice_chunk_def Let_def VoiceChunkSize_def VoiceMinimumChunkSize_def)

lemma voice_chunks_pad:
  "\<exists>pad. concat (voice_chunks bs) = bs @ replicate pad 0 \<and> pad < VoiceMinimumChunkSize"
proof (induction bs rule: voice_chunks.induct)
  case (1 bs)
  show ?case
  proof (cases "bs = []")
    case True
    then show ?thesis
      by (subst voice_chunks.simps) (simp add: VoiceMinimumChunkSize_def)
  next
    case False
    then obtain pad where pad: "concat (voice_chunks (drop VoiceChunkSize bs)) = drop VoiceChunkSize bs @ replicate pad 0"
        "pad < VoiceMinimumChunkSize"
      using 1 by blast
    have chunks: "voice_chunks bs = voice_chunk bs # voice_chunks (drop VoiceChunkSize bs)"
      using False by (subst voice_chunks.simps) simp
    show ?thesis
    proof (cases "VoiceChunkSize \<le> length bs")
      case True
      then have "voice_chunk bs = take VoiceChunkSize bs"
        by (simp add: voice_chunk_def Let_def VoiceChunkSize_def VoiceMinimumChunkSize_def)
      with pad chunks show ?thesis
        by (intro exI [of _ pad]) (simp flip: append_assoc)
    next
      case short: False
      then have "voice_chunks (drop VoiceChunkSize bs) = []"
        by (subst voice_chunks.simps) simp
      moreover have "voice_chunk bs = bs @ replicate (VoiceMinimumChunkSize - length bs) 0"
        using short by (auto simp: voice_chunk_def Let_def)
      ultimately show ?thesis
        using False chunks by (intro exI [of _ "VoiceMinimumChunkSize - length bs"])
          (simp add: VoiceMinimumChunkSize_def)
    qed
  qed
qed

lemma voice_chunks_sizes: "c \<in> set (voice_chunks bs) \<Longrightarrow> length c \<in> {VoiceMinimumChunkSize..VoiceChunkSize}"
proof (induction bs rule: voice_chunks.induct)
  case (1 bs)
  then show ?case
    by (subst (asm) (2) voice_chunks.simps) (auto split: if_splits dest: length_voice_chunk)
qed

text \<open>
  (C19) Voice data of a running session is queued in order, in chunks of at least 8 and at most 20 kilobytes; put together they
  are the data, followed by fewer than 8192 zero bytes of padding. Without a session nothing is sent.
\<close>

theorem voice_data_is_chunked:
  assumes "m_stream s \<noteq> None" and "m_voiceSessionId s = Some sid"
  shows "\<exists>chunks pad. m_queued (sendVoiceData_task bs s) = m_queued s @ map (\<lambda>c. frame (remoteVoicePayload sid c)) chunks \<and>
     concat chunks = bs @ replicate pad 0 \<and> pad < 8192 \<and> (\<forall>c\<in>set chunks. length c \<in> {8192..20480}) \<and>
     sendVoiceData_task bs (s\<lparr>m_voiceSessionId := None\<rparr>) = s\<lparr>m_voiceSessionId := None\<rparr>"
proof -
  obtain pad where "concat (voice_chunks bs) = bs @ replicate pad 0" "pad < VoiceMinimumChunkSize"
    using voice_chunks_pad by blast
  moreover have "m_queued (sendVoiceData_task bs s) = m_queued s @ map (\<lambda>c. frame (remoteVoicePayload sid c)) (voice_chunks bs)"
    using assms by (simp add: sendVoiceData_task_def fold_queued)
  moreover have "\<forall>c\<in>set (voice_chunks bs). length c \<in> {8192..20480}"
    using voice_chunks_sizes by (auto simp: VoiceMinimumChunkSize_def VoiceChunkSize_def)
  ultimately show ?thesis
    by (intro exI [of _ "voice_chunks bs"] exI [of _ pad]) (simp add: VoiceMinimumChunkSize_def sendVoiceData_task_def)
qed

theorem voice_data_is_chunked_witness:
  "\<exists>chunks pad. concat chunks = [1, 2, 3 :: byte] @ replicate pad 0 \<and> pad < 8192 \<and>
     m_queued (sendVoiceData_task [1, 2, 3] (sample_reading\<lparr>m_voiceSessionId := Some 5\<rparr>)) =
       map (\<lambda>c. frame (remoteVoicePayload 5 c)) chunks"
proof -
  let ?s = "sample_reading\<lparr>m_voiceSessionId := Some 5\<rparr>"
  have s: "m_stream ?s \<noteq> None" "m_voiceSessionId ?s = Some 5" "m_queued ?s = []"
    by (simp_all add: sample_reading_def sample_new_def newImpl_def)
  from voice_data_is_chunked [OF s(1,2), of "[1, 2, 3]"] s(3) show ?thesis
    by (simp only: append_Nil) blast
qed

section \<open>The client identity\<close>

text \<open>
  (C38) When the identity cannot be read at the first attempt to connect, that attempt reports an error, but every later one succeeds in
  making a stream from a context that has no certificate and no key, even if the files are there by then: the
  context is kept and the identity is never loaded again.
\<close>

theorem identity_is_not_loaded_again:
  assumes none: "m_sslContext s = None" and user: "\<not> m_userDisconnect s" and up: "\<not> m_shuttingDown s"
    and missing: "readFile (o_certificateFile (m_options s)) (m_files s) = Inl e"
  shows "let t = beginConnect os reconnecting s;
             u = beginConnect os reconnecting' (t\<lparr>m_files := fs\<rparr>)
         in m_stream t = None \<and> m_state t = Disconnected \<and>
            (\<exists>ctx. m_stream u = Some ctx \<and> ctxCertificate ctx = None \<and> ctxPrivateKey ctx = None)"
proof -
  let ?ctx = "newSslContext\<lparr>verifyNone := True\<rparr>"
  have load: "ensureSslContext os (closeStream s) = (Inl e, (closeStream s)\<lparr>m_sslContext := Some ?ctx\<rparr>)"
    using none missing by (simp add: ensureSslContext_def loadClientIdentity_def loadIdentity_def io_throw_def Let_def)
  let ?t = "beginConnect os reconnecting s"
  have t: "m_stream ?t = None" "m_state ?t = Disconnected" "m_sslContext ?t = Some ?ctx"
      "\<not> m_userDisconnect ?t" "\<not> m_shuttingDown ?t"
    using load user up by (simp_all add: beginConnect_def Let_def setState_def)
  have "m_stream (beginConnect os reconnecting' (?t\<lparr>m_files := fs\<rparr>)) = Some ?ctx"
    using t by (simp add: beginConnect_def Let_def ensureSslContext_def)
  with t show ?thesis
    by (simp add: Let_def newSslContext_def)
qed

theorem identity_is_not_loaded_again_witness:
  "\<exists>ctx. m_stream (beginConnect sample_ossl False ((beginConnect sample_ossl False
       (sample_new\<lparr>m_userDisconnect := False, m_files := emptyFilesystem\<rparr>))\<lparr>m_files := sample_files\<rparr>)) = Some ctx \<and>
     ctxCertificate ctx = None"
  using identity_is_not_loaded_again [of "sample_new\<lparr>m_userDisconnect := False, m_files := emptyFilesystem\<rparr>" _
      sample_ossl False False sample_files]
  by (auto simp: Let_def sample_new_def newImpl_def readFile_def emptyFilesystem_def)

section \<open>Pairing through the remote\<close>

text \<open>
  (C24) The remote keeps its pairing session when a code is refused on this side, mistyped or not matching the two
  certificates: the session is unchanged but for the numbers OpenSSL allocated and freed and is still connected to the
  TV, so the user can try another code. Once pairing has succeeded the session is given up, and without a session
  \<^verbatim>\<open>finishPairing\<close> only reports that pairing was not started.
\<close>

theorem pairing_can_be_retried:
  assumes "m_pairing s = Some session" and "store_wf (m_numbers s)" and "Impl_finishPairing os code s = (r, s')"
  shows "(r = Inl (Invalid_argument m) \<longrightarrow>
       m_pairing s' = Some (session\<lparr>m_fs := m_files s, m_bns := m_numbers s'\<rparr>) \<and> m_connection session \<noteq> None \<and>
       store_wf (m_numbers s')) \<and>
     (r = Inr () \<longrightarrow> m_pairing s' = None \<and>
       Impl_finishPairing os code' s' = (Inl (Runtime_error ''finishPairing called before startPairing''), s'))"
proof -
  let ?p = "session\<lparr>m_fs := m_files s, m_bns := m_numbers s\<rparr>"
  obtain q p' where run: "PairingSession_finish os code ?p = (q, p')" and "r = q"
    and s': "s' = s\<lparr>m_numbers := m_bns p', m_pairing := (if isl q then Some p' else None)\<rparr>"
    using assms(1,3) by (auto simp: Impl_finishPairing_def split: prod.splits sum.splits)
  have "p' = ?p\<lparr>m_bns := m_bns p'\<rparr> \<and> numbers_ok p' \<and> m_connection p' \<noteq> None" if "q = Inl (Invalid_argument m)"
    using bad_code_keeps_session [of ?p os code m p'] assms(2) run that by simp
  moreover have "m_connection session = m_connection p'" if "p' = ?p\<lparr>m_bns := m_bns p'\<rparr>"
    by (subst that) simp
  ultimately show ?thesis
    using s' \<open>r = q\<close> by (auto simp: Impl_finishPairing_def)
qed

theorem pairing_can_be_retried_witness:
  "\<exists>m s' session. Impl_finishPairing sample_ossl ''ADC0D'' (sample_new\<lparr>m_pairing := Some (sample_connected [])\<rparr>) =
     (Inl (Invalid_argument m), s') \<and> m_pairing s' = Some session"
proof -
  let ?s = "sample_new\<lparr>m_pairing := Some (sample_connected [])\<rparr>"
  obtain m where "fst (Impl_finishPairing sample_ossl ''ADC0D'' ?s) = Inl (Invalid_argument m)"
    using sample_bad_code by (simp add: Impl_finishPairing_def sample_new_def newImpl_def)
  then have run: "Impl_finishPairing sample_ossl ''ADC0D'' ?s =
      (Inl (Invalid_argument m), snd (Impl_finishPairing sample_ossl ''ADC0D'' ?s))"
    by (simp add: prod_eq_iff)
  from pairing_can_be_retried [OF _ _ run, of "sample_connected []" m] show ?thesis
    by (subst run) (simp add: sample_new_def newImpl_def store_wf_empty)
qed

end
