(* ===== verification/Remote_Conversation.thy ===== *)
theory Remote_Conversation
  imports Remote_Properties
begin

text \<open>
  The conversation with the TV, end to end: what the remote shows its user and sends back as a
  function of the messages the TV sends, with framing, parsing and the event loop abstracted away,
  and that the transition system of \<^verbatim>\<open>Remote_Steps\<close> implements it byte by byte.
\<close>

section \<open>Specification\<close>

text \<open>What is visible of a remote: its data, the callbacks it has made and the frames it has accepted for the TV.\<close>

record View =
  v_active :: i32
  v_supported :: i32
  v_voiceEnabled :: bool
  v_deviceInfo :: DeviceInfo
  v_currentApp :: string
  v_ime :: "i32 \<times> i32"
  v_volume :: VolumeInfo
  v_isOn :: bool
  v_state :: ConnectionState
  v_starting :: bool
  v_session :: "i32 option"
  v_callbacks :: Callbacks
  v_calls :: "callback_call list"
  v_sent :: "bytes list"

definition view_of :: "Impl \<Rightarrow> View" where
  "view_of s = \<lparr>v_active = m_activeFeatures s, v_supported = m_supportedFeatures s, v_voiceEnabled = m_voiceEnabled s,
     v_deviceInfo = m_deviceInfo s, v_currentApp = m_currentApp s, v_ime = (m_imeCounter s, m_imeFieldCounter s),
     v_volume = m_volumeInfo s, v_isOn = m_isOn s, v_state = m_state s, v_starting = m_voiceStarting s,
     v_session = m_voiceSessionId s, v_callbacks = m_callbacks s, v_calls = m_out s, v_sent = m_queued s\<rparr>"

definition reply :: "bytes \<Rightarrow> View \<Rightarrow> View" where
  "reply payload v = v\<lparr>v_sent := v_sent v @ [frame payload]\<rparr>"

definition notify :: "(Callbacks \<Rightarrow> bool) \<Rightarrow> callback_call \<Rightarrow> View \<Rightarrow> View" where
  "notify isSet call v = (if isSet (v_callbacks v) then v\<lparr>v_calls := v_calls v @ [call]\<rparr> else v)"

fun react :: "tv_message \<Rightarrow> View \<Rightarrow> View" where
  "react (TvConfigure features info) v =
     (let active = v_active v AND features in
      reply (remoteConfigureResponse active) (notify onDeviceInfoChanged (DeviceInfoChanged info)
        (v\<lparr>v_active := active, v_supported := features, v_voiceEnabled := (active AND FeatureVoice \<noteq> 0),
           v_deviceInfo := info\<rparr>)))"
| "react TvSetActive v = reply (remoteSetActiveResponse (v_active v)) v"
| "react TvError v = notify onError (ErrorReported ''Android TV reported a remote protocol error'') v"
| "react (TvPing value) v = reply (remotePingResponse value) v"
| "react (TvCurrentApp app) v = notify onCurrentAppChanged (CurrentAppChanged app) (v\<lparr>v_currentApp := app\<rparr>)"
| "react (TvImeCounters ime field) v = v\<lparr>v_ime := (ime, field)\<rparr>"
| "react (TvVoiceBegin sid) v =
     (if v_starting v
      then notify onVoiceStarted (VoiceStarted sid)
        (reply (remoteVoiceBegin sid) (v\<lparr>v_starting := False, v_session := Some sid\<rparr>))
      else v)"
| "react (TvStart on) v =
     notify onPowerChanged (PowerChanged on) (notify onAvailabilityChanged (AvailabilityChanged True)
       (notify onConnectionState (ConnectionStateIs Connected) (v\<lparr>v_isOn := on, v_state := Connected\<rparr>)))"
| "react (TvVolume vol) v = notify onVolumeChanged (VolumeChanged vol) (v\<lparr>v_volume := vol\<rparr>)"

section \<open>Refinement\<close>

text \<open>A message is handled as the specification reacts to it.\<close>

lemma view_of_queueMessage: "m_stream s \<noteq> None \<Longrightarrow> view_of (queueMessage p s) = reply p (view_of s)"
  by (simp add: queueMessage_def Let_def beginWrite_def view_of_def reply_def resetIdleTimer_def expires_after_def
      cancel_def async_def)

lemma view_of_withCallbacks: "view_of (withCallbacks isSet call s) = notify isSet call (view_of s)"
  by (simp add: withCallbacks_def notify_def view_of_def)

lemmas view_simps = view_of_queueMessage view_of_withCallbacks

lemma handleMessage_reacts:
  assumes "parseRemote p = tv_incoming m" and "m_stream s \<noteq> None"
  shows "view_of (handleMessage p s) = react m (view_of s)"
proof (cases m)
  case (TvConfigure a info)
  let ?s = "s\<lparr>m_supportedFeatures := a, m_activeFeatures := m_activeFeatures s AND a,
    m_voiceEnabled := (m_activeFeatures s AND a AND FeatureVoice \<noteq> 0), m_deviceInfo := info\<rparr>"
  have "view_of ?s = (view_of s)\<lparr>v_active := v_active (view_of s) AND a, v_supported := a,
      v_voiceEnabled := (v_active (view_of s) AND a AND FeatureVoice \<noteq> 0), v_deviceInfo := info\<rparr>"
    by (simp add: view_of_def)
  with TvConfigure assms show ?thesis
    by (simp add: handleMessage_def Let_def emptyIncoming_def view_simps and.assoc) (simp add: view_of_def)
next
  case (TvVoiceBegin i)
  have "view_of ((cancel VoiceTimer (s\<lparr>m_handled := ms, m_voiceStarting := False\<rparr>))\<lparr>m_voiceSessionId := Some i\<rparr>) =
      (view_of s)\<lparr>v_starting := False, v_session := Some i\<rparr>" for ms
    by (simp add: view_of_def cancel_def)
  moreover have "v_starting (view_of s) = m_voiceStarting s" "view_of (s\<lparr>m_handled := ms\<rparr>) = view_of s" for ms
    by (simp_all add: view_of_def)
  ultimately show ?thesis
    using TvVoiceBegin assms by (simp add: handleMessage_def Let_def emptyIncoming_def view_simps)
qed (use assms in \<open>simp_all add: handleMessage_def Let_def emptyIncoming_def view_simps emitError_def emitAvailability_def
       setState_def, simp_all add: view_of_def notify_def\<close>)

text \<open>A remote that waits for a length prefix, and that the reading goes on after each message.\<close>

definition reading :: "Impl \<Rightarrow> bool" where
  "reading s \<longleftrightarrow> m_stream s \<noteq> None \<and> (ReadByteH (m_generation s), Waiting) \<in> set (m_pending s) \<and>
     m_readLength s = 0 \<and> m_readShift s = 0"

lemma beginReadLength_reading:
  assumes "m_stream s \<noteq> None" and "g = m_generation s"
  shows "reading (beginReadLength g s) \<and> view_of (beginReadLength g s) = view_of s"
  using assms by (simp add: reading_def beginReadLength_def readOneLengthByte_def async_def view_of_def)

lemma view_of_read [simp]:
  "view_of (resetIdleTimer s) = view_of s"
  "view_of (s\<lparr>m_lengthByte := b, m_readLength := l, m_readShift := r, m_pending := ps, m_readBody := p, m_received := rv\<rparr>) = view_of s"
  by (simp_all add: view_of_def resetIdleTimer_def expires_after_def cancel_def async_def)

definition tv_payload :: "tv_message \<Rightarrow> bytes" where
  "tv_payload m = encode_fields [tv_field m]"

lemma parse_tv_payload: "tv_small m \<Longrightarrow> parseRemote (tv_payload m) = tv_incoming m"
  using message_fields_wfields [of "[tv_field m]"] tv_field_wf [of m]
  by (simp add: tv_payload_def encode_fields_eq parseRemote_fields tv_field_parse)

lemma tv_payload_nonempty: "tv_payload m \<noteq> []"
  by (cases m) (simp_all add: tv_payload_def encode_fields_eq)

text \<open>One message: its frame takes a reading remote to a reading remote whose view is the reaction.\<close>

lemma message_refines:
  assumes "reading s" and "tv_small m" and "length (tv_payload m) \<le> 4 * 1024 * 1024"
  shows "\<exists>t. arrives (frame (tv_payload m)) s t \<and> reading t \<and> view_of t = react m (view_of s)"
proof -
  have stream: "m_stream s \<noteq> None" and zero: "m_readLength s = 0" "m_readShift s = 0"
    using assms(1) by (simp_all add: reading_def)
  obtain ps qs where pending: "m_pending s = ps @ (ReadByteH (m_generation s), Waiting) # qs"
    using assms(1) by (auto simp: reading_def dest: split_list)
  obtain b l r where run: "arrives (frame (tv_payload m)) s
      (beginReadLength (m_generation s) (handleMessage (tv_payload m) (resetIdleTimer
        (s\<lparr>m_lengthByte := b, m_readLength := l, m_readShift := r, m_pending := ps @ qs, m_readBody := tv_payload m,
           m_received := m_received s @ frame (tv_payload m)\<rparr>))))"
      (is "arrives _ _ (beginReadLength _ (handleMessage _ ?u))")
    using frame_arrives [OF stream pending zero tv_payload_nonempty assms(3)] by blast
  have u: "m_stream ?u \<noteq> None" "m_generation ?u = m_generation s" "view_of ?u = view_of s"
    using stream by simp_all
  then have "view_of (handleMessage (tv_payload m) ?u) = react m (view_of s)"
    using handleMessage_reacts [OF parse_tv_payload [OF assms(2)] u(1)] by simp
  with run u beginReadLength_reading [of "handleMessage (tv_payload m) ?u" "m_generation s"] show ?thesis
    by auto
qed

lemma conversation_arrives:
  assumes "reading s" and "list_all (\<lambda>m. tv_small m \<and> length (tv_payload m) \<le> 4 * 1024 * 1024) ms"
  shows "\<exists>t. arrives (frames (map tv_payload ms)) s t \<and> reading t \<and> view_of t = fold react ms (view_of s)"
  using assms
proof (induction ms arbitrary: s)
  case Nil
  then show ?case
    by (auto simp: frames_def intro: arrives_none)
next
  case (Cons m ms)
  then obtain t where "arrives (frame (tv_payload m)) s t" "reading t" "view_of t = react m (view_of s)"
    using message_refines [of s m] by auto
  moreover obtain t' where "arrives (frames (map tv_payload ms)) t t'" "reading t'" "view_of t' = fold react ms (view_of t)"
    using Cons.IH [OF \<open>reading t\<close>] Cons.prems(2) by auto
  ultimately show ?case
    using arrives_append [of "frame (tv_payload m)" s t] by (auto simp: frames_def)
qed

text \<open>
  (C1) The conversation with the TV: when the frames of any series of messages arrive, as one stream of bytes, at a remote that
  is reading, a run of the remote takes it to reading again, and its data, the callbacks it made and the frames it
  accepted for the TV are those of the specification applied message by message. In particular every ping is answered with
  its own value, the features offered to the TV are those both sides have, and a voice session starts only if one was
  asked for.
\<close>

theorem conversation_refines_reactions:
  assumes "reading s" and "list_all (\<lambda>m. tv_small m \<and> length (tv_payload m) \<le> 4 * 1024 * 1024) ms"
  shows "\<exists>t. arrives (frames (map tv_payload ms)) s t \<and> (step os)\<^sup>*\<^sup>* s t \<and> reading t \<and>
     view_of t = fold react ms (view_of s)"
  using conversation_arrives [OF assms] arrives_run by blast

theorem conversation_refines_reactions_witness:
  "\<exists>t. (step sample_ossl)\<^sup>*\<^sup>* sample_reading t \<and> v_isOn (view_of t) \<and>
     v_sent (view_of t) = [frame (remotePingResponse 5), frame (remoteConfigureResponse 3), frame (remotePingResponse 6)]"
proof -
  let ?ms = "[TvPing 5, TvConfigure 3 emptyDeviceInfo, TvStart True, TvPing 6]"
  have "reading sample_reading"
    by (simp add: reading_def sample_reading_def sample_new_def newImpl_def)
  moreover have "map (\<lambda>m. length (tv_payload m)) ?ms = [4, 12, 5, 4]"
    by code_simp
  then have "list_all (\<lambda>m. tv_small m \<and> length (tv_payload m) \<le> 4 * 1024 * 1024) ?ms"
    by (simp add: emptyDeviceInfo_def)
  ultimately obtain t where "(step sample_ossl)\<^sup>*\<^sup>* sample_reading t" "view_of t = fold react ?ms (view_of sample_reading)"
    using conversation_refines_reactions by blast
  moreover from this(2) have "v_isOn (view_of t)" "v_sent (view_of t) =
      [frame (remotePingResponse 5), frame (remoteConfigureResponse 3), frame (remotePingResponse 6)]"
    by (simp_all add: reply_def notify_def view_of_def sample_reading_def sample_new_def newImpl_def noCallbacks_def Let_def
        sample_options_def defaultOptions_def initialFeatures_def FeaturePing_def FeatureKey_def FeatureIme_def FeatureVoice_def
          FeaturePower_def FeatureVolume_def FeatureAppLink_def)
  ultimately show ?thesis
    by blast
qed

end
