(* ===== verification/Remote_Progress.thy ===== *)
theory Remote_Progress
  imports Remote_Properties
begin

text \<open>
  Progress: what the I/O thread does by itself, posted tasks and writes, comes to rest after a bounded number of
  steps, in whatever order they are taken, and what it was given is then written.
\<close>

section \<open>What the I/O thread does by itself\<close>

text \<open>
  Running the posted tasks in order and completing writes in any order: with success only, or with any
  result if \<open>fails\<close>.
\<close>

inductive inner :: "bool \<Rightarrow> 'md ossl \<Rightarrow> Impl \<Rightarrow> Impl \<Rightarrow> bool" for fails os where
  inner_task: "m_tasks s = t # ts \<Longrightarrow> inner fails os s (run_task os t (s\<lparr>m_tasks := ts\<rparr>))"
| inner_write: "m_pending s = ps @ (WriteH g b, w) # qs \<Longrightarrow> err = None \<or> fails \<Longrightarrow>
    inner fails os s (onWrite g err (s\<lparr>m_pending := ps @ qs\<rparr>))"

inductive_cases inner_elim: "inner fails os s t"

lemma write_completes:
  assumes "m_pending s = ps @ (WriteH g b, w) # qs"
  shows "step os s (onWrite g err (s\<lparr>m_pending := ps @ qs\<rparr>))"
proof -
  have "step os s (run_handler os (WriteH g b) \<lparr>failure = err, gotByte = 0, gotBody = m_readBody s\<rparr> (take_handler (length ps) s))"
    using assms by (intro step_complete [of _ _ _ w]) (simp_all add: possible_def)
  then show ?thesis
    using assms by (simp add: take_handler_def remove_nth_def)
qed

lemma inner_step: "inner fails os s t \<Longrightarrow> step os s t"
  by (induction rule: inner.induct) (auto intro: step_task write_completes)

section \<open>The work that is left\<close>

text \<open>
  The frames in the queue, the writes outstanding (those of earlier connections too), and for each task what it
  may add to both.
\<close>

definition pending_writes :: "(handler \<times> wait) list \<Rightarrow> nat" where
  "pending_writes ps = length (filter (\<lambda>p. write_of (fst p) \<noteq> None) ps)"

definition load :: "Impl \<Rightarrow> nat" where
  "load s = length (m_writeQueue s) + pending_writes (m_pending s)"

fun task_work :: "task \<Rightarrow> nat" where
  "task_work (MessageT p) = 3"
| "task_work (TextT t) = 3"
| "task_work StartVoiceT = 3"
| "task_work StopVoiceT = 3"
| "task_work (VoiceDataT bs) = Suc (2 * length (voice_chunks bs))"
| "task_work _ = 1"

definition work :: "Impl \<Rightarrow> nat" where
  "work s = sum_list (map task_work (m_tasks s)) + load s"

lemma pending_writes_simps [simp]:
  "pending_writes (ps @ qs) = pending_writes ps + pending_writes qs"
  "pending_writes ((h, w) # ps) = (if write_of h = None then 0 else 1) + pending_writes ps"
  "pending_writes [] = 0"
  by (simp_all add: pending_writes_def)

lemma pending_writes_fst: "map fst ps = map fst qs \<Longrightarrow> pending_writes ps = pending_writes qs"
proof -
  have "pending_writes ps = length (filter (\<lambda>h. write_of h \<noteq> None) (map fst ps))" for ps
    by (simp add: pending_writes_def filter_map comp_def)
  then show "map fst ps = map fst qs \<Longrightarrow> pending_writes ps = pending_writes qs" by metis
qed

lemma pending_writes_ops [simp]:
  "pending_writes (m_pending (async h s)) = pending_writes (m_pending s) + (if write_of h = None then 0 else 1)"
  "pending_writes (m_pending (cancel t s)) = pending_writes (m_pending s)"
  "pending_writes (m_pending (expires_after t d s)) = pending_writes (m_pending s)"
  "pending_writes (m_pending (resetIdleTimer s)) = pending_writes (m_pending s)"
  using pending_writes_fst [OF cancel_fst] by (simp_all add: async_def expires_after_def resetIdleTimer_def)

lemma load_timers [simp]:
  "load (withCallbacks f c s) = load s"
  "load (async h s) = load s + (if write_of h = None then 0 else 1)"
  "load (cancel t s) = load s"
  "load (expires_after t d s) = load s"
  "load (resetIdleTimer s) = load s"
  by (simp_all add: load_def withCallbacks_def)

lemma load_unused [simp]:
  "load (s\<lparr>m_userDisconnect := ud\<rparr>) = load s" "load (s\<lparr>m_state := st\<rparr>) = load s"
  "load (s\<lparr>m_voiceStarting := b\<rparr>) = load s" "load (s\<lparr>m_voiceSessionId := v\<rparr>) = load s"
  "load (s\<lparr>m_reconnectDelay := d\<rparr>) = load s" "load (s\<lparr>m_promises := p\<rparr>) = load s"
  "load (s\<lparr>m_work := w\<rparr>) = load s" "load (s\<lparr>m_tasks := ts\<rparr>) = load s"
  "load (s\<lparr>m_sslContext := sc\<rparr>) = load s" "load (s\<lparr>m_stream := sm\<rparr>) = load s"
  "load (s\<lparr>m_writeInProgress := b\<rparr>) = load s" "load (s\<lparr>m_undefined := b\<rparr>) = load s"
  by (simp_all add: load_def)

lemma load_emit [simp]:
  "load (emitError m s) = load s" "load (emitAvailability b s) = load s" "load (emitVoiceStopped s) = load s"
  "load (setState st s) = load s"
  by (simp_all add: emitError_def emitAvailability_def emitVoiceStopped_def setState_def)

lemma load_closeStream: "load (closeStream s) \<le> load s"
  by (simp add: load_def closeStream_def)

lemma load_beginWrite: "load (beginWrite s) \<le> Suc (load s)"
  by (simp add: beginWrite_def)

lemma load_queueMessage: "load (queueMessage p s) \<le> load s + 2"
  using load_beginWrite [of "(resetIdleTimer s)\<lparr>m_writeQueue := m_writeQueue s @ [frame p], m_queued := m_queued s @ [frame p]\<rparr>"]
  by (auto simp: queueMessage_def Let_def load_def)

lemma load_queue_fold: "load (fold (\<lambda>c. queueMessage (f c)) cs s) \<le> load s + 2 * length cs"
proof (induction cs arbitrary: s)
  case (Cons c cs)
  from Cons [of "queueMessage (f c) s"] load_queueMessage [of "f c" s] show ?case by simp
qed simp

lemma load_beginConnect: "load (beginConnect os r s) \<le> load s"
  using load_closeStream [of s]
  by (auto simp: beginConnect_def ensureSslContext_eq undefined_behaviour_def Let_def split: option.splits prod.splits sum.splits)

lemma load_handleConnectionLoss: "load (handleConnectionLoss g s) \<le> load s"
  using load_closeStream [of s] by (auto simp: handleConnectionLoss_def Let_def)

lemma load_connectionFailed: "load (connectionFailed p e g s) \<le> load s"
  using load_handleConnectionLoss [of g] by (auto simp: connectionFailed_def) (metis load_emit(1))

lemma run_task_load: "load (run_task os t s) < load s + task_work t"
proof (cases t)
  case ConnectT
  then show ?thesis
    using load_beginConnect [of os False] by (simp add: connect_task_def Let_def le_imp_less_Suc) (metis le_imp_less_Suc load_timers(3) load_unused(1) load_unused(5))
next
  case (VoiceDataT bs)
  then show ?thesis
    using load_queue_fold [of "remoteVoicePayload sid" for sid]
    by (auto simp: sendVoiceData_task_def le_imp_less_Suc split: option.splits)
next
  case StopVoiceT
  then show ?thesis
    using load_queueMessage [of "remoteVoiceEnd sid" "(cancel VoiceTimer s)\<lparr>m_voiceStarting := False\<rparr>" for sid]
    by (auto simp: stopVoice_task_def Let_def less_eq_Suc_le numeral_3_eq_3 split: option.splits)
next
  case StartVoiceT
  then show ?thesis
    using load_queueMessage [of _ "s\<lparr>m_voiceStarting := True\<rparr>"]
    by (auto simp: startVoice_task_def Let_def less_eq_Suc_le numeral_3_eq_3)
qed (use load_queueMessage in \<open>auto simp: numeral_3_eq_3  disconnect_task_def disconnectAndWait_task_def
      sendText_task_def shutdown_task_def Let_def less_Suc_eq_le intro!: load_closeStream [THEN order_trans]\<close>)

lemma onWrite_load:
  assumes "m_pending s = ps @ (WriteH g b, w) # qs"
  shows "load (onWrite g err (s\<lparr>m_pending := ps @ qs\<rparr>)) < load s"
proof -
  let ?s = "s\<lparr>m_pending := ps @ qs\<rparr>"
  have less: "load ?s < load s"
    using assms by (simp add: load_def)
  show ?thesis
  proof (cases err)
    case None
    have "Suc (load (?s\<lparr>m_written := m_written s @ [hd (m_writeQueue s)], m_writeQueue := tl (m_writeQueue s)\<rparr>)) \<le> load ?s"
      if "m_writeQueue s \<noteq> []"
      using that by (cases "m_writeQueue s") (simp_all add: load_def)
    with load_beginWrite less None show ?thesis
      by (auto simp: onWrite_def undefined_behaviour_def intro: le_less_trans order_trans)
  next
    case (Some e)
    with less load_connectionFailed [of "''write failed''" e g "?s\<lparr>m_writeInProgress := False\<rparr>"] show ?thesis
      by (auto simp: onWrite_def)
  qed
qed

interpretation inner: falling "inner fails os" work for fails os
proof unfold_locales
  fix s t
  assume "inner fails os s t"
  then show "work t < work s"
  proof cases
    case (inner_task u us)
    with run_task_load [of os u "s\<lparr>m_tasks := us\<rparr>"] show ?thesis
      by (simp add: work_def)
  next
    case (inner_write ps g b w qs err)
    with onWrite_load [OF inner_write(2), of err] run_handler_tasks(1) [of os "WriteH g b" "\<lparr>failure = err, gotByte = 0, gotBody = []\<rparr>"]
    show ?thesis
      by (simp add: work_def)
  qed
qed

section \<open>A thread at rest\<close>

lemma inner_shuttingDown: "inner fails os s t \<Longrightarrow> m_shuttingDown t = m_shuttingDown s"
  using run_handler_tasks(2) [of os "WriteH g b" "\<lparr>failure = err, gotByte = 0, gotBody = []\<rparr>" for g b err]
  by (auto elim!: inner_elim)

lemma in_writes: "b \<in> set (writes g ps) \<Longrightarrow> \<exists>w. (WriteH g b, w) \<in> set ps"
proof (induction ps)
  case (Cons p ps)
  obtain h w where "p = (h, w)" by fastforce
  with Cons show ?case
    by (cases h) (auto split: if_splits)
qed simp

lemma at_rest:
  assumes "\<nexists>u. inner fails os s u" and "writer_ok False s" and "\<not> m_shuttingDown s"
  shows "m_tasks s = [] \<and> m_writeQueue s = [] \<and> m_written s = m_queued s"
proof -
  have "m_tasks s = []"
    using assms(1) by (cases "m_tasks s") (auto intro: inner_task)
  moreover have "m_writeQueue s = []"
  proof (rule ccontr)
    assume "m_writeQueue s \<noteq> []"
    with assms(2,3) have "hd (m_writeQueue s) \<in> set (writes (m_generation s) (m_pending s))"
      by (auto simp: writer_ok_def)
    then obtain w ps qs where "m_pending s = ps @ (WriteH (m_generation s) (hd (m_writeQueue s)), w) # qs"
      using in_writes by (meson split_list)
    from inner_write [OF this, of None] assms(1) show False by blast
  qed
  ultimately show ?thesis
    using assms(2) by (simp add: writer_ok_def)
qed

lemma inner_queued: "inner False os s t \<Longrightarrow> m_tasks s = [] \<Longrightarrow> m_tasks t = [] \<and> m_queued t = m_queued s"
  using run_handler_tasks(1) [of os "WriteH g b" "\<lparr>failure = err, gotByte = 0, gotBody = []\<rparr>" for g b err]
  by (auto elim!: inner_elim simp: onWrite_def beginWrite_def undefined_behaviour_def)

lemma inner_run:
  "(inner fails os ^^ k) s t \<Longrightarrow> (step os ^^ k) s t \<and> m_shuttingDown t = m_shuttingDown s \<and>
     (\<not> fails \<longrightarrow> m_tasks s = [] \<longrightarrow> m_tasks t = [] \<and> m_queued t = m_queued s)"
proof (induction k arbitrary: t)
  case (Suc k)
  then obtain u where "(inner fails os ^^ k) s u" and "inner fails os u t" by auto
  with Suc.IH [of u] show ?case
    by (auto simp: inner_shuttingDown inner_queued intro: inner_step)
qed simp

text \<open>
  (C5) Sending terminates: however the I/O thread interleaves posted tasks and completed writes, it takes at most as many such
  steps as there is work, and every run can be carried on to its end. When it is at rest, until shutdown, every
  task has run, the queue is empty and everything accepted on the connection has been written; if no write failed
  and there were no tasks, that is what was accepted at the start.
\<close>

theorem sending_comes_to_rest:
  assumes "reach os opts n s" and "\<not> m_shuttingDown s" and "(inner fails os ^^ k) s t" and "n + k < 2 ^ 64"
  shows "k + work t \<le> work s \<and> (\<exists>u. (inner fails os)\<^sup>*\<^sup>* t u \<and> (\<nexists>v. inner fails os u v)) \<and>
     ((\<nexists>u. inner fails os t u) \<longrightarrow> m_tasks t = [] \<and> m_writeQueue t = [] \<and> m_written t = m_queued t \<and>
        (\<not> fails \<longrightarrow> m_tasks s = [] \<longrightarrow> m_written t = m_queued s))"
proof -
  have run: "(step os ^^ k) s t" "m_shuttingDown t = m_shuttingDown s"
      "\<not> fails \<longrightarrow> m_tasks s = [] \<longrightarrow> m_queued t = m_queued s"
    using inner_run [OF assms(3)] by auto
  have "remote_inv opts (n + k) 0 False t \<and> tasks_ok t"
    using remote.run_keeps [OF run(1) reach_inv [OF assms(1)]] assms(4) by simp
  then have "writer_ok False t"
    by (simp add: remote_inv_def)
  with at_rest [of fails os t] run assms(2) show ?thesis
    using inner.run_bounded [OF assms(3)] inner.run_ends by auto
qed

theorem sending_comes_to_rest_witness:
  "\<exists>u. (inner True sample_ossl)\<^sup>*\<^sup>* (run_call sample_ossl (CallSendKey 3 Short) sample_resolving) u \<and>
     m_tasks u = [] \<and> m_writeQueue u = [] \<and> m_written u = m_queued u"
proof -
  let ?s = "run_call sample_ossl (CallSendKey 3 Short) sample_resolving"
  have "reach sample_ossl sample_options (Suc 2) ?s"
    using sample_resolving_reach step_call by (rule reach_step)
  then have s: "reach sample_ossl sample_options 3 ?s" "\<not> m_shuttingDown ?s" "work ?s \<le> 3"
    using sample_resolving_facts
    by (simp_all add: eval_nat_numeral Impl_sendKey_def postMessage_def post_def work_def load_def pending_writes_def)
  obtain u where u: "(inner True sample_ossl)\<^sup>*\<^sup>* ?s u" "\<nexists>v. inner True sample_ossl u v"
    using sending_comes_to_rest [OF s(1,2), of 0 True ?s] by auto
  then obtain k where run: "(inner True sample_ossl ^^ k) ?s u"
    by (auto simp: rtranclp_power)
  then have "k \<le> 3"
    using inner.run_bounded [OF run] s(3) by simp
  with sending_comes_to_rest [OF s(1,2) run] u show ?thesis
    by auto
qed

text \<open>Writes that succeed, and a message posted to them.\<close>

lemma onWrite_writer:
  assumes "m_pending s = ps @ (WriteH g b, w) # qs" and "writer_ok False s"
  shows "writer_ok False (onWrite g None (s\<lparr>m_pending := ps @ qs\<rparr>))"
proof (cases "g = m_generation s")
  case True
  with assms have w: "m_writeInProgress s" "m_stream s \<noteq> None" "m_writeQueue s \<noteq> []" "writes g (ps @ qs) = []"
      "m_queued s = m_written s @ m_writeQueue s"
    by (auto simp: writer_ok_def append_eq_Cons_conv)
  then show ?thesis
    using True by (cases "m_writeQueue s"; cases "tl (m_writeQueue s)") (simp_all add: writer_ok_def onWrite_def beginWrite_def)
next
  case False
  with assms show ?thesis
    by (simp add: onWrite_def writer_ok_def)
qed

definition delivering :: "bytes list \<Rightarrow> bytes \<Rightarrow> Impl \<Rightarrow> bool" where
  "delivering fs p s \<longleftrightarrow> writer_ok False s \<and> m_stream s \<noteq> None \<and> \<not> m_shuttingDown s \<and>
     (m_tasks s = [MessageT p] \<and> m_queued s = fs \<or> m_tasks s = [] \<and> m_queued s = fs @ [frame p])"

lemma inner_delivering:
  assumes "inner False os s t" and "delivering fs p s"
  shows "delivering fs p t"
  using assms(1)
proof cases
  case (inner_task u us)
  with assms(2) have u: "u = MessageT p" "us = []" "m_queued s = fs"
    by (auto simp: delivering_def)
  have "writer_ok False (s\<lparr>m_tasks := []\<rparr>)"
    using assms(2) by (auto simp: delivering_def writer_ok_def)
  with inner_task u assms(2) show ?thesis
    by (simp add: delivering_def queueMessage_writer queueMessage_queued)
next
  case (inner_write ps g b w qs err)
  with onWrite_writer [OF inner_write(2)] assms(2)
    run_handler_tasks [of os "WriteH g b" "\<lparr>failure = None, gotByte = 0, gotBody = []\<rparr>" "s\<lparr>m_pending := ps @ qs\<rparr>"]
  show ?thesis
    by (auto simp: delivering_def onWrite_def beginWrite_def undefined_behaviour_def)
qed

lemma delivered:
  assumes "delivering fs p s" and "(inner False os)\<^sup>*\<^sup>* s t" and "\<nexists>u. inner False os t u"
  shows "m_written t = fs @ [frame p] \<and> m_writeQueue t = []"
proof -
  from assms(2) have "delivering fs p t"
    by (induction rule: rtranclp_induct) (auto simp: assms(1) intro: inner_delivering)
  with at_rest [OF assms(3)] show ?thesis
    by (auto simp: delivering_def)
qed

end
