(* ===== verification/Remote_Facade.thy ===== *)
theory Remote_Facade
  imports Remote_Conversation Remote_Progress
begin

text \<open>
  The public class \<^verbatim>\<open>AndroidTvRemote\<close>: a \<^verbatim>\<open>std::unique_ptr\<close> to the implementation, to which every member function
  forwards. Moving from an object leaves it without an implementation, and calling it then follows a null pointer.
  Each function is given on the whole state, with the exception it may throw.
\<close>

section \<open>The object and its member functions\<close>

record AndroidTvRemote =
  impl :: "Impl option"

definition newRemote :: "Options \<Rightarrow> filesystem \<Rightarrow> bn_store \<Rightarrow> AndroidTvRemote" where
  "newRemote options fs bns = \<lparr>impl = Some (newImpl options fs bns)\<rparr>"

text \<open>The move constructor: the new object and what is left of the old one.\<close>

definition moveRemote :: "AndroidTvRemote \<Rightarrow> AndroidTvRemote \<times> AndroidTvRemote" where
  "moveRemote r = (r, r\<lparr>impl := None\<rparr>)"

text \<open>
  The destructor, and the move assignment, which destroys the implementation the object had: what that implementation is
  when its I/O thread is told to stop. The thread may still run some of the tasks and handlers before it does.
\<close>

definition destroyRemote :: "AndroidTvRemote \<Rightarrow> Impl option" where
  "destroyRemote r = map_option Impl_shutdown (impl r)"

definition moveAssign :: "AndroidTvRemote \<Rightarrow> AndroidTvRemote \<Rightarrow> AndroidTvRemote \<times> AndroidTvRemote \<times> Impl option" where
  "moveAssign r other = (r\<lparr>impl := impl other\<rparr>, other\<lparr>impl := None\<rparr>, destroyRemote r)"

text \<open>The members of the implementation that only read it.\<close>

definition Impl_connectionState :: "Impl \<Rightarrow> ConnectionState" where "Impl_connectionState s = m_state s"
definition Impl_isVoiceEnabled :: "Impl \<Rightarrow> bool" where "Impl_isVoiceEnabled s = m_voiceEnabled s"
definition Impl_isOn :: "Impl \<Rightarrow> bool" where "Impl_isOn s = m_isOn s"
definition Impl_currentApp :: "Impl \<Rightarrow> string" where "Impl_currentApp s = m_currentApp s"
definition Impl_deviceInfo :: "Impl \<Rightarrow> DeviceInfo" where "Impl_deviceInfo s = m_deviceInfo s"
definition Impl_volumeInfo :: "Impl \<Rightarrow> VolumeInfo" where "Impl_volumeInfo s = m_volumeInfo s"

text \<open>The \<^verbatim>\<open>->\<close> of \<^verbatim>\<open>impl_\<close>, for functions that change the implementation and for those that only read it.\<close>

definition via :: "(Impl, 'a) io \<Rightarrow> (AndroidTvRemote, 'a) io" where
  "via f r = (case impl r of
     None \<Rightarrow> (Inl Undefined_behaviour, r)
   | Some i \<Rightarrow> (case f i of (x, i') \<Rightarrow> (x, r\<lparr>impl := Some i'\<rparr>)))"

definition via_unit :: "(Impl \<Rightarrow> Impl) \<Rightarrow> (AndroidTvRemote, unit) io" where
  "via_unit f = via (\<lambda>i. (Inr (), f i))"

definition via_get :: "(Impl \<Rightarrow> 'a) \<Rightarrow> (AndroidTvRemote, 'a) io" where
  "via_get f = via (\<lambda>i. (Inr (f i), i))"

definition setCallbacks :: "Callbacks \<Rightarrow> (AndroidTvRemote, unit) io" where
  "setCallbacks callbacks = via_unit (Impl_setCallbacks callbacks)"

definition remote_generateCertificateIfMissing :: "'md ossl \<Rightarrow> (AndroidTvRemote, bool) io" where
  "remote_generateCertificateIfMissing os = via (Impl_generateCertificateIfMissing os)"

text \<open>
  \<^verbatim>\<open>startPairing\<close> blocks until the I/O thread has run the task it posted; \<^verbatim>\<open>wait\<close> is what the I/O thread does
  meanwhile.
\<close>

definition startPairing ::
    "'md ossl \<Rightarrow> (Impl \<Rightarrow> Impl) \<Rightarrow> (string \<Rightarrow> 16 word \<Rightarrow> nat \<Rightarrow> tls_peer) \<Rightarrow> (AndroidTvRemote, unit) io" where
  "startPairing os wait peers = via (\<lambda>i. Impl_startPairing os peers (wait (Impl_startPairing_wait i)))"

definition finishPairing :: "'md ossl \<Rightarrow> string \<Rightarrow> (AndroidTvRemote, unit) io" where
  "finishPairing os code = via (Impl_finishPairing os code)"

definition getNameAndMac ::
    "'md ossl \<Rightarrow> (string \<Rightarrow> 16 word \<Rightarrow> nat \<Rightarrow> tls_peer) \<Rightarrow> (AndroidTvRemote, DeviceIdentity) io" where
  "getNameAndMac os peers = via (\<lambda>i. (Impl_getNameAndMac os peers i, i))"

definition connect :: "(AndroidTvRemote, unit) io" where
  "connect = via_unit Impl_connect"

definition disconnect :: "(AndroidTvRemote, unit) io" where
  "disconnect = via_unit Impl_disconnect"

definition connectionState :: "(AndroidTvRemote, ConnectionState) io" where
  "connectionState = via_get Impl_connectionState"

definition sendKey :: "KeyCode \<Rightarrow> Direction \<Rightarrow> (AndroidTvRemote, unit) io" where
  "sendKey key direction = via_unit (Impl_sendKey (keyCode key) direction)"

definition sendKeyNumber :: "i32 \<Rightarrow> Direction \<Rightarrow> (AndroidTvRemote, unit) io" where
  "sendKeyNumber key direction = via_unit (Impl_sendKey key direction)"

text \<open>The overload for names resolves the name before it touches the implementation.\<close>

definition sendKeyNamed :: "string \<Rightarrow> Direction \<Rightarrow> (AndroidTvRemote, unit) io" where
  "sendKeyNamed keyName direction r =
     (case keyCodeFromName keyName of
        None \<Rightarrow> (Inl (Invalid_argument (''unknown Android key name: '' @ keyName)), r)
      | Some key \<Rightarrow> via_unit (Impl_sendKey key direction) r)"

definition sendText :: "string \<Rightarrow> (AndroidTvRemote, unit) io" where
  "sendText txt = via (Impl_sendText txt)"

definition launchApp :: "string \<Rightarrow> (AndroidTvRemote, unit) io" where
  "launchApp appLink = via_unit (Impl_launchApp appLink)"

definition startVoice :: "(AndroidTvRemote, unit) io" where
  "startVoice = via_unit Impl_startVoice"

definition sendVoiceData :: "bytes \<Rightarrow> (AndroidTvRemote, unit) io" where
  "sendVoiceData pcm = via_unit (Impl_sendVoiceData pcm)"

definition stopVoice :: "(AndroidTvRemote, unit) io" where
  "stopVoice = via_unit Impl_stopVoice"

definition isVoiceEnabled :: "(AndroidTvRemote, bool) io" where "isVoiceEnabled = via_get Impl_isVoiceEnabled"
definition isOn :: "(AndroidTvRemote, bool) io" where "isOn = via_get Impl_isOn"
definition remote_currentApp :: "(AndroidTvRemote, string) io" where "remote_currentApp = via_get Impl_currentApp"
definition remote_deviceInfo :: "(AndroidTvRemote, DeviceInfo) io" where "remote_deviceInfo = via_get Impl_deviceInfo"
definition volumeInfo :: "(AndroidTvRemote, VolumeInfo) io" where "volumeInfo = via_get Impl_volumeInfo"

lemma via_Some [simp]: "impl r = Some i \<Longrightarrow> via f r = (fst (f i), r\<lparr>impl := Some (snd (f i))\<rparr>)"
  by (simp add: via_def case_prod_beta)

section \<open>A key press, end to end\<close>

lemma remoteKey_decodes:
  "asI32 (varintOf (remoteKey k d) [10] 1) = k" "asI32 (varintOf (remoteKey k d) [10] 2) = directionCode d"
  by (simp_all add: message_fields_of decode_simps)

text \<open>
  (C14) A key pressed by its name reaches the TV: on a remote with an open stream the call returns normally. The posted task and the
  writes, if they succeed, come to an end, and whenever they do, in whatever order they were completed, everything
  accepted before has been written, and after it exactly one frame, whose message decodes to the key code of that name and the
  direction; nothing is left in the queue. A name that is not known throws and changes nothing.
\<close>

theorem key_press_reaches_tv:
  assumes "impl r = Some s" and "reach os opts n s" and "n < 2 ^ 64" and "m_stream s \<noteq> None"
    and "\<not> m_shuttingDown s" and "m_tasks s = []"
  shows "case keyCodeFromName name of
       None \<Rightarrow> sendKeyNamed name d r = (Inl (Invalid_argument (''unknown Android key name: '' @ name)), r)
     | Some k \<Rightarrow> \<exists>u p. sendKeyNamed name d r = (Inr (), r\<lparr>impl := Some u\<rparr>) \<and>
         asI32 (varintOf p [10] 1) = k \<and> asI32 (varintOf p [10] 2) = directionCode d \<and>
         (\<exists>t. (inner False os)\<^sup>*\<^sup>* u t \<and> (\<nexists>v. inner False os t v)) \<and>
         (\<forall>t. (inner False os)\<^sup>*\<^sup>* u t \<and> (\<nexists>v. inner False os t v) \<longrightarrow>
            m_written t = m_queued s @ [frame p] \<and> m_writeQueue t = [])"
proof (cases "keyCodeFromName name")
  case None
  then show ?thesis
    by (simp add: sendKeyNamed_def)
next
  case (Some k)
  let ?u = "post (MessageT (remoteKey k d)) s"
  have "writer_ok False s"
    using reach_inv [OF assms(2,3)] by (simp add: remote_inv_def)
  then have "delivering (m_queued s) (remoteKey k d) ?u"
    using assms(4-6) by (auto simp: delivering_def writer_ok_def post_def)
  moreover have "sendKeyNamed name d r = (Inr (), r\<lparr>impl := Some ?u\<rparr>)"
    using Some assms(1) by (simp add: sendKeyNamed_def via_unit_def Impl_sendKey_def postMessage_def)
  ultimately show ?thesis
    unfolding Some option.case using remoteKey_decodes [of k d] inner.run_ends [of False os ?u] delivered [of _ _ ?u os]
    by (intro exI [of _ ?u] exI [of _ "remoteKey k d"]) blast
qed

theorem key_press_reaches_tv_witness:
  "\<exists>u t p. sendKeyNamed ''home'' Short \<lparr>impl = Some sample_open\<rparr> = (Inr (), \<lparr>impl = Some u\<rparr>) \<and>
     (inner False sample_ossl)\<^sup>*\<^sup>* u t \<and> m_written t = m_queued sample_open @ [frame p] \<and> asI32 (varintOf p [10] 1) = 3"
proof -
  have "keyCodeFromName ''home'' = Some 3"
    by code_simp
  with key_press_reaches_tv [OF _ sample_open_reach, of "\<lparr>impl = Some sample_open\<rparr>" "''home''" Short]
    sample_open_facts show ?thesis
    by fastforce
qed

text \<open>
  (C37) A command given while the connection is still being made is not held back: as soon as there is a stream its frame is
  handed to the stream for writing, although name resolution, the TCP connection or the TLS handshake is still outstanding
  on it.
\<close>

theorem commands_are_written_while_connecting:
  assumes "reach os opts n s" and "n < 2 ^ 64" and "\<not> m_shuttingDown s" and "m_writeQueue s = []"
    and "h \<in> {ResolveH (m_generation s), ConnectH (m_generation s), HandshakeH (m_generation s)}"
    and "(h, w) \<in> set (m_pending s)"
  shows "\<exists>w'. {(h, w'), (WriteH (m_generation s) (frame p), Waiting)} \<subseteq> set (m_pending (run_task os (MessageT p) s))"
proof -
  have inv: "connection_ok 0 s" "writer_ok False s"
    using reach_inv [OF assms(1,2)] by (simp_all add: remote_inv_def)
  obtain ps qs where "m_pending s = ps @ (h, w) # qs"
    using assms(6) by (auto dest: split_list)
  then have "0 < chain (m_generation s) (m_pending s)"
    using assms(5) by auto
  with inv assms(4) have "m_stream s \<noteq> None" "\<not> m_writeInProgress s"
    by (auto simp: connection_ok_def writer_ok_def)
  then have "run_task os (MessageT p) s = async (WriteH (m_generation s) (frame p)) ((resetIdleTimer s)
      \<lparr>m_writeQueue := [frame p], m_queued := m_queued s @ [frame p], m_writeInProgress := True\<rparr>)"
    using assms(4) by (auto simp: queueMessage_def beginWrite_def Let_def)
  with assms(5,6) show ?thesis
    by (force simp: async_def resetIdleTimer_def expires_after_def cancel_def)
qed

theorem commands_are_written_while_connecting_witness:
  "\<exists>w. {(ResolveH 1, w), (WriteH 1 (frame [7]), Waiting)} \<subseteq> set (m_pending (run_task sample_ossl (MessageT [7]) sample_resolving))"
  using commands_are_written_while_connecting [OF sample_resolving_reach, of "ResolveH 1" Waiting "[7]"] sample_resolving_facts
  by simp

end
