(* ===== verification/Remote_Cli.thy ===== *)
theory Remote_Cli
  imports Remote_Facade
begin

text \<open>
  The command-line program \<^verbatim>\<open>examples/remote_cli.cpp\<close>, as a client of the public class. What happens
  outside \<^verbatim>\<open>main\<close> is a parameter: what the I/O thread does while \<^verbatim>\<open>main\<close> sleeps or waits, the network that
  pairing meets, and the word typed at the prompt. What is printed, by \<^verbatim>\<open>main\<close> and by the callbacks it sets, is one list; what
  callbacks print while the I/O thread runs beside a statement of \<^verbatim>\<open>main\<close> comes with that statement.
\<close>

section \<open>The program\<close>

datatype console = Cout string | Cerr string

record cli_env =
  io_sleep :: "nat \<Rightarrow> Impl \<Rightarrow> Impl"
  io_wait :: "Impl \<Rightarrow> Impl"
  io_peers :: "string \<Rightarrow> 16 word \<Rightarrow> nat \<Rightarrow> tls_peer"
  cin :: string

record cli =
  remote :: AndroidTvRemote
  printed :: "console list"

definition newline :: string where "newline = [CHR 0x0A]"

text \<open>What the two callbacks print.\<close>

fun callback_prints :: "callback_call \<Rightarrow> console list" where
  "callback_prints (ConnectionStateIs Connected) = [Cout (''Connected'' @ newline)]"
| "callback_prints (ErrorReported error) = [Cerr (''Error: '' @ error @ newline)]"
| "callback_prints _ = []"

text \<open>The callbacks called since the log of the implementation was that of \<open>r\<close>.\<close>

definition new_calls :: "AndroidTvRemote \<Rightarrow> AndroidTvRemote \<Rightarrow> callback_call list" where
  "new_calls r r' = (case (impl r, impl r') of
     (Some i, Some i') \<Rightarrow> drop (length (m_out i)) (m_out i')
   | _ \<Rightarrow> [])"

definition on_remote :: "(AndroidTvRemote, 'a) io \<Rightarrow> (cli, 'a) io" where
  "on_remote f c = (case f (remote c) of (x, r) \<Rightarrow>
     (x, c\<lparr>remote := r, printed := printed c @ concat (map callback_prints (new_calls (remote c) r))\<rparr>))"

definition print :: "console \<Rightarrow> (cli, unit) io" where
  "print line c = (Inr (), c\<lparr>printed := printed c @ [line]\<rparr>)"

definition sleep_for :: "cli_env \<Rightarrow> nat \<Rightarrow> (cli, unit) io" where
  "sleep_for env ms = on_remote (via_unit (io_sleep env ms))"

text \<open>\<^verbatim>\<open>std::filesystem::path\<close> made from a string: the root and the non-empty names between slashes.\<close>

definition path_of :: "string \<Rightarrow> path" where
  "path_of s = (if take 1 s = ''/'' then [''/''] else []) @ filter (\<lambda>n. n \<noteq> []) (splitSlash s)"

definition cli_options :: "string \<Rightarrow> path \<Rightarrow> Options" where
  "cli_options host dir = defaultOptions\<lparr>o_clientName := ''libandroidtvremote'', o_certificateFile := dir @ [''cert.pem''],
     o_privateKeyFile := dir @ [''key.pem''], o_host := host, o_enableVoice := True\<rparr>"

definition cli_callbacks :: Callbacks where
  "cli_callbacks = noCallbacks\<lparr>onConnectionState := True, onError := True\<rparr>"

text \<open>The \<^verbatim>\<open>try\<close> block of \<^verbatim>\<open>main\<close>; it returns the exit code.\<close>

definition cli_try :: "'md ossl \<Rightarrow> cli_env \<Rightarrow> string list \<Rightarrow> (cli, nat) io" where
  "cli_try os env argv =
     io_bind (on_remote (remote_generateCertificateIfMissing os)) (\<lambda>generated.
     if argv ! 3 = ''pair'' then
       io_bind (on_remote (startPairing os (io_wait env) (io_peers env))) (\<lambda>_.
       io_bind (print (Cout ''Pairing code displayed by Android TV: '')) (\<lambda>_.
       io_bind (on_remote (finishPairing os (cin env))) (\<lambda>_.
       io_bind (print (Cout (''Pairing complete'' @ newline))) (\<lambda>_. io_return 0))))
     else if generated then
       io_bind (print (Cerr (''A new certificate was generated; pair the device first.'' @ newline))) (\<lambda>_. io_return 3)
     else
       io_bind (on_remote (setCallbacks cli_callbacks)) (\<lambda>_.
       io_bind (on_remote connect) (\<lambda>_.
       io_bind (sleep_for env 2000) (\<lambda>_.
       if argv ! 3 = ''key'' \<and> 5 \<le> length argv then
         (case keyCodeFromName (argv ! 4) of
            None \<Rightarrow> io_bind (print (Cerr (''Unknown key name: '' @ argv ! 4 @ newline))) (\<lambda>_. io_return 4)
          | Some key \<Rightarrow>
              io_bind (on_remote (sendKeyNumber key Short)) (\<lambda>_.
              io_bind (sleep_for env 500) (\<lambda>_. io_return 0)))
       else io_bind (print (Cerr (''Unknown command'' @ newline))) (\<lambda>_. io_return 2)))))"

text \<open>\<^verbatim>\<open>main\<close>: the exit code, what it printed and the remote, if one was made, when its destructor begins.\<close>

definition main :: "'md ossl \<Rightarrow> cli_env \<Rightarrow> string list \<Rightarrow> filesystem \<Rightarrow> bn_store \<Rightarrow> nat \<times> console list \<times> Impl option" where
  "main os env argv fs bns =
     (if length argv < 4 then
        (2, [Cerr (''Usage:'' @ newline @ ''  androidtvremote-cli <host> <data-dir> pair'' @ newline @
           ''  androidtvremote-cli <host> <data-dir> key <KEY_NAME>'' @ newline)], None)
      else let c = \<lparr>remote = newRemote (cli_options (argv ! 1) (path_of (argv ! 2))) fs bns, printed = []\<rparr>
        in case cli_try os env argv c of
             (Inr code, c) \<Rightarrow> (code, printed c, impl (remote c))
           | (Inl error, c) \<Rightarrow> (1, printed c @ [Cerr (''Fatal: '' @ exn_what error @ newline)], impl (remote c)))"

section \<open>The program's runs\<close>

definition prints_between :: "Impl \<Rightarrow> Impl \<Rightarrow> console list" where
  "prints_between i j = concat (map callback_prints (drop (length (m_out i)) (m_out j)))"

lemma prints_between_same [simp]: "m_out j = m_out i \<Longrightarrow> prints_between i j = []"
  by (simp add: prints_between_def)

lemma on_remote_via [simp]:
  "impl (remote c) = Some i \<Longrightarrow>
     on_remote (via f) c = (fst (f i), c\<lparr>remote := (remote c)\<lparr>impl := Some (snd (f i))\<rparr>,
        printed := printed c @ prints_between i (snd (f i))\<rparr>)"
  by (simp add: on_remote_def new_calls_def prints_between_def)

lemma remote_generate [simp]:
  "impl (remote c) = Some i \<Longrightarrow> on_remote (remote_generateCertificateIfMissing os) c =
     (fst (Impl_generateCertificateIfMissing os i),
      c\<lparr>remote := (remote c)\<lparr>impl := Some (snd (Impl_generateCertificateIfMissing os i))\<rparr>\<rparr>)"
  by (simp add: remote_generateCertificateIfMissing_def Impl_generateCertificateIfMissing_def case_prod_beta)

lemma generate_files:
  assumes "generateCertificateIfMissing os (dir @ [''cert.pem'']) (dir @ [''key.pem'']) ''libandroidtvremote'' fs = (r, fs')"
  shows "Impl_generateCertificateIfMissing os (newImpl (cli_options host dir) fs bns) =
     (r, (newImpl (cli_options host dir) fs bns)\<lparr>m_files := fs'\<rparr>)"
  using assms by (simp add: Impl_generateCertificateIfMissing_def newImpl_def cli_options_def)

text \<open>
  (C40) Using the program: when there is no identity yet, the command to press a key makes one, prints that the device is to be
  paired first, and nothing else, ends with exit code 3 and contacts nobody. Run again, it keeps that identity, sets the callbacks,
  connects and sleeps for two seconds; then, if the name of the key is known, it sends this key, sleeps for half a second and
  ends with exit code 0, else it prints the name, sends nothing and ends with 4. Besides, exactly what its callbacks print
  while it sleeps is printed: the connection when it is made, and every error.
\<close>

theorem key_command_needs_identity:
  assumes "generateCertificateIfMissing os (path_of dir @ [''cert.pem'']) (path_of dir @ [''key.pem''])
      ''libandroidtvremote'' fs = (Inr True, fs')" and "\<not> statFails fs (path_of dir @ [''key.pem''])"
  shows "(\<exists>i. main os env [prog, host, dir, ''key'', name] fs bns =
         (3, [Cerr (''A new certificate was generated; pair the device first.'' @ newline)], Some i) \<and>
       m_files i = fs' \<and> m_tasks i = [] \<and> m_pending i = []) \<and>
     main os env [prog, host, dir, ''key'', name] fs' bns =
       (let u = Impl_connect (Impl_setCallbacks cli_callbacks (newImpl (cli_options host (path_of dir)) fs' bns));
            v = io_sleep env 2000 u
        in case keyCodeFromName name of
             Some k \<Rightarrow>
               (let w = post (MessageT (remoteKey k Short)) v; x = io_sleep env 500 w
                in (0, prints_between u v @ prints_between w x, Some x))
           | None \<Rightarrow> (4, prints_between u v @ [Cerr (''Unknown key name: '' @ name @ newline)], Some v))"
proof -
  let ?i = "newImpl (cli_options host (path_of dir)) fs bns"
  have "main os env [prog, host, dir, ''key'', name] fs bns =
      (3, [Cerr (''A new certificate was generated; pair the device first.'' @ newline)], Some (?i\<lparr>m_files := fs'\<rparr>))"
    using generate_files [OF assms(1), of host bns]
    by (simp add: main_def cli_try_def io_bind_def io_return_def print_def newRemote_def)
  moreover have "m_tasks (?i\<lparr>m_files := fs'\<rparr>) = []" "m_pending (?i\<lparr>m_files := fs'\<rparr>) = []"
    by (simp_all add: newImpl_def)
  ultimately have first: "\<exists>i. main os env [prog, host, dir, ''key'', name] fs bns =
      (3, [Cerr (''A new certificate was generated; pair the device first.'' @ newline)], Some i) \<and>
      m_files i = fs' \<and> m_tasks i = [] \<and> m_pending i = []"
    by auto
  let ?j = "newImpl (cli_options host (path_of dir)) fs' bns"
  let ?u = "Impl_connect (Impl_setCallbacks cli_callbacks ?j)"
  have "?j\<lparr>m_files := fs'\<rparr> = ?j"
    by (simp add: newImpl_def)
  then have "main os env [prog, host, dir, ''key'', name] fs' bns =
      (let v = io_sleep env 2000 ?u in
       case keyCodeFromName name of
         Some k \<Rightarrow>
           (let w = post (MessageT (remoteKey k Short)) v; x = io_sleep env 500 w
            in (0, prints_between ?u v @ prints_between w x, Some x))
       | None \<Rightarrow> (4, prints_between ?u v @ [Cerr (''Unknown key name: '' @ name @ newline)], Some v))"
    using generate_files [OF generate_again [OF assms(1)], of host bns] assms(2)
    by (simp add: main_def cli_try_def io_bind_def io_return_def print_def newRemote_def setCallbacks_def connect_def
        sendKeyNumber_def sleep_for_def via_unit_def Impl_sendKey_def postMessage_def Impl_connect_def Impl_setCallbacks_def
        post_def Let_def split: option.splits)
  with first show ?thesis
    by (simp only: Let_def)
qed

text \<open>An I/O thread that takes the connection through its steps, up to the first message of the TV, while \<^verbatim>\<open>main\<close> sleeps for two seconds.\<close>

definition sample_connects :: "Impl \<Rightarrow> Impl" where
  "sample_connects s =
     (let s = run_task sample_ossl (hd (m_tasks s)) (s\<lparr>m_tasks := tl (m_tasks s)\<rparr>);
          s = onResolve (m_generation s) None (s\<lparr>m_pending := []\<rparr>);
          s = onConnect (m_generation s) None (s\<lparr>m_pending := []\<rparr>);
          s = onHandshake (m_generation s) None (s\<lparr>m_pending := []\<rparr>)
      in handleMessage (tv_payload (TvStart True)) s)"

definition sample_env :: cli_env where
  "sample_env = \<lparr>io_sleep = (\<lambda>ms s. if ms = 2000 then sample_connects s else s), io_wait = (\<lambda>s. s),
     io_peers = (\<lambda>_ _ _. sample_tv []), cin = ''ADC0DE''\<rparr>"

theorem key_command_needs_identity_witness:
  "\<exists>fs' i j. main sample_ossl sample_env [''cli'', ''tv'', ''d'', ''key'', ''home''] emptyFilesystem emptyStore =
       (3, [Cerr (''A new certificate was generated; pair the device first.'' @ newline)], Some i) \<and> m_files i = fs' \<and>
     main sample_ossl sample_env [''cli'', ''tv'', ''d'', ''key'', ''home''] fs' emptyStore =
       (0, [Cout (''Connected'' @ newline)], Some j) \<and> m_tasks j = [MessageT (remoteKey 3 Short)]"
proof -
  have dir: "path_of ''d'' = [''d'']"
    using splitSlash_join [of "[''d'']"] by (simp add: path_of_def)
  let ?c = "[''d'', ''cert.pem'']"
  let ?k = "[''d'', ''key.pem'']"
  let ?fs = "emptyFilesystem\<lparr>files := [[''d''] \<mapsto> Directory, ?c \<mapsto> Regular (sample_pem CHR ''C'' 7), ?k \<mapsto> Regular (sample_pem CHR ''K'' 7)]\<rparr>"
  have run: "generateCertificateIfMissing sample_ossl (path_of ''d'' @ [''cert.pem'']) (path_of ''d'' @ [''key.pem''])
      ''libandroidtvremote'' emptyFilesystem = (Inr True, ?fs)"
    by (simp add: dir generate_eq new_identity_def make_parent_def regular_def emptyFilesystem_def parent_path_def
      create_directories_def prefixes_of_def io_bind_def io_return_def sample_issue writeBioToFile_def flushed_def sample_pem_def)
  have key: "keyCodeFromName ''home'' = Some 3"
    by code_simp
  have stat: "\<not> statFails emptyFilesystem (path_of ''d'' @ [''key.pem''])"
    by (simp add: emptyFilesystem_def)
  let ?u = "Impl_connect (Impl_setCallbacks cli_callbacks (newImpl (cli_options ''tv'' [''d'']) ?fs emptyStore))"
  have "\<exists>ctx. loadClientIdentity sample_ossl ?fs ?c ?k (Some (newSslContext\<lparr>verifyNone := True\<rparr>)) = (Inr (), Some ctx)"
    by (simp add: loadClientIdentity_def loadIdentity_def installIdentity_def readFile_def sample_ossl_def sample_pem_def
        sample_unpem_def emptyFilesystem_def Let_def)
  then obtain ctx where "loadClientIdentity sample_ossl ?fs ?c ?k (Some (newSslContext\<lparr>verifyNone := True\<rparr>)) = (Inr (), Some ctx)"
    by blast
  then have "m_out (sample_connects ?u) = [ConnectionStateIs Connecting, ConnectionStateIs Connected]" and "m_tasks (sample_connects ?u) = []"
    by (simp_all add: sample_connects_def handleMessage_def parse_tv_payload Impl_connect_def Impl_setCallbacks_def post_def connect_task_def beginConnect_def Let_def
        ensureSslContext_def newImpl_def cli_options_def defaultOptions_def closeStream_def cancel_def setState_def
        withCallbacks_def async_def cli_callbacks_def noCallbacks_def onResolve_def onConnect_def onHandshake_def
        beginReadLength_def readOneLengthByte_def emitAvailability_def expires_after_def resetIdleTimer_def)
  moreover have "m_out ?u = []"
    by (simp add: Impl_connect_def Impl_setCallbacks_def post_def newImpl_def)
  ultimately show ?thesis
    using key_command_needs_identity [OF run stat, of sample_env "''cli''" "''tv''" "''home''" emptyStore] key dir
    by (auto simp: sample_env_def prints_between_def post_def Let_def)
qed

end
