(* ===== verification/Remote_Receive.thy ===== *)
theory Remote_Receive
  imports Remote_Properties
begin

text \<open>
  Receiving under every interleaving: whatever calls, tasks, timers, writes and late completions come between the
  reads of a connection, the messages handled are those a reference decoder finds in the bytes read.
\<close>

section \<open>The reference decoder\<close>

text \<open>The complete frames at the start of a byte stream, and what is left.\<close>

function deframe :: "bytes \<Rightarrow> bytes list \<times> bytes" where
  "deframe bs =
     (case varint_decode bs 0 0 of
        None \<Rightarrow> ([], bs)
      | Some (n, rest) \<Rightarrow>
          if MaxFrameSize < n \<or> length rest < unat n then ([], bs)
          else case deframe (drop (unat n) rest) of (ms, left) \<Rightarrow> (take (unat n) rest # ms, left))"
  by pat_completeness auto
termination
  by (relation "measure length") (auto simp: neq_Nil_conv dest!: varint_decode_consumes)

declare deframe.simps [simp del]

lemma varint_decode_append:
  "varint_decode bs acc shift = Some (v, rest) \<Longrightarrow> varint_decode (bs @ cs) acc shift = Some (v, rest @ cs)"
  by (induction bs acc shift rule: varint_decode.induct) (auto simp: Let_def split: if_splits)

lemma deframe_append:
  "deframe bs = (ms, part) \<Longrightarrow>
     deframe (bs @ cs) = (case deframe (part @ cs) of (ms', left) \<Rightarrow> (ms @ ms', left))"
proof (induction bs arbitrary: ms rule: deframe.induct)
  case (1 bs)
  show ?case
  proof (cases "varint_decode bs 0 0")
    case None
    with 1 have "ms = []" "part = bs"
      by (simp_all add: deframe.simps [of bs])
    then show ?thesis
      by (simp add: case_prod_beta)
  next
    case (Some p)
    then obtain n rest where d: "varint_decode bs 0 0 = Some (n, rest)"
      by (cases p) simp
    show ?thesis
    proof (cases "MaxFrameSize < n \<or> length rest < unat n")
      case True
      with d 1 have "ms = []" "part = bs"
        by (simp_all add: deframe.simps [of bs])
      then show ?thesis
        by (simp add: case_prod_beta)
    next
      case False
      then obtain ms' where ms': "deframe (drop (unat n) rest) = (ms', part)" "ms = take (unat n) rest # ms'"
        using d 1(2) by (auto simp: deframe.simps [of bs] split: prod.splits)
      with 1(1) [OF d refl False] have "deframe (drop (unat n) rest @ cs) = (case deframe (part @ cs) of (ms'', left) \<Rightarrow> (ms' @ ms'', left))"
        by simp
      with False ms' varint_decode_append [OF d, of cs] show ?thesis
        by (simp add: deframe.simps [of "bs @ cs"] split: prod.splits)
    qed
  qed
qed

text \<open>It inverts the framing.\<close>

lemma deframe_frame:
  assumes "length p \<le> 4 * 1024 * 1024"
  shows "deframe (frame p @ bs) = (case deframe bs of (ms, left) \<Rightarrow> (p # ms, left))"
proof -
  let ?n = "word_of_nat (length p) :: u64"
  have "unat ?n = length p"
    using assms by (simp add: unat_of_nat take_bit_nat_eq_self)
  moreover from this have "\<not> MaxFrameSize < ?n"
    using assms by (simp add: MaxFrameSize_def word_less_nat_alt)
  ultimately show ?thesis
    using varint_decode_bytes [of ?n "p @ bs"] by (subst deframe.simps) (simp add: frame_eq)
qed

lemma deframe_nil [simp]: "deframe [] = ([], [])"
  by (subst deframe.simps) simp

section \<open>The reader's part of the state\<close>

text \<open>
  What the bytes read so far depend on: the outstanding operations of the connection's chain, and the members that hold
  the partial length and the buffer.
\<close>

record reader =
  rd_ops :: "handler list"
  rd_received :: bytes
  rd_handled :: "bytes list"
  rd_length :: u64
  rd_shift :: nat
  rd_body :: nat

definition chain_ops :: "u64 \<Rightarrow> (handler \<times> wait) list \<Rightarrow> handler list" where
  "chain_ops g ps = filter (\<lambda>h. chain_gen h = Some g) (map fst ps)"

definition reader_of :: "Impl \<Rightarrow> reader" where
  "reader_of s = \<lparr>rd_ops = chain_ops (m_generation s) (m_pending s), rd_received = m_received s, rd_handled = m_handled s,
     rd_length = m_readLength s, rd_shift = m_readShift s, rd_body = length (m_readBody s)\<rparr>"

fun op_ok :: "handler \<Rightarrow> bytes \<Rightarrow> reader \<Rightarrow> bool" where
  "op_ok (ReadByteH g) part r \<longleftrightarrow> (\<forall>rest. varint_decode (part @ rest) 0 0 = varint_decode rest (rd_length r) (rd_shift r))"
| "op_ok (ReadBodyH g) part r \<longleftrightarrow>
     varint_decode part 0 0 = Some (rd_length r, []) \<and> unat (rd_length r) = rd_body r \<and> rd_length r \<le> MaxFrameSize"
| "op_ok h part r \<longleftrightarrow> rd_received r = []"

definition reader_ok :: "reader \<Rightarrow> bool" where
  "reader_ok r \<longleftrightarrow> (\<exists>part. deframe (rd_received r) = (rd_handled r, part) \<and> (\<forall>h\<in>set (rd_ops r). op_ok h part r))"

lemma chain_ops_simps [simp]:
  "chain_ops g (ps @ qs) = chain_ops g ps @ chain_ops g qs"
  "chain_ops g ((h, w) # ps) = (if chain_gen h = Some g then h # chain_ops g ps else chain_ops g ps)"
  "chain_ops g [] = []"
  by (simp_all add: chain_ops_def)

lemma chain_ops_empty: "chain_ops g ps = [] \<longleftrightarrow> chain g ps = 0"
  by (simp add: chain_ops_def chain_def filter_empty_conv)

lemma chain_ops_fst: "map fst ps = map fst qs \<Longrightarrow> chain_ops g ps = chain_ops g qs"
  by (simp add: chain_ops_def)

lemma chain_ops_env [simp]:
  "chain_ops g (m_pending (async h s)) = chain_ops g (m_pending s) @ (if chain_gen h = Some g then [h] else [])"
  "chain_ops g (m_pending (cancel t s)) = chain_ops g (m_pending s)"
  "chain_ops g (m_pending (expires_after t d s)) = chain_ops g (m_pending s)"
  "chain_ops g (m_pending (resetIdleTimer s)) = chain_ops g (m_pending s)"
  using chain_ops_fst [OF cancel_fst] by (simp_all add: async_def expires_after_def resetIdleTimer_def)

text \<open>Most operations leave it alone.\<close>

lemma reader_of_env [simp]:
  "reader_of (withCallbacks f c s) = reader_of s"
  "reader_of (emitError x s) = reader_of s"
  "reader_of (emitAvailability b s) = reader_of s"
  "reader_of (emitVoiceStopped s) = reader_of s"
  "reader_of (setState st s) = reader_of s"
  "reader_of (cancel t s) = reader_of s"
  "reader_of (expires_after t d s) = reader_of s"
  "reader_of (resetIdleTimer s) = reader_of s"
  "chain_gen h = None \<Longrightarrow> reader_of (async h s) = reader_of s"
  by (simp_all add: reader_of_def)

lemma reader_of_async:
  "chain_gen h = Some (m_generation s) \<Longrightarrow> reader_of (async h s) = (reader_of s)\<lparr>rd_ops := rd_ops (reader_of s) @ [h]\<rparr>"
  by (simp add: reader_of_def)

lemma reader_of_beginWrite [simp]: "reader_of (beginWrite s) = reader_of s"
  by (simp add: reader_of_def) (simp add: beginWrite_def)

lemma reader_of_queueMessage [simp]: "reader_of (queueMessage p s) = reader_of s"
  by (simp add: queueMessage_def Let_def) (simp add: reader_of_def)

lemma reader_of_fold [simp]: "reader_of (fold (\<lambda>c. queueMessage (f c)) cs s) = reader_of s"
  by (induction cs arbitrary: s) simp_all

lemma reader_of_unused [simp]:
  "reader_of (s\<lparr>m_userDisconnect := ud\<rparr>) = reader_of s" "reader_of (s\<lparr>m_tasks := ts\<rparr>) = reader_of s"
  "reader_of (s\<lparr>m_voiceStarting := vs\<rparr>) = reader_of s" "reader_of (s\<lparr>m_voiceSessionId := vi\<rparr>) = reader_of s"
  "reader_of (s\<lparr>m_reconnectDelay := rd\<rparr>) = reader_of s" "reader_of (s\<lparr>m_promises := pr\<rparr>) = reader_of s"
  "reader_of (s\<lparr>m_work := wo\<rparr>) = reader_of s" "reader_of (s\<lparr>m_files := fs\<rparr>) = reader_of s"
  "reader_of (s\<lparr>m_callbacks := cs\<rparr>) = reader_of s" "reader_of (s\<lparr>m_shuttingDown := sd\<rparr>) = reader_of s"
  "reader_of (s\<lparr>m_numbers := nu\<rparr>) = reader_of s" "reader_of (s\<lparr>m_pairing := pa\<rparr>) = reader_of s"
  "reader_of (s\<lparr>m_stream := sm\<rparr>) = reader_of s" "reader_of (s\<lparr>m_sslContext := sc\<rparr>) = reader_of s"
  "reader_of (s\<lparr>m_writeInProgress := wp\<rparr>) = reader_of s" "reader_of (s\<lparr>m_undefined := un\<rparr>) = reader_of s"
  "reader_of (s\<lparr>m_written := wr, m_writeQueue := wq\<rparr>) = reader_of s" "reader_of (s\<lparr>m_lengthByte := lb\<rparr>) = reader_of s"
  by (simp_all add: reader_of_def)

lemma reader_of_post [simp]: "reader_of (post t s) = reader_of s"
  by (simp add: post_def)

lemma reader_of_call: "reader_of (run_call os c s) = reader_of s"
  by (cases c)
     (auto simp: call_defs Let_def split: option.splits prod.splits sum.splits)

text \<open>Handling a message is recorded, and nothing else.\<close>

lemma reader_of_handleMessage [simp]:
  "reader_of (handleMessage m s) = (reader_of s)\<lparr>rd_handled := rd_handled (reader_of s) @ [m]\<rparr>"
proof -
  have "reader_of (handleMessage m s) = reader_of (s\<lparr>m_handled := m_handled s @ [m]\<rparr>)"
    by (simp add: handleMessage_def Let_def split: Kind.split) (simp add: reader_of_def)
  then show ?thesis
    by (simp add: reader_of_def)
qed

lemma handleMessage_received: "m_received (handleMessage m s) = m_received s"
  using arg_cong [OF reader_of_handleMessage, of rd_received m s] by (simp add: reader_of_def)

section \<open>Closing and opening connections\<close>

lemma reader_ok_fewer: "reader_ok r \<Longrightarrow> set hs \<subseteq> set (rd_ops r) \<Longrightarrow> reader_ok (r\<lparr>rd_ops := hs\<rparr>)"
proof -
  have op: "op_ok h part (r\<lparr>rd_ops := hs\<rparr>) = op_ok h part r" for h part
    by (cases h) simp_all
  show "reader_ok r \<Longrightarrow> set hs \<subseteq> set (rd_ops r) \<Longrightarrow> reader_ok (r\<lparr>rd_ops := hs\<rparr>)"
    by (auto simp: reader_ok_def op)
qed

text \<open>No operation carries the next generation yet.\<close>

definition closable :: "Impl \<Rightarrow> bool" where
  "closable s \<longleftrightarrow> chain_ops (m_generation s + 1) (m_pending s) = []"

lemma closable_inv:
  assumes "remote_inv opts n k j s" and "n < 2 ^ 64 - 1"
  shows "closable s"
proof -
  have "generations_ok n s" "data_ok opts s"
    using assms(1) by (simp_all add: remote_inv_def)
  from closeStream_closed [OF this assms(2)] show ?thesis
    by (simp add: closed_inv_def connection_ok_def closable_def chain_ops_empty)
qed

lemma closable_env [simp]:
  "closable (withCallbacks f c s) = closable s" "closable (emitError x s) = closable s"
  "closable (cancel t s) = closable s" "closable (s\<lparr>m_userDisconnect := ud\<rparr>) = closable s"
  "closable (s\<lparr>m_reconnectDelay := rd\<rparr>) = closable s" "closable (s\<lparr>m_writeInProgress := wp\<rparr>) = closable s"
  "closable (s\<lparr>m_tasks := ts\<rparr>) = closable s" "closable (s\<lparr>m_readShift := rs\<rparr>) = closable s"
  "closable (take_byte b s) = closable s"
  by (simp_all add: closable_def take_byte_def)

lemma close_reader:
  "closable s \<Longrightarrow> reader_of (closeStream s) =
     \<lparr>rd_ops = [], rd_received = [], rd_handled = [], rd_length = 0, rd_shift = 0, rd_body = length (m_readBody s)\<rparr>"
  by (simp add: reader_of_def closable_def closeStream_def)

lemma close_ok: "closable s \<Longrightarrow> reader_ok (reader_of (closeStream s))"
  by (simp add: close_reader reader_ok_def)

lemma loss_ok:
  assumes "closable s" and "reader_ok (reader_of s) \<or> g = m_generation s"
  shows "reader_ok (reader_of (handleConnectionLoss g s))"
  using assms close_ok [of s] by (auto simp: handleConnectionLoss_def Let_def)

lemma failed_ok: "closable s \<Longrightarrow> reader_ok (reader_of s) \<Longrightarrow> reader_ok (reader_of (connectionFailed p e g s))"
  by (simp add: connectionFailed_def loss_ok)

lemma authentication_ok: "closable s \<Longrightarrow> reader_ok (reader_of s) \<Longrightarrow> reader_ok (reader_of (authenticationFailed e g s))"
  by (auto simp: authenticationFailed_def Let_def close_ok)

lemma beginConnect_ok:
  assumes "closable s" and "reader_ok (reader_of s)"
  shows "reader_ok (reader_of (beginConnect os b s))"
proof -
  have load: "ensureSslContext os (closeStream s) = (x, t) \<Longrightarrow>
      reader_of t = reader_of (closeStream s) \<and> m_generation t = m_generation s + 1" for x t
    by (auto simp: ensureSslContext_eq Let_def split: option.splits prod.splits)
  have "reader_ok (reader_of t) \<and> reader_ok (reader_of (async (ResolveH (m_generation s + 1)) (setState st t\<lparr>m_stream := Some c\<rparr>)))"
    if "ensureSslContext os (closeStream s) = (x, t)" for x t st c
    using load [OF that] by (simp add: reader_of_async close_reader [OF assms(1)] reader_ok_def)
  with assms(2) show ?thesis
    by (simp add: beginConnect_def undefined_behaviour_def Let_def split: prod.splits sum.splits option.splits)
qed

section \<open>The handlers of the chain\<close>

lemma reader_start:
  assumes "chain_ops (m_generation s) (m_pending s) = []" and "deframe (m_received s) = (m_handled s, [])"
  shows "reader_ok (reader_of (beginReadLength g s))"
  using assms by (auto simp: beginReadLength_def readOneLengthByte_def reader_ok_def reader_of_def)

lemma onReadByte_ok:
  assumes ops: "chain_ops (m_generation s) (m_pending s) = []" and g: "g = m_generation s"
    and stream: "m_stream s \<noteq> None" and shift: "m_readShift s \<le> 63" and closable: "closable s"
    and part: "deframe (m_received s) = (m_handled s, part)" "op_ok (ReadByteH g) part (reader_of s)"
  shows "reader_ok (reader_of (onReadByte g None b s))"
proof -
  let ?t = "take_byte b s"
  let ?len = "m_readLength ?t"
  have dec: "varint_decode (part @ b # rest) 0 0 =
      (if b AND 0x80 = 0 then Some (?len, rest) else varint_decode rest ?len (m_readShift s + 7))" for rest
    using part(2) shift by (simp add: reader_of_def take_byte_def Let_def)
  have t: "m_received ?t = m_received s @ [b]" "m_handled ?t = m_handled s" "m_generation ?t = g"
      "m_pending ?t = m_pending s" "m_stream ?t = m_stream s" "m_readShift ?t = m_readShift s"
    using g by (simp_all add: take_byte_def)
  have frames: "deframe (m_received s @ [b]) = (case deframe (part @ [b]) of (ms, left) \<Rightarrow> (m_handled s @ ms, left))"
    using deframe_append [OF part(1)] .
  consider (more) "b AND 0x80 \<noteq> 0" "m_readShift s + 7 \<le> 63" | (long) "b AND 0x80 \<noteq> 0" "63 < m_readShift s + 7"
    | (big) "b AND 0x80 = 0" "MaxFrameSize < ?len" | (empty) "b AND 0x80 = 0" "\<not> MaxFrameSize < ?len" "unat ?len = 0"
    | (body) "b AND 0x80 = 0" "\<not> MaxFrameSize < ?len" "unat ?len \<noteq> 0"
    by linarith
  then show ?thesis
  proof cases
    case more
    have "deframe (part @ [b]) = ([], part @ [b])"
      using dec [of "[]"] more by (subst deframe.simps) simp
    with more frames dec t ops g stream show ?thesis
      by (auto simp: onReadByte_eq Let_def readOneLengthByte_def reader_ok_def reader_of_def)
  next
    case empty
    then have "deframe (part @ [b]) = ([[]], [])"
      using dec [of "[]"] by (subst deframe.simps) simp
    with frames t ops g have "reader_ok (reader_of (beginReadLength g (handleMessage [] (?t\<lparr>m_readBody := []\<rparr>))))"
      using reader_of_handleMessage [of "[]" "?t\<lparr>m_readBody := []\<rparr>"] by (intro reader_start) (auto simp: reader_of_def)
    with empty g stream show ?thesis
      by (simp add: onReadByte_eq Let_def)
  next
    case body
    then have "deframe (part @ [b]) = ([], part @ [b])"
      using dec [of "[]"] by (subst deframe.simps) simp
    with body frames dec [of "[]"] t ops g stream show ?thesis
      by (auto simp: onReadByte_eq Let_def reader_ok_def reader_of_def)
  qed (use closable g stream t in \<open>simp_all add: onReadByte_eq Let_def loss_ok\<close>)
qed

lemma onReadBody_ok:
  assumes ops: "chain_ops (m_generation s) (m_pending s) = []" and g: "g = m_generation s"
    and part: "deframe (m_received s) = (m_handled s, part)" "op_ok (ReadBodyH g) part (reader_of s)"
    and len: "length bs = length (m_readBody s)"
  shows "reader_ok (reader_of (onReadBody g None bs s))"
proof -
  let ?t = "resetIdleTimer (s\<lparr>m_readBody := bs, m_received := m_received s @ bs\<rparr>)"
  have "varint_decode (part @ bs) 0 0 = Some (m_readLength s, bs)" "unat (m_readLength s) = length bs"
      "m_readLength s \<le> MaxFrameSize"
    using part(2) len varint_decode_append [of part 0 0 _ "[]" bs] by (auto simp: reader_of_def)
  then have "deframe (part @ bs) = ([bs], [])"
    by (subst deframe.simps) (simp add: not_less)
  with deframe_append [OF part(1), of bs] have "deframe (m_received ?t) = (m_handled ?t @ [bs], [])"
    by simp
  then have "reader_ok (reader_of (beginReadLength g (handleMessage bs ?t)))"
    using ops reader_of_handleMessage [of bs ?t] by (intro reader_start) (auto simp: reader_of_def)
  with g show ?thesis
    by (simp add: onReadBody_def)
qed

lemma connecting_ok:
  assumes "rd_received (reader_of s) = []" and "reader_ok (reader_of s)"
    and "h = ConnectH (m_generation s) \<or> h = HandshakeH (m_generation s)"
  shows "reader_ok (reader_of (async h s))"
proof -
  let ?r = "(reader_of s)\<lparr>rd_ops := rd_ops (reader_of s) @ [h]\<rparr>"
  have "op_ok h' part ?r = op_ok h' part (reader_of s)" for h' part
    by (cases h') simp_all
  moreover have "reader_of (async h s) = ?r"
    using assms(3) by (intro reader_of_async) auto
  ultimately show ?thesis
    using assms by (auto simp: reader_ok_def)
qed

section \<open>Every step\<close>

lemma take_handler_reader:
  assumes "i < length (m_pending s)" and "m_pending s ! i = (h, w)"
  shows "\<exists>hs. reader_of (take_handler i s) = (reader_of s)\<lparr>rd_ops := hs\<rparr> \<and> set hs \<subseteq> set (rd_ops (reader_of s)) \<and>
     (chain_gen h = Some (m_generation s) \<longrightarrow> h \<in> set (rd_ops (reader_of s)))"
proof -
  obtain ps qs where "m_pending s = ps @ (h, w) # qs" "remove_nth i (m_pending s) = ps @ qs"
    using remove_nth_split [OF assms(1)] assms(2) by auto
  then show ?thesis
    by (intro exI [of _ "chain_ops (m_generation s) (ps @ qs)"]) (auto simp: take_handler_def reader_of_def)
qed

lemma buffer_filled_reader:
  "length (gotBody c) = length (m_readBody s) \<Longrightarrow> reader_of (buffer_filled h c s) = reader_of s"
  by (cases h) (auto simp: reader_of_def)

lemma run_handler_reader:
  assumes inv: "remote_inv opts n 0 False s" and n: "n < 2 ^ 64 - 1" and ok: "reader_ok (reader_of s)"
    and i: "i < length (m_pending s)" "m_pending s ! i = (h, w)" and c: "possible h w c s"
  shows "reader_ok (reader_of (run_handler os h c (take_handler i s)))"
proof -
  let ?t = "take_handler i s"
  obtain hs where t: "reader_of ?t = (reader_of s)\<lparr>rd_ops := hs\<rparr>" "set hs \<subseteq> set (rd_ops (reader_of s))"
      "chain_gen h = Some (m_generation s) \<Longrightarrow> h \<in> set (rd_ops (reader_of s))"
    using take_handler_reader [OF i] by blast
  have ok': "reader_ok (reader_of ?t)"
    using reader_ok_fewer [OF ok] t by simp
  note tinv = take_handler_inv [OF inv i]
  have closable: "closable ?t"
    using closable_inv [OF tinv n] .
  have g: "m_generation ?t = m_generation s" and body: "length (gotBody c) = length (m_readBody ?t)"
    using c by (simp_all add: take_handler_def possible_def)
  consider (chain) "chain_gen h = Some (m_generation s)" | (writing) b where "h = WriteH (m_generation s) b"
    | (stale) g' where "gen_of h = Some g'" "g' \<noteq> m_generation s" | (timer) "gen_of h = None"
    by (cases h) (auto simp: gen_of_def)
  then show ?thesis
  proof cases
    case chain
    then have "write_of h = None" by (cases h) auto
    with chain tinv have tinv: "remote_inv opts n (Suc 0) False ?t" by simp
    then have ops: "chain_ops (m_generation ?t) (m_pending ?t) = []" and stream: "m_stream ?t \<noteq> None"
      and shift: "m_readShift ?t \<le> 63"
      by (auto simp: chain_ops_empty remote_inv_def connection_ok_def data_ok_def)
    have op: "op_ok h part (reader_of ?t) = op_ok h part (reader_of s)" for part
      using t(1) by (cases h) simp_all
    obtain part where part: "deframe (m_received ?t) = (m_handled ?t, part)" "op_ok h part (reader_of ?t)"
      using ok t(3) [OF chain] unfolding op by (auto simp: reader_ok_def reader_of_def take_handler_def)
    show ?thesis
    proof (cases "failure c")
      case None
      with chain g ops stream shift closable part body ok' show ?thesis
        by (cases h) (auto simp: onReadByte_ok onReadBody_ok onResolve_def onConnect_def onHandshake_def Let_def connecting_ok
            reader_of_def [of ?t] intro!: reader_start)
    next
      case (Some e)
      with closable ok' show ?thesis
        using chain by (cases h) (auto simp: failed_ok authentication_ok onReadByte_def onReadBody_def onResolve_def
            onConnect_def onHandshake_def Let_def)
    qed
  next
    case writing
    with closable ok' show ?thesis
      by (auto simp: onWrite_def undefined_behaviour_def failed_ok split: option.splits)
  next
    case stale
    with stale_handler [of h g' ?t os c] buffer_filled_reader [OF body] ok' g show ?thesis
      by simp
  next
    case timer
    with closable ok' show ?thesis
      by (cases h) (auto simp: gen_of_def onReconnect_def onIdle_def onVoiceTimeout_def beginConnect_ok loss_ok)
  qed
qed

lemma run_task_reader:
  assumes "closable s" and "reader_ok (reader_of s)"
  shows "reader_ok (reader_of (run_task os t s))"
  using assms
  by (cases t)
     (auto simp: task_defs Let_def beginConnect_ok close_ok split: option.splits)

lemma step_reader:
  assumes "step os s s'" and "(remote_inv opts n 0 False s \<and> tasks_ok s) \<and> reader_ok (reader_of s)" and "n < 2 ^ 64 - 1"
  shows "reader_ok (reader_of s')"
  using assms(1)
proof (cases rule: step.cases)
  case (step_fire i h)
  have "map fst ((m_pending s)[i := (h, Fired)]) = map fst (m_pending s)"
    using step_fire by (simp add: map_update list_update_same_conv)
  from chain_ops_fst [OF this] have "reader_of s' = reader_of s"
    unfolding step_fire(1) by (simp add: reader_of_def)
  with assms(2) show ?thesis by simp
next
  case (step_task t ts)
  with assms(2,3) closable_inv [of opts n 0 False s] show ?thesis
    by (simp add: run_task_reader)
next
  case (step_complete i h w c)
  with assms run_handler_reader show ?thesis by blast
qed (use assms in \<open>simp_all add: reader_of_call\<close>)

interpretation receive: counted_invariant "step os"
  "\<lambda>n s. (remote_inv opts n 0 False s \<and> tasks_ok s) \<and> reader_ok (reader_of s)" "2 ^ 64 - 1"
  for os opts
  by unfold_locales (blast intro: step_inv [THEN conjunct1] step_inv [THEN conjunct2] step_reader)

text \<open>
  (C2) Receiving is exact under every interleaving: in every reachable state, whatever calls, posted tasks, timers, writes and completions of
  earlier connections came between the reads, the messages the remote has handled on the current connection are
  the complete frames at the start of the bytes it has read on it, in order, each once; if the bytes are
  those of a series of messages of up to four megabytes, followed by a part of the next, these messages are the ones handled.
\<close>

theorem handled_messages_are_the_frames_received:
  assumes "reach os opts n s" and "n < 2 ^ 64"
  shows "m_handled s = fst (deframe (m_received s)) \<and>
     (\<forall>ms left. m_received s = frames ms @ left \<and> list_all (\<lambda>m. length m \<le> 4 * 1024 * 1024) ms \<and> fst (deframe left) = [] \<longrightarrow>
        m_handled s = ms)"
proof -
  obtain fs bns where run: "(step os ^^ n) (newImpl opts fs bns) s"
    using reach_run assms(1) by blast
  have "reader_ok (reader_of (newImpl opts fs bns))"
    by (simp add: reader_of_def reader_ok_def newImpl_def)
  with receive.run_keeps [OF run, of opts 0] new_inv assms(2) have "reader_ok (reader_of s)"
    by simp
  then have handled: "m_handled s = fst (deframe (m_received s))"
    by (auto simp: reader_ok_def reader_of_def)
  have "fst (deframe (frames ms @ left)) = ms @ fst (deframe left)"
    if "list_all (\<lambda>m. length m \<le> 4 * 1024 * 1024) ms" for ms left
    using that by (induction ms) (simp_all add: deframe_frame case_prod_beta)
  with handled show ?thesis
    by auto
qed

theorem handled_messages_are_the_frames_received_witness:
  "\<exists>s. reach sample_ossl sample_options 6 s \<and> m_received s = [0] \<and> m_handled s = [[]]"
proof -
  let ?s = "onReadByte 1 None 0 (sample_open\<lparr>m_pending := [] @ [(IdleH 1, Waiting)]\<rparr>)"
  have "step sample_ossl sample_open ?s"
    using sample_open_facts(2) by (intro byte_step) simp
  with sample_open_reach have "reach sample_ossl sample_options (Suc (Suc (Suc (Suc 2)))) ?s"
    by (rule reach_step)
  then have reach: "reach sample_ossl sample_options 6 ?s"
    by (simp add: eval_nat_numeral)
  have "m_received sample_open = []" "m_readLength sample_open = 0" "m_readShift sample_open = 0" "m_generation sample_open = 1"
    using sample_resolving_facts
    by (auto simp: sample_open_def onHandshake_def onConnect_def onResolve_def Let_def beginReadLength_def
        readOneLengthByte_def undefined_behaviour_def)
  then have received: "m_received ?s = [0]"
    by (simp add: onReadByte_def Let_def handleMessage_received beginReadLength_def readOneLengthByte_def)
  moreover have "fst (deframe [0]) = [[]]"
    by (subst deframe.simps) simp
  ultimately have "m_handled ?s = [[]]"
    using handled_messages_are_the_frames_received [OF reach] by simp
  with reach received show ?thesis by blast
qed

end
