(* ===== verification/Remote_Outgoing.thy ===== *)
theory Remote_Outgoing
  imports Remote_Properties
begin

text \<open>
  What goes out is typed: in every reachable state each frame that was accepted, is queued or is being written is the frame
  of a message the client may send, built by one of the functions of \<^verbatim>\<open>src/protocol_messages.cpp\<close>.
\<close>

section \<open>The client's messages\<close>

datatype client_message =
    ConfigureResponse i32
  | SetActiveResponse i32
  | PingResponse i32
  | KeyInject i32 Direction
  | ImeText string i32 i32
  | AppLinkLaunch string
  | VoiceBeginReply i32
  | VoicePayload i32 bytes
  | VoiceEnd i32

fun client_payload :: "client_message \<Rightarrow> bytes" where
  "client_payload (ConfigureResponse a) = remoteConfigureResponse a"
| "client_payload (SetActiveResponse a) = remoteSetActiveResponse a"
| "client_payload (PingResponse v) = remotePingResponse v"
| "client_payload (KeyInject k d) = remoteKey k d"
| "client_payload (ImeText t i f) = remoteText t i f"
| "client_payload (AppLinkLaunch l) = remoteAppLink l"
| "client_payload (VoiceBeginReply i) = remoteVoiceBegin i"
| "client_payload (VoicePayload i bs) = remoteVoicePayload i bs"
| "client_payload (VoiceEnd i) = remoteVoiceEnd i"

text \<open>The number of the one field each message has.\<close>

fun client_number :: "client_message \<Rightarrow> u32" where
  "client_number (ConfigureResponse a) = 1"
| "client_number (SetActiveResponse a) = 2"
| "client_number (PingResponse v) = 9"
| "client_number (KeyInject k d) = 10"
| "client_number (ImeText t i f) = 21"
| "client_number (AppLinkLaunch l) = 90"
| "client_number (VoiceBeginReply i) = 30"
| "client_number (VoicePayload i bs) = 31"
| "client_number (VoiceEnd i) = 32"

fun client_small :: "client_message \<Rightarrow> bool" where
  "client_small (ImeText t i f) \<longleftrightarrow> length t < 2 ^ 32"
| "client_small (AppLinkLaunch l) \<longleftrightarrow> length l < 2 ^ 32"
| "client_small (VoicePayload i bs) \<longleftrightarrow> length bs < 2 ^ 32"
| "client_small _ \<longleftrightarrow> True"

definition client_frames :: "bytes set" where
  "client_frames = range (\<lambda>m. frame (client_payload m))"

lemma client_frames [simp, intro]:
  "frame (remoteConfigureResponse a) \<in> client_frames" "frame (remoteSetActiveResponse a) \<in> client_frames"
  "frame (remotePingResponse v) \<in> client_frames" "frame (remoteKey k d) \<in> client_frames"
  "frame (remoteText t i f) \<in> client_frames" "frame (remoteAppLink l) \<in> client_frames"
  "frame (remoteVoiceBegin j) \<in> client_frames" "frame (remoteVoicePayload j bs) \<in> client_frames"
  "frame (remoteVoiceEnd j) \<in> client_frames"
  unfolding client_frames_def by (metis rangeI client_payload.simps)+

section \<open>The frames a remote holds\<close>

definition buffers :: "(handler \<times> wait) list \<Rightarrow> bytes set" where
  "buffers ps = {b. \<exists>g w. (WriteH g b, w) \<in> set ps}"

definition sent_ok :: "Impl \<Rightarrow> bool" where
  "sent_ok s \<longleftrightarrow> set (m_queued s) \<union> set (m_writeQueue s) \<union> buffers (m_pending s) \<union> {frame p |p. MessageT p \<in> set (m_tasks s)}
     \<subseteq> client_frames"

lemma buffers_simps [simp]:
  "buffers (ps @ qs) = buffers ps \<union> buffers qs" "buffers [] = {}"
  "buffers ((h, w) # ps) = (case write_of h of None \<Rightarrow> {} | Some (g, b) \<Rightarrow> {b}) \<union> buffers ps"
  by (auto simp: buffers_def split: option.splits) (cases h; auto)+

lemma buffers_fst: "map fst ps = map fst qs \<Longrightarrow> buffers ps = buffers qs"
proof -
  have "buffers ps = {b. \<exists>g. WriteH g b \<in> set (map fst ps)}" for ps
    by (force simp: buffers_def)
  then show "map fst ps = map fst qs \<Longrightarrow> buffers ps = buffers qs" by metis
qed

lemma buffers_env [simp]:
  "buffers (m_pending (async h s)) = buffers (m_pending s) \<union> (case write_of h of None \<Rightarrow> {} | Some (g, b) \<Rightarrow> {b})"
  "buffers (m_pending (cancel t s)) = buffers (m_pending s)"
  "buffers (m_pending (expires_after t d s)) = buffers (m_pending s)"
  "buffers (m_pending (resetIdleTimer s)) = buffers (m_pending s)"
  using buffers_fst [OF cancel_fst] by (simp_all add: async_def expires_after_def resetIdleTimer_def)

lemma sent_env [simp]:
  "sent_ok (withCallbacks f c s) = sent_ok s" "sent_ok (emitError x s) = sent_ok s"
  "sent_ok (emitAvailability b s) = sent_ok s" "sent_ok (emitVoiceStopped s) = sent_ok s"
  "sent_ok (setState st s) = sent_ok s" "sent_ok (cancel t s) = sent_ok s"
  "sent_ok (expires_after t d s) = sent_ok s" "sent_ok (resetIdleTimer s) = sent_ok s"
  "write_of h = None \<Longrightarrow> sent_ok (async h s) = sent_ok s"
  by (simp_all add: sent_ok_def)

lemma sent_unused [simp]:
  "sent_ok (s\<lparr>m_userDisconnect := ud\<rparr>) = sent_ok s" "sent_ok (s\<lparr>m_voiceStarting := vs\<rparr>) = sent_ok s"
  "sent_ok (s\<lparr>m_voiceSessionId := vi\<rparr>) = sent_ok s" "sent_ok (s\<lparr>m_reconnectDelay := rd\<rparr>) = sent_ok s"
  "sent_ok (s\<lparr>m_promises := pr\<rparr>) = sent_ok s" "sent_ok (s\<lparr>m_work := wo\<rparr>) = sent_ok s"
  "sent_ok (s\<lparr>m_files := fs\<rparr>) = sent_ok s" "sent_ok (s\<lparr>m_callbacks := cs\<rparr>) = sent_ok s"
  "sent_ok (s\<lparr>m_shuttingDown := sd\<rparr>) = sent_ok s" "sent_ok (s\<lparr>m_numbers := nu\<rparr>) = sent_ok s"
  "sent_ok (s\<lparr>m_pairing := pa\<rparr>) = sent_ok s" "sent_ok (s\<lparr>m_stream := sm\<rparr>) = sent_ok s"
  "sent_ok (s\<lparr>m_sslContext := sc\<rparr>) = sent_ok s" "sent_ok (s\<lparr>m_writeInProgress := wp\<rparr>) = sent_ok s"
  "sent_ok (s\<lparr>m_undefined := un\<rparr>) = sent_ok s" "sent_ok (s\<lparr>m_lengthByte := lb\<rparr>) = sent_ok s"
  "sent_ok (s\<lparr>m_readBody := rb\<rparr>) = sent_ok s" "sent_ok (s\<lparr>m_readLength := rl\<rparr>) = sent_ok s"
  "sent_ok (s\<lparr>m_readShift := rs\<rparr>) = sent_ok s" "sent_ok (s\<lparr>m_received := rv\<rparr>) = sent_ok s"
  "sent_ok (s\<lparr>m_handled := ha\<rparr>) = sent_ok s" "sent_ok (s\<lparr>m_supportedFeatures := sf\<rparr>) = sent_ok s"
  "sent_ok (s\<lparr>m_activeFeatures := af\<rparr>) = sent_ok s" "sent_ok (s\<lparr>m_voiceEnabled := ve\<rparr>) = sent_ok s"
  "sent_ok (s\<lparr>m_deviceInfo := di\<rparr>) = sent_ok s" "sent_ok (s\<lparr>m_currentApp := ca\<rparr>) = sent_ok s"
  "sent_ok (s\<lparr>m_imeCounter := ic\<rparr>) = sent_ok s" "sent_ok (s\<lparr>m_imeFieldCounter := fc\<rparr>) = sent_ok s"
  "sent_ok (s\<lparr>m_volumeInfo := vo\<rparr>) = sent_ok s" "sent_ok (s\<lparr>m_isOn := on\<rparr>) = sent_ok s"
  "sent_ok (s\<lparr>m_written := wr\<rparr>) = sent_ok s"
  by (simp_all add: sent_ok_def)

lemma sent_post [simp]: "sent_ok (post t s) \<longleftrightarrow> sent_ok s \<and> (\<forall>p. t = MessageT p \<longrightarrow> frame p \<in> client_frames)"
  by (auto simp: sent_ok_def post_def)

lemma sent_closeStream: "sent_ok s \<Longrightarrow> sent_ok (closeStream s)"
  by (auto simp: sent_ok_def closeStream_def)

lemma sent_beginWrite: "sent_ok s \<Longrightarrow> sent_ok (beginWrite s)"
  by (cases "m_writeQueue s") (auto simp: sent_ok_def beginWrite_def async_def)

lemma sent_queueMessage:
  assumes "sent_ok s" and "frame p \<in> client_frames"
  shows "sent_ok (queueMessage p s)"
proof -
  have "sent_ok ((resetIdleTimer s)\<lparr>m_writeQueue := m_writeQueue s @ [frame p], m_queued := m_queued s @ [frame p]\<rparr>)"
    using assms by (simp add: sent_ok_def)
  with assms show ?thesis
    by (simp add: queueMessage_def Let_def sent_beginWrite)
qed

lemma sent_fold: "sent_ok s \<Longrightarrow> sent_ok (fold (\<lambda>c. queueMessage (remoteVoicePayload sid c)) cs s)"
  by (induction cs arbitrary: s) (simp_all add: sent_queueMessage)

lemma sent_handleMessage: "sent_ok s \<Longrightarrow> sent_ok (handleMessage m s)"
  by (simp add: handleMessage_def Let_def sent_queueMessage split: Kind.split)

lemma sent_loss: "sent_ok s \<Longrightarrow> sent_ok (handleConnectionLoss g s)"
  by (simp add: handleConnectionLoss_def Let_def sent_closeStream)

lemma sent_failed: "sent_ok s \<Longrightarrow> sent_ok (connectionFailed p e g s)"
  by (simp add: connectionFailed_def sent_loss)

lemma sent_authentication: "sent_ok s \<Longrightarrow> sent_ok (authenticationFailed e g s)"
  by (simp add: authenticationFailed_def Let_def sent_closeStream)

lemma sent_reading: "sent_ok s \<Longrightarrow> sent_ok (readOneLengthByte g s)" "sent_ok s \<Longrightarrow> sent_ok (beginReadLength g s)"
  by (simp_all add: readOneLengthByte_def beginReadLength_def)

lemma sent_beginConnect: "sent_ok s \<Longrightarrow> sent_ok (beginConnect os r s)"
  using sent_closeStream [of s]
  by (auto simp: beginConnect_def ensureSslContext_eq undefined_behaviour_def Let_def split: prod.splits sum.splits option.splits)

lemmas sent_intros = sent_closeStream sent_beginWrite sent_queueMessage sent_fold sent_handleMessage sent_loss sent_failed
  sent_authentication sent_reading sent_beginConnect

section \<open>Every step\<close>

lemma sent_task: "sent_ok s \<Longrightarrow> (\<forall>p. t = MessageT p \<longrightarrow> frame p \<in> client_frames) \<Longrightarrow> sent_ok (run_task os t s)"
  by (cases t)
     (auto simp: task_defs Let_def sent_intros split: option.splits)

lemma sent_handler: "sent_ok s \<Longrightarrow> sent_ok (run_handler os h c s)"
proof (cases h)
  case (WriteH g b)
  assume s: "sent_ok s"
  then have "sent_ok (s\<lparr>m_written := w, m_writeQueue := tl (m_writeQueue s)\<rparr>)" for w
    by (cases "m_writeQueue s") (simp_all add: sent_ok_def)
  with s WriteH show ?thesis
    by (simp add: onWrite_def undefined_behaviour_def sent_intros split: option.split)
qed (auto simp: onResolve_def onConnect_def onHandshake_def onReadByte_def onReadBody_def onReconnect_def onIdle_def
      onVoiceTimeout_def undefined_behaviour_def Let_def sent_intros split: option.split)

lemma sent_call: "sent_ok s \<Longrightarrow> sent_ok (run_call os c s)"
  by (cases c)
     (auto simp: call_defs Let_def split: option.splits prod.splits sum.splits)

lemma step_sent:
  assumes "step os s s'" and "sent_ok s"
  shows "sent_ok s'"
  using assms(1)
proof (cases rule: step.cases)
  case (step_task t ts)
  then have "sent_ok (s\<lparr>m_tasks := ts\<rparr>)" and "\<forall>p. t = MessageT p \<longrightarrow> frame p \<in> client_frames"
    using assms(2) by (auto simp: sent_ok_def)
  with step_task show ?thesis
    by (simp add: sent_task)
next
  case (step_fire i h)
  have "map fst ((m_pending s)[i := (h, Fired)]) = map fst (m_pending s)"
    using step_fire by (simp add: map_update list_update_same_conv)
  from buffers_fst [OF this] show ?thesis
    using assms(2) unfolding step_fire(1) by (simp add: sent_ok_def)
next
  case (step_complete i h w c)
  have "buffers (remove_nth i (m_pending s)) \<subseteq> buffers (m_pending s)"
    by (auto simp: buffers_def remove_nth_def dest: in_set_takeD in_set_dropD)
  then have "sent_ok (take_handler i s)"
    using assms(2) by (auto simp: sent_ok_def take_handler_def)
  with step_complete show ?thesis
    by (simp add: sent_handler)
qed (use assms(2) in \<open>simp_all add: sent_call\<close>)

lemma reach_sent: "reach os opts n s \<Longrightarrow> sent_ok s"
proof (induction rule: reach.induct)
  case (reach_new fs bns)
  show ?case
    by (simp add: sent_ok_def newImpl_def)
qed (rule step_sent)

lemma one_bytes_field:
  "n \<noteq> 0 \<Longrightarrow> length bs < 2 ^ 64 \<Longrightarrow> message_fields (encode_fields [BytesW n bs]) =
     [\<lparr>fnumber = n, ftype = LengthDelimited, fvarint = 0, fbytes = bs\<rparr>]"
  using message_fields_wfields [of "[BytesW n bs]"] by (simp add: encode_fields_eq)

lemma client_fields:
  "client_small m \<Longrightarrow> \<exists>bs. message_fields (client_payload m) =
     [\<lparr>fnumber = client_number m, ftype = LengthDelimited, fvarint = 0, fbytes = bs\<rparr>]"
  by (cases m) (simp_all add: message_fields_of encode_fields_less one_bytes_field)

text \<open>
  (C6) Only messages of the client's protocol go out: in every reachable state every frame accepted, queued or being written is the frame
  of a message built for a configuration, activation, ping, key, text, link or voice message, and if its
  variable part is shorter than \<open>2 ^ 32\<close> bytes a receiver reads it as exactly one field, with the number of that message.
\<close>

theorem outgoing_frames_are_typed:
  assumes "reach os opts n s" and "f \<in> set (m_queued s) \<union> set (m_writeQueue s) \<union> buffers (m_pending s)"
  shows "\<exists>m. f = frame (client_payload m) \<and> (client_small m \<longrightarrow> (\<exists>bs. message_fields (client_payload m) =
     [\<lparr>fnumber = client_number m, ftype = LengthDelimited, fvarint = 0, fbytes = bs\<rparr>]))"
proof -
  have "f \<in> client_frames"
    using reach_sent [OF assms(1)] assms(2) by (auto simp: sent_ok_def)
  then show ?thesis
    using client_fields by (auto simp: client_frames_def)
qed

theorem outgoing_frames_are_typed_witness:
  "\<exists>s m. reach sample_ossl sample_options 4 s \<and> m_queued s = [frame (remoteKey 3 Short)] \<and> m_queued s = [frame (client_payload m)]"
proof -
  let ?s = "post (MessageT (remoteKey 3 Short)) sample_resolving"
  let ?t = "queueMessage (remoteKey 3 Short) (?s\<lparr>m_tasks := []\<rparr>)"
  have "step sample_ossl sample_resolving ?s"
    using step_call [of sample_ossl sample_resolving "CallSendKey 3 Short"] by (simp add: Impl_sendKey_def postMessage_def)
  moreover have "step sample_ossl ?s ?t"
    using step_task [of ?s "MessageT (remoteKey 3 Short)" "[]" sample_ossl] sample_resolving_facts(5) by (simp add: post_def)
  ultimately have "reach sample_ossl sample_options (Suc (Suc 2)) ?t"
    using sample_resolving_reach by (blast intro: reach_step)
  then have reach: "reach sample_ossl sample_options 4 ?t"
    by (simp add: eval_nat_numeral)
  have queued: "m_queued ?t = [frame (remoteKey 3 Short)]"
    using sample_resolving_facts by (simp add: queueMessage_queued post_def)
  then obtain m where "frame (remoteKey 3 Short) = frame (client_payload m)"
    using outgoing_frames_are_typed [OF reach, of "frame (remoteKey 3 Short)"] by auto
  with reach queued show ?thesis
    by metis
qed

end
