(* ===== verification/Remote_Shutdown.thy ===== *)
theory Remote_Shutdown
  imports Remote_Properties
begin

text \<open>
  Destruction: what the I/O thread can still do between the start of the destructor and the end of its loop.
\<close>

text \<open>The stream is the one it was, or closed.\<close>

definition same_or_closed :: "Impl \<Rightarrow> Impl \<Rightarrow> bool" where
  "same_or_closed s t \<longleftrightarrow> m_stream t = None \<or> m_stream t = m_stream s \<and> m_generation t = m_generation s"

lemma same_or_closed_refl [simp]: "same_or_closed s s"
  by (simp add: same_or_closed_def)

lemma same_or_closed_trans: "same_or_closed s t \<Longrightarrow> same_or_closed t u \<Longrightarrow> same_or_closed s u"
  by (auto simp: same_or_closed_def)

lemma connectionFailed_shutting [simp]: "m_shuttingDown s \<Longrightarrow> connectionFailed p e g s = s"
  by (simp add: connectionFailed_def)

lemma authenticationFailed_shutting [simp]: "m_shuttingDown s \<Longrightarrow> authenticationFailed e g s = s"
  by (simp add: authenticationFailed_def)

lemma beginConnect_shutting [simp]: "m_shuttingDown s \<Longrightarrow> beginConnect os r s = s"
  by (simp add: beginConnect_def)

lemma handleConnectionLoss_same [simp]:
  "m_stream (handleConnectionLoss g s) = None \<or> handleConnectionLoss g s = s"
  by (auto simp: handleConnectionLoss_def Let_def)

lemma readOneLengthByte_same [simp]:
  "m_stream (readOneLengthByte g s) = m_stream s" "m_generation (readOneLengthByte g s) = m_generation s"
  by (simp_all add: readOneLengthByte_def)

lemma beginReadLength_same [simp]:
  "m_stream (beginReadLength g s) = m_stream s" "m_generation (beginReadLength g s) = m_generation s"
  by (simp_all add: beginReadLength_def)

lemma fold_queue_same [simp]:
  "m_stream (fold (\<lambda>c. queueMessage (f c)) cs s) = m_stream s" "m_generation (fold (\<lambda>c. queueMessage (f c)) cs s) = m_generation s"
  by (induction cs arbitrary: s) simp_all

lemma handler_shutting:
  assumes "m_shuttingDown s"
  shows "same_or_closed s (run_handler os h c s)"
  using assms
  by (cases h) (auto simp: same_or_closed_def handler_defs undefined_behaviour_def handleConnectionLoss_def Let_def split: option.splits)

lemma task_shutting:
  assumes "m_shuttingDown s"
  shows "same_or_closed s (run_task os t s)"
  using assms
  by (cases t) (auto simp: same_or_closed_def task_defs Let_def split: option.splits)

text \<open>A public call only posts tasks; the destructor posts its own when it sets the flag.\<close>

lemma call_generation: "m_generation (run_call os c s) = m_generation s"
  by (cases c) (auto simp: call_defs post_def Let_def split: option.splits prod.splits sum.splits)

lemma call_tasks: "set (m_tasks s) \<subseteq> set (m_tasks (run_call os c s))"
  by (cases c) (auto simp: call_defs post_def Let_def split: option.splits prod.splits sum.splits)

lemma call_shuttingDown: "m_shuttingDown (run_call os c s) \<longleftrightarrow> m_shuttingDown s \<or> c = CallDestroy"
  by (cases c) (auto simp: call_defs post_def Let_def split: option.splits prod.splits sum.splits)

lemma step_shutting:
  assumes "step os s s'" and "m_shuttingDown s"
  shows "m_shuttingDown s' \<and> same_or_closed s s'"
  using assms(1)
proof (cases rule: step.cases)
  case (step_call c)
  with assms(2) show ?thesis
    by (simp add: call_generation call_shuttingDown same_or_closed_def)
next
  case (step_task t ts)
  with assms(2) task_shutting [of "s\<lparr>m_tasks := ts\<rparr>" os t] show ?thesis
    by (simp add: same_or_closed_def)
next
  case (step_complete i h w c)
  with assms(2) handler_shutting [of "take_handler i s" os h c] show ?thesis
    by (simp add: same_or_closed_def take_handler_def)
qed (use assms(2) in \<open>simp_all add: same_or_closed_def\<close>)

interpretation shutting: counted_invariant "step os" "\<lambda>n t. m_shuttingDown t \<and> same_or_closed s t" bound for os s bound
  by unfold_locales (blast intro: step_shutting [THEN conjunct1] step_shutting [THEN conjunct2] same_or_closed_trans)

text \<open>Until the destructor's task has run it is waiting; when it has, the stream is closed.\<close>

definition closing :: "Impl \<Rightarrow> bool" where
  "closing s \<longleftrightarrow> (m_shuttingDown s \<longrightarrow> ShutdownT \<in> set (m_tasks s) \<or> m_stream s = None)"

lemma step_closing:
  assumes "step os s s'" and "closing s"
  shows "closing s'"
proof (cases "m_shuttingDown s")
  case True
  with assms step_shutting have s': "m_shuttingDown s'" "same_or_closed s s'"
    by blast+
  from assms(1) show ?thesis
  proof (cases rule: step.cases)
    case (step_call c)
    with assms(2) True show ?thesis
      using call_tasks [of s os c] by (auto simp: closing_def)
  next
    case (step_task t ts)
    with assms(2) s'(2) True show ?thesis
      by (cases "t = ShutdownT") (auto simp: closing_def same_or_closed_def shutdown_task_def Let_def)
  next
    case (step_complete i h w c)
    with assms(2) s'(2) True show ?thesis
      by (auto simp: closing_def same_or_closed_def take_handler_def)
  qed (use assms(2) in \<open>simp_all add: closing_def\<close>)
next
  case False
  from assms(1) show ?thesis
  proof (cases rule: step.cases)
    case (step_call c)
    with False show ?thesis
      by (auto simp: closing_def call_shuttingDown Impl_shutdown_def post_def)
  qed (use False in \<open>simp_all add: closing_def take_handler_def\<close>)
qed

lemma reach_closing: "reach os opts n s \<Longrightarrow> closing s"
proof (induction rule: reach.induct)
  case (reach_new fs bns)
  show ?case
    by (simp add: closing_def newImpl_def)
qed (rule step_closing)

lemma reach_more: "(step os ^^ k) s t \<Longrightarrow> reach os opts n s \<Longrightarrow> reach os opts (n + k) t"
  by (induction k arbitrary: t) (auto intro: reach_step)

text \<open>
  (C9) Destruction opens nothing: once the destructor has begun, no task, timer, completion or call, not even one that asks for a connection,
  makes a new stream; the one there was stays until it is closed, and then there is none for good. The destructor's task is
  either still waiting or has closed the stream, and then no operation is outstanding on a current one.
\<close>

theorem destruction_opens_nothing:
  assumes "reach os opts n s" and "m_shuttingDown s" and "(step os ^^ k) s t" and "n + k < 2 ^ 64"
  shows "m_shuttingDown t \<and> (m_stream t = None \<or> m_stream t = m_stream s \<and> m_generation t = m_generation s) \<and>
     (ShutdownT \<notin> set (m_tasks t) \<longrightarrow> m_stream t = None) \<and>
     (m_stream t = None \<longrightarrow> chain (m_generation t) (m_pending t) = 0 \<and> writes (m_generation t) (m_pending t) = [])"
proof -
  have "m_shuttingDown t \<and> same_or_closed s t"
    using shutting.run_keeps [OF assms(3), of s 0 k] assms(2) by simp
  moreover have "reach os opts (n + k) t"
    using assms(3,1) by (rule reach_more)
  then have "closing t" and "remote_inv opts (n + k) 0 False t"
    using reach_closing reach_inv assms(4) by blast+
  ultimately show ?thesis
    by (auto simp: closing_def same_or_closed_def remote_inv_def connection_ok_def writer_ok_def)
qed

theorem destruction_opens_nothing_witness:
  "\<exists>s t. reach sample_ossl sample_options 3 s \<and> m_stream s \<noteq> None \<and> m_shuttingDown s \<and> step sample_ossl s t \<and> m_stream t = None"
proof -
  let ?s = "run_call sample_ossl CallDestroy sample_resolving"
  let ?t = "run_task sample_ossl ShutdownT (?s\<lparr>m_tasks := []\<rparr>)"
  have "reach sample_ossl sample_options (Suc 2) ?s"
    using sample_resolving_reach step_call by (rule reach_step)
  then have s: "reach sample_ossl sample_options 3 ?s" "m_shuttingDown ?s" "m_stream ?s \<noteq> None" "m_tasks ?s = [ShutdownT]"
    using sample_resolving_facts by (simp_all add: eval_nat_numeral Impl_shutdown_def post_def)
  then have st: "step sample_ossl ?s ?t"
    by (intro step_task) simp
  then have "(step sample_ossl ^^ 1) ?s ?t"
    by (simp only: relpowp_1)
  from destruction_opens_nothing [OF s(1,2) this] have "m_stream ?t = None"
    by (simp add: run_task_tasks del: run_task.simps)
  with s st show ?thesis
    by blast
qed

end
