(* ===== verification/Spec2Isabelle.thy ===== *)
theory Spec2Isabelle
  imports Remote_Cli Remote_Receive Remote_Outgoing Remote_Shutdown Wire_Codec Key_Codes
begin

text \<open>
  A verification of \<^verbatim>\<open>androidtvremote-native\<close>, a C++ library that controls an Android TV over its remote protocol
  version 2: protobuf messages in length-prefixed frames over mutually authenticated TLS, on one port for pairing and on
  another for commands.

  \<^bold>\<open>The program and its theories.\<close>

  \<^item> \<^verbatim>\<open>src/proto_wire\<close>: \<^verbatim>\<open>Proto_Wire\<close> has \<^verbatim>\<open>Writer\<close> and \<^verbatim>\<open>Reader\<close> as records and one function per method, the
    searches and the framing, on 64-bit words with the shifts of the code. \<^verbatim>\<open>Wire_Codec\<close> proves them: what is written is
    read back, the reader stays inside its buffer on any input and its errors latch, varints denote numbers, frames split a stream
    uniquely. Its locale \<^verbatim>\<open>prefix_reader\<close> is the contract of a decoder of length prefixes, which the buffer decoder here
    and the blocking receiver of pairing fulfil; \<^verbatim>\<open>wire_codec\<close> is that of a writer and a reader of fields.
  \<^item> \<^verbatim>\<open>include/androidtvremote/types.hpp\<close>: \<^verbatim>\<open>Remote_Types\<close>; the key names of \<^verbatim>\<open>src/android_tv_remote.cpp\<close>:
    \<^verbatim>\<open>Key_Codes\<close>, with the lookup's independence of case and prefix and its agreement with the enumeration.
  \<^item> \<^verbatim>\<open>src/protocol_messages\<close>: \<^verbatim>\<open>Protocol_Messages\<close> has the builders of all outgoing messages and \<^verbatim>\<open>parseRemote\<close>. Its
    lemmas decode each built message as a receiver would, and show that the messages of a TV are parsed to what it sent.
  \<^item> \<^verbatim>\<open>src/certificate\<close>: \<^verbatim>\<open>Certificate\<close>. The functions of OpenSSL that the code calls are the fields of a record \<^verbatim>\<open>ossl\<close>, an
    argument of every definition; big numbers live in a store that knows which were freed, and files in a file system whose operations
    may fail, writes after any number of characters and either at once or when the stream's buffer is flushed. Shown: the pairing secret is the digest the protocol prescribes and is computed without touching freed memory,
    malformed codes are refused first, identities are generated once and, if they were written completely, can be loaded again.
  \<^item> \<^verbatim>\<open>src/pairing\<close>: \<^verbatim>\<open>Pairing\<close>. The TV is a stream of bytes, a limit after which writing fails, and a certificate. Shown:
    \<^verbatim>\<open>start\<close> and \<^verbatim>\<open>finish\<close> implement a specification of the exchange on messages, and no null connection is used.
  \<^item> \<^verbatim>\<open>src/android_tv_remote.cpp\<close>, class \<^verbatim>\<open>Impl\<close>: \<^verbatim>\<open>Remote_Impl\<close> has the members as the record \<^verbatim>\<open>Impl\<close> (\<^verbatim>\<open>x_\<close> is
    \<^verbatim>\<open>m_x\<close>) and one definition per method, completion handler and posted task. \<^verbatim>\<open>Remote_Steps\<close> makes it a transition system:
    public calls at any time, posted tasks in order, timers firing, completions in any order and with any result. It proves the
    invariant of the reachable states handler by handler and interprets the locale \<^verbatim>\<open>counted_invariant\<close> of the prelude with it.
    \<^verbatim>\<open>Remote_Properties\<close> draws the consequences: operations on a stream never overlap, writes are in order and never
    stall, late completions and disconnects behave, frames are reassembled, reconnects back off, voice data is chunked.
    \<^verbatim>\<open>Remote_Conversation\<close> states what the user sees and the TV gets back as a function of the TV's messages, and proves that
    the remote implements it byte by byte. \<^verbatim>\<open>Remote_Receive\<close> compares the reading handlers with a decoder of byte streams:
    in every reachable state the messages handled on a connection are the complete frames of what was read on it.
    \<^verbatim>\<open>Remote_Outgoing\<close> shows that nothing but frames of the client's messages is ever queued or written, and
    \<^verbatim>\<open>Remote_Progress\<close> that posted tasks and writes come to rest: a measure of the work left falls in each of their steps
    (an instance of the locale \<^verbatim>\<open>falling\<close>), and at rest all that was accepted has been written. \<^verbatim>\<open>Remote_Shutdown\<close> shows
    that nothing is opened once the destructor has begun. For these statements the record
    has ghost fields, which no handler reads: the frames accepted and written, the bytes read and the messages handled since the stream
    was last closed.
  \<^item> the class \<^verbatim>\<open>AndroidTvRemote\<close>: \<^verbatim>\<open>Remote_Facade\<close>, the forwarding members over a pointer that a move empties, the
    destructor and the move assignment, with a key press followed from its name to the frame on the wire.
  \<^item> \<^verbatim>\<open>examples/remote_cli.cpp\<close>: \<^verbatim>\<open>Remote_Cli\<close>, \<^verbatim>\<open>main\<close> with its exit codes and everything that it and its callbacks print, and
    what two runs in a row do.

  \<^verbatim>\<open>Prelude\<close> has the types of bytes and words, computations that may throw (\<^verbatim>\<open>io\<close>) with their rules, and the lemmas the
  theories share.

  \<^bold>\<open>Bounds.\<close> Every definition is total: loops end by the measure of their function, so there is no fuel. The pairing loops
  take eight and four messages as in the code. The generation counter has 64 bits, so the
  properties of reachable states are about runs of fewer than \<open>2 ^ 64\<close> steps, each of which advances it at most
  once; a run that long is out of reach, and after it the counter wraps around and a very old completion could be taken for a new one.
  Frames are limited to four megabytes as in the code. Lengths in the statements about messages are below \<open>2 ^ 32\<close>, so that nested
  lengths stay below \<open>2 ^ 64\<close>.

  \<^bold>\<open>Assumptions about the environment.\<close> Handlers and tasks run one at a time, on the one I/O thread; members guarded by a
  mutex or atomic are read and written in one step with the rest of the handler. A completed read without error has filled its buffer, a
  timer's wait that fired reports no error and an aborted one does. Boost.Asio may report any error at any time. The user's
  callbacks are recorded in order; they do not change the remote. The version of OpenSSL the program is built for
  is a number of the record \<^verbatim>\<open>ossl\<close>, so that both branches of the conditional compilation are covered. Bytes of a \<^verbatim>\<open>char\<close> are characters of a \<^verbatim>\<open>string\<close>.

  \<^bold>\<open>Not modelled.\<close> The insides of Boost.Asio and OpenSSL (TLS, X.509, SHA-256); real time, beyond the order of events and the
  delays the timers are set to; data races (what other threads read of \<^verbatim>\<open>Impl\<close> is atomic, guarded by a mutex or never written); exceptions thrown for lack of memory;
  the validity of buffers that \<^verbatim>\<open>closeStream\<close> frees while operations on them are outstanding, which is a rule of Boost.Asio;
  the end of the destructor (\<^verbatim>\<open>io_.stop\<close> and joining the thread); \<^verbatim>\<open>export.hpp\<close>, the build files and the tests.
\<close>

end
